(* ===== verification/Prelude.thy ===== *)
theory Prelude
  imports
    Main
    "HOL-Library.AList"
    "HOL-Library.Char_ord"
    "HOL-Library.List_Lexorder"
    "HOL-Library.Signed_Division"
    "HOL-Library.Monad_Syntax"
    "HOL-Library.Sublist"
begin

text \<open>
  Shared ground of the development: the Go data the source is written with, as HOL types.

  \<^item> A Go \<open>string\<close> is a byte sequence, here \<^typ>\<open>string\<close> (a list of 8 bit characters).
  \<^item> A Go \<open>map\<close> is an association list with distinct keys (\<open>gomap_ok\<close>); the order of the list
    is the order one particular \<open>range\<close> loop visits the keys in.  Go leaves that order open, so
    every statement about a \<open>range\<close> loop is made for every such list.
  \<^item> A run time panic (index out of range, nil dereference, division by zero) is \<^const>\<open>None\<close>.
  \<^item> An \<open>error\<close> result is the left side of a sum, \<open>Inl message\<close>.
  \<^item> \<open>int\<close> and \<open>int64\<close> are \<^typ>\<open>int\<close> values in the 64 bit range; where the arithmetic of
    the source can leave that range the wrap-around is written out with \<open>i64\<close>.
\<close>

section \<open>Collections of facts\<close>

named_theorems gomap_simps "rewriting Go maps represented as association lists"
named_theorems go_defs "definitions of the Go primitives, for evaluating closed terms"

section \<open>Panics and errors\<close>

type_synonym goerror = string

text \<open>\<open>'a go\<close> is the outcome of code that may panic: \<^const>\<open>None\<close> is the panic.\<close>

type_synonym 'a go = "'a option"

text \<open>Reading a slice element: out of range panics.\<close>

definition slice_get :: "'a list \<Rightarrow> int \<Rightarrow> 'a go" where
  "slice_get xs i = (if 0 \<le> i \<and> i < int (length xs) then Some (xs ! nat i) else None)"

text \<open>The slice expression \<open>xs[lo:hi]\<close> on a string or on a slice with \<open>cap = len\<close>.\<close>

definition slice_sub :: "'a list \<Rightarrow> int \<Rightarrow> int \<Rightarrow> 'a list go" where
  "slice_sub xs lo hi =
     (if 0 \<le> lo \<and> lo \<le> hi \<and> hi \<le> int (length xs)
      then Some (drop (nat lo) (take (nat hi) xs)) else None)"

declare slice_get_def [go_defs] slice_sub_def [go_defs]

lemma slice_get_Some_iff:
  "slice_get xs i = Some x \<longleftrightarrow> 0 \<le> i \<and> i < int (length xs) \<and> x = xs ! nat i"
  by (auto simp: slice_get_def)

lemma slice_get_nat [simp]: "n < length xs \<Longrightarrow> slice_get xs (int n) = Some (xs ! n)"
  by (simp add: slice_get_def)

lemma slice_get_0 [simp]: "xs \<noteq> [] \<Longrightarrow> slice_get xs 0 = Some (hd xs)"
  by (simp add: slice_get_def hd_conv_nth)

lemma slice_sub_full [simp]: "slice_sub xs 0 (int (length xs)) = Some xs"
  by (simp add: slice_sub_def)

lemma slice_sub_prefix [simp]: "slice_sub (xs @ ys) 0 (int (length xs)) = Some xs"
  by (simp add: slice_sub_def)

lemma slice_sub_suffix [simp]:
  "slice_sub (xs @ ys) (int (length xs)) (int (length xs) + int (length ys)) = Some ys"
  by (simp add: slice_sub_def)

text \<open>
  A loop over a slice whose body may panic and threads an accumulator; the loop stops at the
  first panic.
\<close>

fun foldM :: "('s \<Rightarrow> 'a \<Rightarrow> 's go) \<Rightarrow> 's \<Rightarrow> 'a list \<Rightarrow> 's go" where
  "foldM f s [] = Some s"
| "foldM f s (x # xs) = (case f s x of None \<Rightarrow> None | Some s' \<Rightarrow> foldM f s' xs)"

lemma foldM_append:
  "foldM f s (xs @ ys) = (case foldM f s xs of None \<Rightarrow> None | Some s' \<Rightarrow> foldM f s' ys)"
  by (induction xs arbitrary: s) (auto split: option.splits)

lemma foldM_invariant:
  assumes "\<And>s x. I s \<Longrightarrow> x \<in> set xs \<Longrightarrow> \<exists>s'. f s x = Some s' \<and> I s'" and "I s"
  shows "\<exists>s'. foldM f s xs = Some s' \<and> I s'"
  using assms
proof (induction xs arbitrary: s)
  case Nil
  then show ?case by simp
next
  case (Cons x xs)
  from Cons.prems obtain s1 where s1: "f s x = Some s1" "I s1" by force
  from Cons.IH [of s1] Cons.prems(1) s1(2) have "\<exists>s'. foldM f s1 xs = Some s' \<and> I s'" by force
  with s1 show ?case by simp
qed

lemma foldM_preserves:
  assumes "\<And>s x s'. I s \<Longrightarrow> x \<in> set xs \<Longrightarrow> f s x = Some s' \<Longrightarrow> I s'"
    and "I s" and "foldM f s xs = Some t"
  shows "I t"
  using assms
proof (induction xs arbitrary: s)
  case Nil
  then show ?case by simp
next
  case (Cons x xs)
  from Cons.prems(3) obtain s1 where s1: "f s x = Some s1" "foldM f s1 xs = Some t"
    by (auto split: option.splits)
  have "I s1" by (rule Cons.prems(1) [OF Cons.prems(2) _ s1(1)]) simp
  show ?case
    by (rule Cons.IH [OF _ \<open>I s1\<close> s1(2)]) (rule Cons.prems(1), simp_all)
qed

section \<open>Integers of 64 bits\<close>

text \<open>Two's complement wrap-around of a mathematical integer to \<open>int64\<close>.\<close>

definition i64 :: "int \<Rightarrow> int" where
  "i64 x = (x + 2 ^ 63) mod 2 ^ 64 - 2 ^ 63"

definition int64_range :: "int \<Rightarrow> bool" where
  "int64_range x \<longleftrightarrow> - (2 ^ 63) \<le> x \<and> x < 2 ^ 63"

declare i64_def [go_defs] int64_range_def [go_defs]

lemma i64_id: "int64_range x \<Longrightarrow> i64 x = x"
  by (simp add: i64_def int64_range_def)

lemma i64_in_range: "int64_range (i64 x)"
  by (simp add: i64_def int64_range_def)

text \<open>Go's \<open>%\<close> truncates towards zero, as \<^term>\<open>a smod (b::int)\<close> does.\<close>

lemma smod_eq_mod: "0 \<le> (a::int) \<Longrightarrow> 0 < b \<Longrightarrow> a smod b = a mod b"
  by (cases "a = 0") (simp_all add: signed_modulo_int_def)

lemma smod_bounds_nonneg: "0 \<le> (a::int) \<Longrightarrow> 0 < b \<Longrightarrow> 0 \<le> a smod b \<and> a smod b < b"
  by (simp add: smod_eq_mod)

lemma abs_smod_less: "0 < (b::int) \<Longrightarrow> \<bar>a smod b\<bar> < b"
  by (simp add: signed_modulo_int_def abs_mult sgn_if)

lemma smod_dvd: "(b::int) dvd a - a smod b"
proof (cases "0 \<le> a")
  case True
  then have "a - a smod b = \<bar>a\<bar> - \<bar>a\<bar> mod \<bar>b\<bar>"
    by (cases "a = 0") (simp_all add: signed_modulo_int_def)
  then show ?thesis by (metis abs_dvd_iff dvd_minus_mod)
next
  case False
  then have "a - a smod b = - (\<bar>a\<bar> - \<bar>a\<bar> mod \<bar>b\<bar>)"
    by (simp add: signed_modulo_int_def)
  then show ?thesis by (metis abs_dvd_iff dvd_minus_iff dvd_minus_mod)
qed

section \<open>Go maps\<close>

type_synonym ('k, 'v) gomap = "('k \<times> 'v) list"

definition gomap_ok :: "('k, 'v) gomap \<Rightarrow> bool" where
  "gomap_ok m \<longleftrightarrow> distinct (map fst m)"

abbreviation m_get :: "('k, 'v) gomap \<Rightarrow> 'k \<Rightarrow> 'v option" where
  "m_get m k \<equiv> map_of m k"

abbreviation m_set :: "'k \<Rightarrow> 'v \<Rightarrow> ('k, 'v) gomap \<Rightarrow> ('k, 'v) gomap" where
  "m_set k v m \<equiv> AList.update k v m"

abbreviation m_del :: "'k \<Rightarrow> ('k, 'v) gomap \<Rightarrow> ('k, 'v) gomap" where
  "m_del k m \<equiv> AList.delete k m"

lemma m_get_set [simp, gomap_simps]:
  "m_get (m_set k v m) k' = (if k' = k then Some v else m_get m k')"
  by (simp add: update_conv')

lemma m_get_del [simp, gomap_simps]:
  "m_get (m_del k m) k' = (if k' = k then None else m_get m k')"
  by (simp add: delete_conv')

lemma gomap_ok_Nil [simp, intro]: "gomap_ok []"
  by (simp add: gomap_ok_def)

lemma gomap_ok_Cons [simp]: "gomap_ok ((k, v) # m) \<longleftrightarrow> k \<notin> fst ` set m \<and> gomap_ok m"
  by (auto simp: gomap_ok_def)

lemma gomap_ok_set [simp, intro]: "gomap_ok m \<Longrightarrow> gomap_ok (m_set k v m)"
  by (simp add: gomap_ok_def distinct_update)

lemma gomap_ok_del [simp, intro]: "gomap_ok m \<Longrightarrow> gomap_ok (m_del k m)"
  by (simp add: gomap_ok_def distinct_delete)

lemma fst_set_m_set [simp]: "fst ` set (m_set k v m) = insert k (fst ` set m)"
  by (induction m) auto

lemma fst_set_m_del [simp]: "fst ` set (m_del k m) = fst ` set m - {k}"
  by (induction m) auto

lemma m_get_None_iff: "m_get m k = None \<longleftrightarrow> k \<notin> fst ` set m"
  by (simp add: map_of_eq_None_iff)

lemma m_get_in_set: "gomap_ok m \<Longrightarrow> (k, v) \<in> set m \<longleftrightarrow> m_get m k = Some v"
  by (simp add: gomap_ok_def)

lemma m_get_SomeD: "m_get m k = Some v \<Longrightarrow> (k, v) \<in> set m"
  by (rule map_of_SomeD)

lemma length_m_set:
  "gomap_ok m \<Longrightarrow> length (m_set k v m) = (if k \<in> fst ` set m then length m else Suc (length m))"
  by (induction m) (auto simp: gomap_ok_def split: if_splits)

text \<open>Two association lists that are the same Go map are permutations of each other.\<close>

lemma gomap_same_set:
  assumes "gomap_ok m" "gomap_ok m'" "map_of m = map_of m'"
  shows "set m = set m'"
  using assms by (auto simp: gomap_ok_def map_of_inject_set)

lemma gomap_same_keys:
  assumes "gomap_ok m" "gomap_ok m'" "map_of m = map_of m'"
  shows "set (map fst m) = set (map fst m')" "length m = length m'"
proof -
  have "set m = set m'" by (rule gomap_same_set [OF assms])
  then show "set (map fst m) = set (map fst m')" by simp
  have "length m = card (set m)" "length m' = card (set m')"
    using assms(1,2) by (metis distinct_card distinct_map gomap_ok_def)+
  with \<open>set m = set m'\<close> show "length m = length m'" by simp
qed

text \<open>
  \<open>for k, v := range m { if v', ok := n[k]; !ok || v' != v { related = false; break } }\<close>,
  the tag test that several components share.
\<close>

fun tags_subset :: "('k, 'v) gomap \<Rightarrow> ('k, 'v) gomap \<Rightarrow> bool" where
  "tags_subset [] n = True"
| "tags_subset ((k, v) # m) n =
     (case m_get n k of None \<Rightarrow> False | Some v' \<Rightarrow> if v' \<noteq> v then False else tags_subset m n)"

lemma tags_subset_iff: "tags_subset m n \<longleftrightarrow> (\<forall>(k, v) \<in> set m. m_get n k = Some v)"
  by (induction m n rule: tags_subset.induct) (auto split: option.splits)

lemma tags_subset_map_le: "gomap_ok m \<Longrightarrow> tags_subset m n \<longleftrightarrow> map_of m \<subseteq>\<^sub>m map_of n"
proof -
  assume ok: "gomap_ok m"
  have "tags_subset m n \<longleftrightarrow> (\<forall>k v. m_get m k = Some v \<longrightarrow> m_get n k = Some v)"
    using ok by (auto simp: tags_subset_iff m_get_in_set)
  then show ?thesis by (auto simp: map_le_def dom_def)
qed

section \<open>Lists\<close>

lemma last_take_Suc: "n < length xs \<Longrightarrow> last (take (Suc n) xs) = xs ! n"
  by (simp add: take_Suc_conv_app_nth)

lemma sorted_wrt_take: "sorted_wrt P xs \<Longrightarrow> sorted_wrt P (take n xs)"
  by (metis append_take_drop_id sorted_wrt_append)

lemma set_sort_cong: "distinct xs \<Longrightarrow> distinct ys \<Longrightarrow> set xs = set ys \<Longrightarrow> sort xs = sort ys"
  by (metis distinct_sort set_sort sorted_distinct_set_unique sorted_sort)

end
