(* ===== verification/GoStrings.thy ===== *)
theory GoStrings
  imports Prelude
begin

text \<open>
  The string functions of Go's standard library that the source calls: \<open>strings.Split\<close>,
  \<open>SplitN\<close>, \<open>Join\<close>, \<open>Index\<close>, \<open>Replace\<close>, \<open>TrimSpace\<close>, \<open>Fields\<close>, \<open>HasPrefix\<close>, \<open>Contains\<close> and
  \<open>strconv.Itoa\<close>, \<open>Atoi\<close>, \<open>ParseInt\<close>.  Every separator in the source is one byte, so
  the splitting functions take a character.  The lemmas are the round trips
  the components rely on: splitting what was joined and parsing what was printed.
\<close>

section \<open>Splitting and joining\<close>

fun str_split :: "char \<Rightarrow> string \<Rightarrow> string list" where
  "str_split c [] = [[]]"
| "str_split c (x # xs) =
     (if x = c then [] # str_split c xs
      else (case str_split c xs of [] \<Rightarrow> [[x]] | y # ys \<Rightarrow> (x # y) # ys))"

fun str_join :: "char \<Rightarrow> string list \<Rightarrow> string" where
  "str_join c [] = []"
| "str_join c [x] = x"
| "str_join c (x # y # ys) = x @ c # str_join c (y # ys)"

text \<open>\<open>strings.SplitN(s, c, 2)\<close>: at most one cut, at the first separator.\<close>

definition str_split2 :: "char \<Rightarrow> string \<Rightarrow> string list" where
  "str_split2 c s =
     (if c \<in> set s then [takeWhile (\<lambda>x. x \<noteq> c) s, tl (dropWhile (\<lambda>x. x \<noteq> c) s)] else [s])"

text \<open>\<open>strings.Index\<close> / \<open>IndexRune\<close> of one byte: \<open>-1\<close> when absent.\<close>

definition str_index :: "string \<Rightarrow> char \<Rightarrow> int" where
  "str_index s c = (if c \<in> set s then int (length (takeWhile (\<lambda>x. x \<noteq> c) s)) else -1)"

text \<open>\<open>strings.Replace(s, c, "", -1)\<close>.\<close>

definition str_remove :: "char \<Rightarrow> string \<Rightarrow> string" where
  "str_remove c s = filter (\<lambda>x. x \<noteq> c) s"

text \<open>\<open>strings.Contains(s, t)\<close>.\<close>

definition str_contains :: "string \<Rightarrow> string \<Rightarrow> bool" where
  "str_contains s t \<longleftrightarrow> sublist t s"

declare str_split2_def [go_defs] str_index_def [go_defs] str_remove_def [go_defs]

lemma str_split_not_Nil [simp]: "str_split c s \<noteq> []"
  by (induction s) (auto split: list.splits)

lemma str_split_free: "c \<notin> set s \<Longrightarrow> str_split c s = [s]"
  by (induction s) auto

lemma str_split_append:
  "c \<notin> set s \<Longrightarrow> str_split c (s @ c # t) = s # str_split c t"
  by (induction s) auto

lemma str_split_elem_free: "x \<in> set (str_split c s) \<Longrightarrow> c \<notin> set x"
  by (induction s arbitrary: x) (auto split: if_splits list.splits)

lemma str_split_elem_subset: "x \<in> set (str_split c s) \<Longrightarrow> set x \<subseteq> set s"
proof (induction c s arbitrary: x rule: str_split.induct)
  case (2 c y ys)
  obtain z zs where z: "str_split c ys = z # zs" by (cases "str_split c ys") simp_all
  have IH: "u \<in> set (z # zs) \<Longrightarrow> set u \<subseteq> set ys" for u
    using 2(1,2) [of u] z by (cases "y = c") auto
  show ?case using 2(3) z IH [of z] IH [of x] by (cases "y = c") auto
qed simp

lemma str_split_join:
  "xs \<noteq> [] \<Longrightarrow> \<forall>x \<in> set xs. c \<notin> set x \<Longrightarrow> str_split c (str_join c xs) = xs"
  by (induction c xs rule: str_join.induct) (auto simp: str_split_free str_split_append)

lemma str_join_split: "str_join c (str_split c s) = s"
proof (induction s)
  case Nil
  then show ?case by simp
next
  case (Cons x xs)
  obtain y ys where ys: "str_split c xs = y # ys"
    by (cases "str_split c xs") auto
  with Cons show ?case by (cases ys) auto
qed

lemma set_str_join: "set (str_join c xs) \<subseteq> insert c (\<Union> (set ` set xs))"
  by (induction c xs rule: str_join.induct) auto

lemma str_split2_free: "c \<notin> set s \<Longrightarrow> str_split2 c s = [s]"
  by (simp add: str_split2_def)

lemma str_split2_append: "c \<notin> set s \<Longrightarrow> str_split2 c (s @ c # t) = [s, t]"
  by (auto simp: str_split2_def takeWhile_append dropWhile_append)

lemma str_index_append: "c \<notin> set s \<Longrightarrow> str_index (s @ c # t) c = int (length s)"
  by (auto simp: str_index_def takeWhile_append)

lemma str_index_absent: "c \<notin> set s \<Longrightarrow> str_index s c = -1"
  by (simp add: str_index_def)

lemma str_index_bounds: "-1 \<le> str_index s c" "str_index s c < int (length s) \<or> s = []"
proof -
  show "-1 \<le> str_index s c" by (simp add: str_index_def)
  have "c \<in> set s \<Longrightarrow> length (takeWhile (\<lambda>x. x \<noteq> c) s) < length s"
    by (induction s) auto
  then show "str_index s c < int (length s) \<or> s = []" by (auto simp: str_index_def)
qed

lemma str_remove_free: "c \<notin> set s \<Longrightarrow> str_remove c s = s"
  by (auto simp: str_remove_def filter_id_conv)

lemma set_str_remove [simp]: "set (str_remove c s) = set s - {c}"
  by (auto simp: str_remove_def)

section \<open>White space\<close>

text \<open>
  The byte sequences of the runes \<open>unicode.IsSpace\<close> accepts: the ASCII ones, U+0085, U+00A0,
  U+1680, U+2000 to U+200A, U+2028, U+2029, U+202F, U+205F and U+3000, in UTF-8.
\<close>

definition ws_seqs :: "string list" where
  "ws_seqs =
     [[CHR 0x09], [CHR 0x0A], [CHR 0x0B], [CHR 0x0C], [CHR 0x0D], [CHR 0x20],
      [CHR 0xC2, CHR 0x85], [CHR 0xC2, CHR 0xA0], [CHR 0xE1, CHR 0x9A, CHR 0x80],
      [CHR 0xE2, CHR 0x80, CHR 0x80], [CHR 0xE2, CHR 0x80, CHR 0x81], [CHR 0xE2, CHR 0x80, CHR 0x82],
      [CHR 0xE2, CHR 0x80, CHR 0x83], [CHR 0xE2, CHR 0x80, CHR 0x84], [CHR 0xE2, CHR 0x80, CHR 0x85],
      [CHR 0xE2, CHR 0x80, CHR 0x86], [CHR 0xE2, CHR 0x80, CHR 0x87], [CHR 0xE2, CHR 0x80, CHR 0x88],
      [CHR 0xE2, CHR 0x80, CHR 0x89], [CHR 0xE2, CHR 0x80, CHR 0x8A], [CHR 0xE2, CHR 0x80, CHR 0xA8],
      [CHR 0xE2, CHR 0x80, CHR 0xA9], [CHR 0xE2, CHR 0x80, CHR 0xAF], [CHR 0xE2, CHR 0x81, CHR 0x9F],
      [CHR 0xE3, CHR 0x80, CHR 0x80]]"

text \<open>Length of the white space rune a string starts with, if it starts with one.\<close>

definition ws_prefix :: "string list \<Rightarrow> string \<Rightarrow> nat option" where
  "ws_prefix seqs s = map_option length (find (\<lambda>w. prefix w s \<and> w \<noteq> []) seqs)"

lemma ws_prefix_pos: "ws_prefix seqs s = Some n \<Longrightarrow> 0 < n \<and> n \<le> length s"
  by (auto simp: ws_prefix_def find_Some_iff prefix_length_le)

function trim_left :: "string list \<Rightarrow> string \<Rightarrow> string" where
  "trim_left seqs s =
     (case ws_prefix seqs s of None \<Rightarrow> s | Some n \<Rightarrow> trim_left seqs (drop n s))"
  by pat_completeness auto
termination
  by (relation "measure (\<lambda>(seqs, s). length s)") (auto dest: ws_prefix_pos)

declare trim_left.simps [simp del]

text \<open>\<open>strings.TrimSpace\<close>: the right end is trimmed on the reversed string.\<close>

definition str_trim_space :: "string \<Rightarrow> string" where
  "str_trim_space s = rev (trim_left (map rev ws_seqs) (rev (trim_left ws_seqs s)))"

text \<open>\<open>strings.Fields\<close>: the maximal runs of bytes that are not white space.\<close>

function fields_from :: "string \<Rightarrow> string \<Rightarrow> string list" where
  "fields_from cur s =
     (case s of
        [] \<Rightarrow> if cur = [] then [] else [cur]
      | x # xs \<Rightarrow>
          (case ws_prefix ws_seqs s of
             None \<Rightarrow> fields_from (cur @ [x]) xs
           | Some n \<Rightarrow>
               if cur = [] then fields_from [] (drop n s)
               else cur # fields_from [] (drop n s)))"
  by pat_completeness auto
termination
  by (relation "measure (\<lambda>(cur, s). length s)") (auto dest: ws_prefix_pos)

declare fields_from.simps [simp del]

definition str_fields :: "string \<Rightarrow> string list" where
  "str_fields s = fields_from [] s"

section \<open>Decimal numerals\<close>

definition digit_char :: "nat \<Rightarrow> char" where
  "digit_char d = char_of (48 + d)"

fun nat_digits :: "nat \<Rightarrow> string" where
  "nat_digits n = (if n < 10 then [digit_char n] else nat_digits (n div 10) @ [digit_char (n mod 10)])"

declare nat_digits.simps [simp del]

text \<open>\<open>strconv.Itoa\<close>, and \<open>%d\<close> of \<open>fmt\<close>.\<close>

definition Itoa :: "int \<Rightarrow> string" where
  "Itoa i = (if i < 0 then CHR ''-'' # nat_digits (nat (- i)) else nat_digits (nat i))"

text \<open>The value of a digit of \<open>strconv\<close>: letters of either case count from ten.\<close>

definition digit_value :: "char \<Rightarrow> nat option" where
  "digit_value c =
     (let n = of_char c in
      if 48 \<le> n \<and> n \<le> 57 then Some (n - 48)
      else if 97 \<le> n \<and> n \<le> 122 then Some (n - 87)
      else if 65 \<le> n \<and> n \<le> 90 then Some (n - 55)
      else None)"

fun parse_digits :: "nat \<Rightarrow> nat \<Rightarrow> string \<Rightarrow> nat option" where
  "parse_digits base acc [] = Some acc"
| "parse_digits base acc (c # cs) =
     (case digit_value c of
        None \<Rightarrow> None
      | Some d \<Rightarrow> if d < base then parse_digits base (base * acc + d) cs else None)"

text \<open>\<open>strconv.ParseUint\<close> without its range check: an empty numeral is a syntax error.\<close>

definition parse_nat :: "nat \<Rightarrow> string \<Rightarrow> nat option" where
  "parse_nat base s = (if s = [] then None else parse_digits base 0 s)"

text \<open>\<open>strconv.ParseInt(s, base, bits)\<close> for a base from 2 to 36 (an underscore is no digit).\<close>

definition ParseInt :: "nat \<Rightarrow> nat \<Rightarrow> string \<Rightarrow> goerror + int" where
  "ParseInt base bits s =
     (let neg = (s \<noteq> [] \<and> hd s = CHR ''-'');
          t = (if s \<noteq> [] \<and> (hd s = CHR ''+'' \<or> hd s = CHR ''-'') then tl s else s)
      in case parse_nat base t of
           None \<Rightarrow> Inl ''invalid syntax''
         | Some n \<Rightarrow>
             if neg then (if int n \<le> 2 ^ (bits - 1) then Inr (- int n) else Inl ''value out of range'')
             else (if int n < 2 ^ (bits - 1) then Inr (int n) else Inl ''value out of range''))"

abbreviation Atoi :: "string \<Rightarrow> goerror + int" where
  "Atoi s \<equiv> ParseInt 10 64 s"

declare digit_char_def [go_defs] digit_value_def [go_defs] parse_nat_def [go_defs]
  ParseInt_def [go_defs]

lemma digit_value_char: "d < 10 \<Longrightarrow> digit_value (digit_char d) = Some d"
  by (simp add: digit_value_def digit_char_def)

lemma digit_char_neq [simp]:
  "d < 10 \<Longrightarrow> digit_char d \<noteq> CHR ''-''" "d < 10 \<Longrightarrow> digit_char d \<noteq> CHR ''+''"
  "d < 10 \<Longrightarrow> digit_char d \<noteq> CHR ''_''" "d < 10 \<Longrightarrow> digit_char d \<noteq> CHR '',''"
  "d < 10 \<Longrightarrow> digit_char d \<noteq> CHR ''/''" "d < 10 \<Longrightarrow> digit_char d \<noteq> CHR ''=''"
  by (auto simp: digit_char_def dest!: arg_cong [where f = "of_char :: char \<Rightarrow> nat"])

lemma parse_digits_append:
  "parse_digits b acc (s @ t) =
     (case parse_digits b acc s of None \<Rightarrow> None | Some n \<Rightarrow> parse_digits b n t)"
  by (induction b acc s rule: parse_digits.induct) (auto split: option.splits)

lemma nat_digits_not_Nil [simp]: "nat_digits n \<noteq> []"
  by (subst nat_digits.simps) simp

lemma nat_digits_set: "set (nat_digits n) \<subseteq> digit_char ` {..<10}"
proof (induction n rule: nat_digits.induct)
  case (1 n)
  show ?case
  proof (cases "n < 10")
    case True
    then show ?thesis by (simp add: nat_digits.simps [of n])
  next
    case False
    have "digit_char (n mod 10) \<in> digit_char ` {..<10}" by (rule imageI) simp
    with False 1 show ?thesis by (simp add: nat_digits.simps [of n])
  qed
qed

lemma nat_digits_notinI: "(\<And>d. d < 10 \<Longrightarrow> digit_char d \<noteq> c) \<Longrightarrow> c \<notin> set (nat_digits n)"
  using nat_digits_set [of n] by (auto simp: subset_iff image_iff)

lemma nat_digits_notin [simp]:
  "CHR ''-'' \<notin> set (nat_digits n)" "CHR ''+'' \<notin> set (nat_digits n)"
  "CHR ''_'' \<notin> set (nat_digits n)" "CHR '','' \<notin> set (nat_digits n)"
  "CHR ''/'' \<notin> set (nat_digits n)" "CHR ''='' \<notin> set (nat_digits n)"
  by (rule nat_digits_notinI, simp)+

lemma parse_digits_nat_digits: "parse_digits 10 0 (nat_digits n) = Some n"
proof (induction n rule: nat_digits.induct)
  case (1 n)
  show ?case
  proof (cases "n < 10")
    case True
    then show ?thesis by (simp add: nat_digits.simps [of n] digit_value_char)
  next
    case False
    with 1 show ?thesis
      by (simp add: nat_digits.simps [of n] parse_digits_append digit_value_char)
  qed
qed

lemma hd_nat_digits: "hd (nat_digits n) \<noteq> CHR ''-''" "hd (nat_digits n) \<noteq> CHR ''+''"
  by (metis nat_digits_not_Nil list.set_sel(1) nat_digits_notin(1))
    (metis nat_digits_not_Nil list.set_sel(1) nat_digits_notin(2))

text \<open>Printing and parsing agree on every value of the width.\<close>

lemma ParseInt_Itoa:
  assumes "- (2 ^ (bits - 1)) \<le> i" "i < 2 ^ (bits - 1)"
  shows "ParseInt 10 bits (Itoa i) = Inr i"
proof (cases "i < 0")
  case True
  with assms show ?thesis
    by (simp add: ParseInt_def Itoa_def parse_nat_def parse_digits_nat_digits Let_def)
next
  case False
  with assms show ?thesis
    by (simp add: ParseInt_def Itoa_def parse_nat_def parse_digits_nat_digits Let_def hd_nat_digits)
qed

lemma Itoa_inj:
  assumes "Itoa i = Itoa j"
  shows "i = j"
proof -
  have pos: "nat_digits a = nat_digits b \<Longrightarrow> a = b" for a b
    by (metis option.inject parse_digits_nat_digits)
  have "hd (Itoa k) = CHR ''-'' \<longleftrightarrow> k < 0" for k
    by (simp add: Itoa_def hd_nat_digits)
  then have "i < 0 \<longleftrightarrow> j < 0" using assms by metis
  with assms show ?thesis
    by (auto simp: Itoa_def dest: pos split: if_splits)
qed

lemma Itoa_notin [simp]:
  "CHR ''_'' \<notin> set (Itoa i)" "CHR '','' \<notin> set (Itoa i)" "CHR ''/'' \<notin> set (Itoa i)"
  "CHR ''='' \<notin> set (Itoa i)"
  by (simp_all add: Itoa_def)

lemma Itoa_not_Nil [simp]: "Itoa i \<noteq> []"
  by (simp add: Itoa_def)

end
