(* ===== verification/Float64.thy ===== *)
theory Float64
  imports Complex_Main GoStrings "HOL-Library.Log_Nat"
begin

text \<open>
  Go's \<open>float64\<close>: IEEE 754 binary64 with round to nearest, ties to even, on exact rationals.
  A value is a NaN, an infinity, a signed zero or a non-zero rational of the format;
  every arithmetic operation computes exactly and rounds once (\<open>f_round\<close>).
  The source never reads a NaN's payload, so there is one NaN.  Products and sums are
  rounded separately, as on amd64: no fused multiply-add.
  Besides the arithmetic the theory has \<open>math.Abs\<close>, \<open>math.Sqrt\<close>, the conversions from and to
  integers, \<open>strconv.ParseFloat\<close> and \<open>strconv.FormatFloat(x, 'f', prec, 64)\<close>.
\<close>

section \<open>Values and order\<close>

text \<open>The Boolean is the sign bit: \<^const>\<open>True\<close> for negative.\<close>

datatype f64 = NaN | Infty bool | Zero bool | Num rat

text \<open>Position of a value on the extended line: infinities outside, both zeros at 0.\<close>

fun f_key :: "f64 \<Rightarrow> (int \<times> rat) option" where
  "f_key NaN = None"
| "f_key (Infty s) = Some (if s then -1 else 1, 0)"
| "f_key (Zero s) = Some (0, 0)"
| "f_key (Num q) = Some (0, q)"

definition key_less :: "int \<times> rat \<Rightarrow> int \<times> rat \<Rightarrow> bool" where
  "key_less x y \<longleftrightarrow> fst x < fst y \<or> fst x = fst y \<and> snd x < snd y"

definition f_lt :: "f64 \<Rightarrow> f64 \<Rightarrow> bool" where
  "f_lt a b = (case (f_key a, f_key b) of (Some x, Some y) \<Rightarrow> key_less x y | _ \<Rightarrow> False)"

definition f_eq :: "f64 \<Rightarrow> f64 \<Rightarrow> bool" where
  "f_eq a b = (case (f_key a, f_key b) of (Some x, Some y) \<Rightarrow> x = y | _ \<Rightarrow> False)"

definition f_le :: "f64 \<Rightarrow> f64 \<Rightarrow> bool" where
  "f_le a b \<longleftrightarrow> f_lt a b \<or> f_eq a b"

definition f_gt :: "f64 \<Rightarrow> f64 \<Rightarrow> bool" where
  "f_gt a b = f_lt b a"

definition f_ge :: "f64 \<Rightarrow> f64 \<Rightarrow> bool" where
  "f_ge a b = f_le b a"

definition is_nan :: "f64 \<Rightarrow> bool" where
  "is_nan a \<longleftrightarrow> a = NaN"

definition is_inf :: "f64 \<Rightarrow> bool" where
  "is_inf a \<longleftrightarrow> (case a of Infty _ \<Rightarrow> True | _ \<Rightarrow> False)"

declare key_less_def [go_defs] f_lt_def [go_defs] f_eq_def [go_defs] f_le_def [go_defs]
  f_gt_def [go_defs] f_ge_def [go_defs]

section \<open>Rounding\<close>

definition pow2 :: "int \<Rightarrow> rat" where
  "pow2 e = (if 0 \<le> e then 2 ^ nat e else 1 / 2 ^ nat (- e))"

text \<open>\<open>ilog2 q\<close> is the exponent of the binade of \<open>q > 0\<close>: \<open>2^ilog2 q \<le> q < 2^(ilog2 q + 1)\<close>.\<close>

definition ilog2 :: "rat \<Rightarrow> int" where
  "ilog2 q =
     (let (p, r) = quotient_of q; e = bitlen p - bitlen r
      in if q < pow2 e then e - 1 else e)"

text \<open>Nearest integer, ties to even.\<close>

definition round_half_even :: "rat \<Rightarrow> int" where
  "round_half_even x =
     (let f = \<lfloor>x\<rfloor>; d = x - of_int f
      in if d < 1 / 2 then f else if 1 / 2 < d then f + 1 else if even f then f else f + 1)"

text \<open>Spacing of the format around a positive magnitude; subnormals share the smallest one.\<close>

definition f_ulp :: "rat \<Rightarrow> rat" where
  "f_ulp a = pow2 (max (ilog2 a) (-1022) - 52)"

text \<open>The magnitude rounded to a multiple of the spacing.\<close>

definition f_mag :: "rat \<Rightarrow> rat" where
  "f_mag a = (let u = f_ulp a in of_int (round_half_even (a / u)) * u)"

definition f_round :: "rat \<Rightarrow> f64" where
  "f_round q =
     (if q = 0 then Zero False
      else let m = f_mag \<bar>q\<bar>
           in if m = 0 then Zero (q < 0)
              else if 1024 \<le> ilog2 m then Infty (q < 0)
              else Num (if q < 0 then - m else m))"

section \<open>Arithmetic\<close>

fun f_neg :: "f64 \<Rightarrow> f64" where
  "f_neg NaN = NaN"
| "f_neg (Infty s) = Infty (\<not> s)"
| "f_neg (Zero s) = Zero (\<not> s)"
| "f_neg (Num q) = Num (- q)"

fun f_sign :: "f64 \<Rightarrow> bool" where
  "f_sign NaN = False"
| "f_sign (Infty s) = s"
| "f_sign (Zero s) = s"
| "f_sign (Num q) = (q < 0)"

fun f_add :: "f64 \<Rightarrow> f64 \<Rightarrow> f64" where
  "f_add NaN b = NaN"
| "f_add a NaN = NaN"
| "f_add (Infty s) (Infty t) = (if s = t then Infty s else NaN)"
| "f_add (Infty s) b = Infty s"
| "f_add a (Infty t) = Infty t"
| "f_add (Zero s) (Zero t) = Zero (s \<and> t)"
| "f_add (Zero s) (Num r) = Num r"
| "f_add (Num q) (Zero t) = Num q"
| "f_add (Num q) (Num r) = f_round (q + r)"

definition f_sub :: "f64 \<Rightarrow> f64 \<Rightarrow> f64" where
  "f_sub a b = f_add a (f_neg b)"

fun f_mul :: "f64 \<Rightarrow> f64 \<Rightarrow> f64" where
  "f_mul NaN b = NaN"
| "f_mul a NaN = NaN"
| "f_mul (Infty s) (Zero t) = NaN"
| "f_mul (Zero s) (Infty t) = NaN"
| "f_mul (Infty s) b = Infty (s \<noteq> f_sign b)"
| "f_mul a (Infty t) = Infty (f_sign a \<noteq> t)"
| "f_mul (Zero s) b = Zero (s \<noteq> f_sign b)"
| "f_mul a (Zero t) = Zero (f_sign a \<noteq> t)"
| "f_mul (Num q) (Num r) = f_round (q * r)"

fun f_div :: "f64 \<Rightarrow> f64 \<Rightarrow> f64" where
  "f_div NaN b = NaN"
| "f_div a NaN = NaN"
| "f_div (Infty s) (Infty t) = NaN"
| "f_div (Infty s) b = Infty (s \<noteq> f_sign b)"
| "f_div a (Infty t) = Zero (f_sign a \<noteq> t)"
| "f_div (Zero s) (Zero t) = NaN"
| "f_div (Zero s) b = Zero (s \<noteq> f_sign b)"
| "f_div a (Zero t) = Infty (f_sign a \<noteq> t)"
| "f_div (Num q) (Num r) = f_round (q / r)"

text \<open>\<open>math.Abs\<close>.\<close>

fun f_abs :: "f64 \<Rightarrow> f64" where
  "f_abs NaN = NaN"
| "f_abs (Infty s) = Infty False"
| "f_abs (Zero s) = Zero False"
| "f_abs (Num q) = Num \<bar>q\<bar>"

text \<open>\<open>float64(n)\<close> of an integer, and the value of a floating-point literal.\<close>

definition f_of_int :: "int \<Rightarrow> f64" where
  "f_of_int n = f_round (of_int n)"

text \<open>
  \<open>int(x)\<close> truncates towards zero.  Outside the range of \<open>int64\<close>, and for NaN, Go leaves the
  result to the implementation; amd64 gives the smallest integer.
\<close>

fun f_to_int :: "f64 \<Rightarrow> int" where
  "f_to_int NaN = - (2 ^ 63)"
| "f_to_int (Infty s) = - (2 ^ 63)"
| "f_to_int (Zero s) = 0"
| "f_to_int (Num q) =
     (let t = (if q < 0 then \<lceil>q\<rceil> else \<lfloor>q\<rfloor>)
      in if int64_range t then t else - (2 ^ 63))"

text \<open>Integer square root, one bit of the root per step.\<close>

fun isqrt :: "int \<Rightarrow> int" where
  "isqrt n =
     (if n \<le> 0 then 0
      else let r = 2 * isqrt (n div 4) in if (r + 1) * (r + 1) \<le> n then r + 1 else r)"

declare isqrt.simps [simp del]

text \<open>
  \<open>math.Sqrt\<close> is correctly rounded.  With \<open>u\<close> the spacing of the root, the root is \<open>\<surd>t\<close> in units
  of \<open>u\<close> where \<open>t = q / u\<^sup>2\<close>, and \<open>m + 1/2\<close> is compared with it by squaring.
\<close>

fun f_sqrt :: "f64 \<Rightarrow> f64" where
  "f_sqrt NaN = NaN"
| "f_sqrt (Infty s) = (if s then NaN else Infty False)"
| "f_sqrt (Zero s) = Zero s"
| "f_sqrt (Num q) =
     (if q < 0 then NaN
      else let u = pow2 (ilog2 q div 2 - 52); t = q / (u * u); m = isqrt \<lfloor>t\<rfloor>;
               h = of_int m + 1 / 2
           in Num (of_int (if h * h < t \<or> h * h = t \<and> odd m then m + 1 else m) * u))"

declare f_sub_def [go_defs] f_of_int_def [go_defs]

section \<open>Reading and printing\<close>

definition is_dec :: "char \<Rightarrow> bool" where
  "is_dec c \<longleftrightarrow> (let n = of_char c :: nat in 48 \<le> n \<and> n \<le> 57)"

definition is_hex :: "char \<Rightarrow> bool" where
  "is_hex c \<longleftrightarrow> (case digit_value c of None \<Rightarrow> False | Some d \<Rightarrow> d < 16)"

text \<open>\<open>'A'..'Z'\<close> to \<open>'a'..'z'\<close>; no other byte changes.\<close>

definition ascii_lower :: "char \<Rightarrow> char" where
  "ascii_lower c = (let n = of_char c :: nat in if 65 \<le> n \<and> n \<le> 90 then char_of (n + 32) else c)"

text \<open>
  Underscores of a numeral must stand between digits (or after the base prefix).  The state is
  \<open>'^'\<close> at the start, \<open>'0'\<close> after a digit or prefix, \<open>'_'\<close> after an underscore, \<open>'!'\<close> otherwise.
\<close>

fun us_scan :: "bool \<Rightarrow> char \<Rightarrow> string \<Rightarrow> bool" where
  "us_scan hex st [] = (st \<noteq> CHR ''_'')"
| "us_scan hex st (c # cs) =
     (if is_dec c \<or> hex \<and> is_hex c then us_scan hex (CHR ''0'') cs
      else if c = CHR ''_'' then st = CHR ''0'' \<and> us_scan hex (CHR ''_'') cs
      else st \<noteq> CHR ''_'' \<and> us_scan hex (CHR ''!'') cs)"

definition drop_sign :: "string \<Rightarrow> string" where
  "drop_sign s = (if s \<noteq> [] \<and> (hd s = CHR ''+'' \<or> hd s = CHR ''-'') then tl s else s)"

definition underscoreOK :: "string \<Rightarrow> bool" where
  "underscoreOK s =
     (case drop_sign s of
        a # b # t \<Rightarrow>
          if a = CHR ''0'' \<and> ascii_lower b \<in> {CHR ''b'', CHR ''o'', CHR ''x''}
          then us_scan (ascii_lower b = CHR ''x'') (CHR ''0'') t
          else us_scan False (CHR ''^'') (a # b # t)
      | t \<Rightarrow> us_scan False (CHR ''^'') t)"

text \<open>Exponent digits; the reader stops growing the exponent at 10000.\<close>

fun read_exp :: "int \<Rightarrow> string \<Rightarrow> int option" where
  "read_exp e [] = Some e"
| "read_exp e (c # cs) =
     (if is_dec c then read_exp (if e < 10000 then e * 10 + int (of_char c - 48) else e) cs else None)"

text \<open>
  \<open>readFloat\<close> on a numeral without underscores and sign: mantissa digits in the base, at most one
  point, and an exponent part (mandatory in base 16), up to the end of the string.
  The result is the exact value.
\<close>

definition read_mantissa :: "bool \<Rightarrow> string \<Rightarrow> rat option" where
  "read_mantissa hex s =
     (let dig = (\<lambda>c. if hex then is_hex c else is_dec c);
          ip = takeWhile dig s; r1 = dropWhile dig s;
          point = (r1 \<noteq> [] \<and> hd r1 = CHR ''.'');
          fp = (if point then takeWhile dig (tl r1) else []);
          r2 = (if point then dropWhile dig (tl r1) else r1);
          base = (if hex then 16 else 10)
      in case parse_digits base 0 (ip @ fp) of
           None \<Rightarrow> None
         | Some m \<Rightarrow>
             if ip @ fp = [] then None
             else
               (let scale = (\<lambda>e. if hex then (2 :: rat) powi (e - 4 * int (length fp))
                                 else (10 :: rat) powi (e - int (length fp)))
                in case r2 of
                     [] \<Rightarrow> if hex then None else Some (of_nat m * scale 0)
                   | c # r3 \<Rightarrow>
                       if ascii_lower c \<noteq> (if hex then CHR ''p'' else CHR ''e'') then None
                       else if drop_sign r3 = [] then None
                       else map_option
                              (\<lambda>e. of_nat m * scale (if hd r3 = CHR ''-'' then - e else e))
                              (read_exp 0 (drop_sign r3))))"

definition f_special :: "string \<Rightarrow> f64 option" where
  "f_special s =
     (let t = map ascii_lower s; u = map ascii_lower (drop_sign s)
      in if u = ''inf'' \<or> u = ''infinity'' then Some (Infty (hd s = CHR ''-''))
         else if t = ''nan'' then Some NaN else None)"

text \<open>\<open>strconv.ParseFloat(s, 64)\<close>.\<close>

definition ParseFloat :: "string \<Rightarrow> goerror + f64" where
  "ParseFloat s =
     (case f_special s of
        Some v \<Rightarrow> Inr v
      | None \<Rightarrow>
          (let neg = (s \<noteq> [] \<and> hd s = CHR ''-'');
               t = str_remove (CHR ''_'') (drop_sign s);
               hex = (2 < length t \<and> t ! 0 = CHR ''0'' \<and> ascii_lower (t ! 1) = CHR ''x'')
           in if CHR ''_'' \<in> set s \<and> \<not> underscoreOK s then Inl ''invalid syntax''
              else case read_mantissa hex (if hex then drop 2 t else t) of
                     None \<Rightarrow> Inl ''invalid syntax''
                   | Some q \<Rightarrow>
                       if q = 0 then Inr (Zero neg)
                       else (case f_round (if neg then - q else q) of
                               Infty _ \<Rightarrow> Inl ''value out of range''
                             | v \<Rightarrow> Inr v)))"

text \<open>Decimal digits with the point before the last \<open>prec\<close> of them.\<close>

definition fixed_digits :: "nat \<Rightarrow> nat \<Rightarrow> string" where
  "fixed_digits prec n =
     (let ds = nat_digits n; ds' = replicate (Suc prec - length ds) (CHR ''0'') @ ds;
          k = length ds' - prec
      in take k ds' @ (if prec = 0 then [] else CHR ''.'' # drop k ds'))"

text \<open>\<open>strconv.FormatFloat(x, 'f', prec, 64)\<close>, which is \<open>%.<prec>f\<close> of \<open>fmt\<close> as well.\<close>

fun FormatFloat :: "nat \<Rightarrow> f64 \<Rightarrow> string" where
  "FormatFloat prec NaN = ''NaN''"
| "FormatFloat prec (Infty s) = (if s then ''-Inf'' else ''+Inf'')"
| "FormatFloat prec (Zero s) = (if s then ''-'' else []) @ fixed_digits prec 0"
| "FormatFloat prec (Num q) =
     (if q < 0 then ''-'' else []) @ fixed_digits prec (nat (round_half_even (\<bar>q\<bar> * 10 ^ prec)))"

section \<open>Lemmas on the order\<close>

lemma f_lt_irrefl [simp]: "\<not> f_lt a a"
  by (cases a) (auto simp: f_lt_def key_less_def)

lemma f_lt_trans: "f_lt a b \<Longrightarrow> f_lt b c \<Longrightarrow> f_lt a c"
  by (auto simp: f_lt_def key_less_def split: option.splits)

lemma f_lt_asym: "f_lt a b \<Longrightarrow> \<not> f_lt b a"
  using f_lt_irrefl f_lt_trans by blast

lemma f_lt_nan [simp]: "\<not> f_lt NaN a" "\<not> f_lt a NaN"
  by (auto simp: f_lt_def split: option.splits)

lemma f_eq_nan [simp]: "\<not> f_eq NaN a" "\<not> f_eq a NaN"
  by (auto simp: f_eq_def split: option.splits)

lemma f_le_nan [simp]: "\<not> f_le NaN a" "\<not> f_le a NaN"
  by (auto simp: f_le_def)

lemma f_key_None: "f_key a = None \<longleftrightarrow> a = NaN"
  by (cases a) auto

lemma f_eq_refl: "a \<noteq> NaN \<Longrightarrow> f_eq a a"
  by (cases a) (auto simp: f_eq_def)

lemma f_le_refl: "a \<noteq> NaN \<Longrightarrow> f_le a a"
  by (simp add: f_le_def f_eq_refl)

lemma f_le_trans: "f_le a b \<Longrightarrow> f_le b c \<Longrightarrow> f_le a c"
  by (auto simp: f_le_def f_lt_def f_eq_def key_less_def split: option.splits)

lemma f_le_lt_trans: "f_le a b \<Longrightarrow> f_lt b c \<Longrightarrow> f_lt a c"
  by (auto simp: f_le_def f_lt_def f_eq_def key_less_def split: option.splits)

lemma f_lt_le_trans: "f_lt a b \<Longrightarrow> f_le b c \<Longrightarrow> f_lt a c"
  by (auto simp: f_le_def f_lt_def f_eq_def key_less_def split: option.splits)

lemma f_not_lt: "a \<noteq> NaN \<Longrightarrow> b \<noteq> NaN \<Longrightarrow> \<not> f_lt a b \<longleftrightarrow> f_le b a"
  by (cases a; cases b) (auto simp: f_le_def f_lt_def f_eq_def key_less_def)

lemma f_lt_imp_le: "f_lt a b \<Longrightarrow> f_le a b"
  by (simp add: f_le_def)

section \<open>Lemmas on rounding\<close>

lemma pow2_pos [simp]: "0 < pow2 e"
  by (simp add: pow2_def)

lemma pow2_nonzero [simp]: "pow2 e \<noteq> 0"
  using pow2_pos [of e] by (metis less_irrefl)

lemma round_half_even_int [simp]: "round_half_even (of_int n) = n"
  by (simp add: round_half_even_def)

lemma round_half_even_bounds:
  "\<lfloor>x\<rfloor> \<le> round_half_even x \<and> round_half_even x \<le> \<lfloor>x\<rfloor> + 1"
  by (simp add: round_half_even_def Let_def)

lemma round_half_even_nonneg: "0 \<le> x \<Longrightarrow> 0 \<le> round_half_even x"
  using round_half_even_bounds [of x] by (metis dual_order.trans zero_le_floor)

lemma round_half_even_error: "\<bar>of_int (round_half_even x) - x\<bar> \<le> 1 / 2"
proof -
  have "of_int \<lfloor>x\<rfloor> \<le> x" "x < of_int \<lfloor>x\<rfloor> + 1" by linarith+
  then show ?thesis by (auto simp: round_half_even_def Let_def abs_le_iff)
qed

lemma round_half_even_mono:
  assumes "x \<le> y"
  shows "round_half_even x \<le> round_half_even y"
proof (cases "\<lfloor>x\<rfloor> = \<lfloor>y\<rfloor>")
  case True
  with assms show ?thesis by (auto simp: round_half_even_def Let_def)
next
  case False
  with assms have "\<lfloor>x\<rfloor> + 1 \<le> \<lfloor>y\<rfloor>" by (meson floor_mono leD not_le_imp_less order_le_imp_less_or_eq zless_imp_add1_zle)
  with round_half_even_bounds [of x] round_half_even_bounds [of y] show ?thesis by linarith
qed

text \<open>Rounding never invents a NaN, and keeps the sign.\<close>

lemma f_round_not_nan [simp]: "f_round q \<noteq> NaN"
  by (simp add: f_round_def Let_def)

lemma f_ulp_pos [simp]: "0 < f_ulp a"
  by (simp add: f_ulp_def)

lemma f_mag_nonneg: "0 \<le> a \<Longrightarrow> 0 \<le> f_mag a"
  unfolding f_mag_def Let_def
  by (intro mult_nonneg_nonneg) (simp_all add: round_half_even_nonneg less_imp_le)

lemma f_round_nonneg_ge0: "0 \<le> q \<Longrightarrow> f_le (Zero False) (f_round q)"
  using f_mag_nonneg [of q]
  by (auto simp: f_round_def Let_def f_le_def f_lt_def f_eq_def key_less_def)

lemma f_round_nonpos_le0: "q \<le> 0 \<Longrightarrow> f_le (f_round q) (Zero False)"
  using f_mag_nonneg [of "- q"]
  by (auto simp: f_round_def Let_def f_le_def f_lt_def f_eq_def key_less_def)

text \<open>The binade of a positive rational.\<close>

lemma pow2_powi: "pow2 e = 2 powi e"
  by (simp add: pow2_def power_int_def power_one_over)

lemma pow2_add: "pow2 (a + b) = pow2 a * pow2 b"
  by (simp add: pow2_powi power_int_add)

lemma pow2_mono: "a \<le> b \<Longrightarrow> pow2 a \<le> pow2 b"
  by (simp add: pow2_powi power_int_increasing)

lemma pow2_strict_mono: "a < b \<Longrightarrow> pow2 a < pow2 b"
  by (simp add: pow2_powi power_int_strict_increasing)

lemma pow2_Suc: "pow2 (a + 1) = 2 * pow2 a"
  by (simp add: pow2_powi power_int_add)

lemma bitlen_bounds_rat:
  assumes "0 < p"
  shows "pow2 (bitlen p - 1) \<le> of_int p" "of_int p < pow2 (bitlen p)"
proof -
  have bl: "0 < bitlen p" using bitlen_eq_zero_iff [of p] bitlen_nonneg [of p] assms by linarith
  have "2 ^ nat (bitlen p - 1) \<le> p \<and> p < 2 ^ nat (bitlen p)"
    using bitlen_bounds assms by blast
  then have "(of_int (2 ^ nat (bitlen p - 1)) :: rat) \<le> of_int p"
    "(of_int p :: rat) < of_int (2 ^ nat (bitlen p))"
    by (simp_all only: of_int_le_iff of_int_less_iff)
  with bl show "pow2 (bitlen p - 1) \<le> of_int p" "of_int p < pow2 (bitlen p)"
    by (simp_all add: pow2_def)
qed

lemma ilog2_bounds:
  assumes "0 < q"
  shows "pow2 (ilog2 q) \<le> q" "q < pow2 (ilog2 q + 1)"
proof -
  obtain p r where pr: "quotient_of q = (p, r)" by fastforce
  have r: "0 < r" using quotient_of_denom_pos [OF pr] .
  have q: "q = of_int p / of_int r" using quotient_of_div [OF pr] .
  have p: "0 < p" using assms q r by (simp add: zero_less_divide_iff)
  let ?e = "bitlen p - bitlen r"
  have "of_int p < pow2 (bitlen p)" by (rule bitlen_bounds_rat(2) [OF p])
  also have "\<dots> = pow2 (?e + 1) * pow2 (bitlen r - 1)" by (simp flip: pow2_add)
  also have "\<dots> \<le> pow2 (?e + 1) * of_int r"
    by (rule mult_left_mono [OF bitlen_bounds_rat(1) [OF r]]) (simp add: less_imp_le)
  finally have up: "q < pow2 (?e + 1)" using r q by (simp add: divide_less_eq)
  have "pow2 (?e - 1) * of_int r \<le> pow2 (?e - 1) * pow2 (bitlen r)"
    by (rule mult_left_mono [OF less_imp_le [OF bitlen_bounds_rat(2) [OF r]]]) (simp add: less_imp_le)
  also have "\<dots> = pow2 (bitlen p - 1)" by (simp flip: pow2_add)
  also have "\<dots> \<le> of_int p" by (rule bitlen_bounds_rat(1) [OF p])
  finally have lo: "pow2 (?e - 1) \<le> q" using r q by (simp add: le_divide_eq)
  show "pow2 (ilog2 q) \<le> q" "q < pow2 (ilog2 q + 1)"
    using up lo pr by (auto simp: ilog2_def Let_def)
qed

lemma ilog2_less: "0 < q \<Longrightarrow> q < pow2 n \<Longrightarrow> ilog2 q < n"
  using ilog2_bounds(1) [of q] pow2_mono [of n "ilog2 q"] by fastforce

lemma pow2_neg_int:
  assumes "e \<le> 0"
  shows "of_int n / pow2 e = of_int (n * 2 ^ nat (- e))"
  using assms by (simp add: pow2_def)

text \<open>Integers of at most 53 bits are exact.\<close>

lemma f_mag_int:
  assumes "0 < n" "n < 2 ^ 53"
  shows "f_mag (of_int n) = of_int n"
proof -
  have "(of_int n :: rat) < of_int (2 ^ 53)" using assms(2) by (simp only: of_int_less_iff)
  then have "ilog2 (of_int n) < 53"
    using assms(1) by (intro ilog2_less) (simp_all add: pow2_def)
  then have e: "max (ilog2 (of_int n)) (-1022) - 52 \<le> 0" by simp
  let ?u = "pow2 (max (ilog2 (of_int n)) (-1022) - 52)"
  have "f_mag (of_int n) = of_int (round_half_even (of_int n / ?u)) * ?u"
    by (simp add: f_mag_def f_ulp_def Let_def)
  also have "\<dots> = (of_int n / ?u) * ?u"
    by (simp only: pow2_neg_int [OF e] round_half_even_int)
  finally show ?thesis by simp
qed

lemma f_of_int_exact:
  assumes "n \<noteq> 0" "\<bar>n\<bar> < 2 ^ 53"
  shows "f_of_int n = Num (of_int n)"
proof -
  have "\<bar>of_int n\<bar> = (of_int \<bar>n\<bar> :: rat)" by simp
  moreover have "f_mag (of_int \<bar>n\<bar>) = of_int \<bar>n\<bar>"
    using assms by (intro f_mag_int) auto
  moreover have "ilog2 (of_int \<bar>n\<bar>) < 53"
  proof -
    have "(of_int \<bar>n\<bar> :: rat) < of_int (2 ^ 53)" using assms(2) by (simp only: of_int_less_iff)
    also have "\<dots> = pow2 53" by (simp add: pow2_def)
    finally show ?thesis using assms(1) by (intro ilog2_less) simp_all
  qed
  ultimately show ?thesis
    using assms(1) by (auto simp: f_of_int_def f_round_def Let_def)
qed

lemma f_of_int_0 [simp]: "f_of_int 0 = Zero False"
  by (simp add: f_of_int_def f_round_def)

end
