(* ===== verification/Hashes.thy ===== *)
theory Hashes
  imports GoStrings "HOL-Library.Word"
begin

text \<open>
  The two digests of Go's standard library the source uses: \<open>md5.Sum\<close> printed in hexadecimal
  (\<open>common/utils/md5.go\<close>) and \<open>crc32.ChecksumIEEE\<close>.  What the other components need of
  them is their shape: 32 lower case hexadecimal digits, and 32 bits.
\<close>

unbundle bit_operations_syntax

section \<open>MD5\<close>

text \<open>Bytes of a string, and little endian packing of 32 bit words.\<close>

definition bytes_of :: "string \<Rightarrow> 32 word list" where
  "bytes_of s = map (\<lambda>c. word_of_nat (of_char c)) s"

fun le_words :: "32 word list \<Rightarrow> 32 word list" where
  "le_words (a # b # c # d # r) =
     (a OR push_bit 8 b OR push_bit 16 c OR push_bit 24 d) # le_words r"
| "le_words _ = []"

definition le_bytes :: "32 word \<Rightarrow> 32 word list" where
  "le_bytes w = [w AND 255, drop_bit 8 w AND 255, drop_bit 16 w AND 255, drop_bit 24 w AND 255]"

text \<open>Padding: \<open>0x80\<close>, zeros to 56 modulo 64, and the bit length in eight bytes.\<close>

definition md5_pad :: "string \<Rightarrow> 32 word list" where
  "md5_pad s =
     (let n = length s; z = (55 + 64 - n mod 64) mod 64; bits = 8 * int n
      in bytes_of s @ 128 # replicate z 0 @ le_bytes (word_of_int bits)
         @ le_bytes (word_of_int (bits div 2 ^ 32)))"

definition md5_K :: "32 word list" where
  "md5_K =
   [0xd76aa478, 0xe8c7b756, 0x242070db, 0xc1bdceee, 0xf57c0faf, 0x4787c62a, 0xa8304613, 0xfd469501,
    0x698098d8, 0x8b44f7af, 0xffff5bb1, 0x895cd7be, 0x6b901122, 0xfd987193, 0xa679438e, 0x49b40821,
    0xf61e2562, 0xc040b340, 0x265e5a51, 0xe9b6c7aa, 0xd62f105d, 0x02441453, 0xd8a1e681, 0xe7d3fbc8,
    0x21e1cde6, 0xc33707d6, 0xf4d50d87, 0x455a14ed, 0xa9e3e905, 0xfcefa3f8, 0x676f02d9, 0x8d2a4c8a,
    0xfffa3942, 0x8771f681, 0x6d9d6122, 0xfde5380c, 0xa4beea44, 0x4bdecfa9, 0xf6bb4b60, 0xbebfbc70,
    0x289b7ec6, 0xeaa127fa, 0xd4ef3085, 0x04881d05, 0xd9d4d039, 0xe6db99e5, 0x1fa27cf8, 0xc4ac5665,
    0xf4292244, 0x432aff97, 0xab9423a7, 0xfc93a039, 0x655b59c3, 0x8f0ccc92, 0xffeff47d, 0x85845dd1,
    0x6fa87e4f, 0xfe2ce6e0, 0xa3014314, 0x4e0811a1, 0xf7537e82, 0xbd3af235, 0x2ad7d2bb, 0xeb86d391]"

definition md5_rot :: "nat list" where
  "md5_rot =
     concat (replicate 4 [7, 12, 17, 22]) @ concat (replicate 4 [5, 9, 14, 20])
     @ concat (replicate 4 [4, 11, 16, 23]) @ concat (replicate 4 [6, 10, 15, 21])"

type_synonym md5_state = "32 word \<times> 32 word \<times> 32 word \<times> 32 word"

definition md5_step :: "32 word list \<Rightarrow> nat \<times> 32 word \<times> nat \<Rightarrow> md5_state \<Rightarrow> md5_state" where
  "md5_step M ik st =
     (case (ik, st) of ((i, k, r), (a, b, c, d)) \<Rightarrow>
        (let (f, g) =
               (if i < 16 then ((b AND c) OR (NOT b AND d), i)
                else if i < 32 then ((d AND b) OR (NOT d AND c), (5 * i + 1) mod 16)
                else if i < 48 then (b XOR c XOR d, (3 * i + 5) mod 16)
                else (c XOR (b OR NOT d), (7 * i) mod 16))
         in (d, b + word_rotl r (f + a + k + M ! g), b, c)))"

definition md5_block :: "md5_state \<Rightarrow> 32 word list \<Rightarrow> md5_state" where
  "md5_block st M =
     (case (st, fold (md5_step M) (zip [0..<64] (zip md5_K md5_rot)) st) of
        ((a, b, c, d), (a', b', c', d')) \<Rightarrow> (a + a', b + b', c + c', d + d'))"

fun md5_blocks :: "nat \<Rightarrow> md5_state \<Rightarrow> 32 word list \<Rightarrow> md5_state" where
  "md5_blocks 0 st ws = st"
| "md5_blocks (Suc n) st ws = md5_blocks n (md5_block st (take 16 ws)) (drop 16 ws)"

definition md5_sum :: "string \<Rightarrow> 32 word list" where
  "md5_sum s =
     (let ws = le_words (md5_pad s)
      in case md5_blocks (length ws div 16) (0x67452301, 0xefcdab89, 0x98badcfe, 0x10325476) ws of
           (a, b, c, d) \<Rightarrow> le_bytes a @ le_bytes b @ le_bytes c @ le_bytes d)"

text \<open>The sixteen digits, in the order of \<open>arr\<close> in the judge's \<open>InitHistoryBigMap\<close>.\<close>

definition hex_chars :: string where
  "hex_chars = ''0123456789abcdef''"

definition hex_digit :: "nat \<Rightarrow> char" where
  "hex_digit d = hex_chars ! d"

definition hex_byte :: "32 word \<Rightarrow> string" where
  "hex_byte w = [hex_digit (unat w div 16 mod 16), hex_digit (unat w mod 16)]"

text \<open>\<open>Md5\<close> of \<open>common/utils/md5.go\<close>.\<close>

definition Md5 :: "string \<Rightarrow> string" where
  "Md5 raw = concat (map hex_byte (md5_sum raw))"

lemma hex_digit_mem: "d < 16 \<Longrightarrow> hex_digit d \<in> set hex_chars"
  unfolding hex_digit_def by (rule nth_mem) (simp add: hex_chars_def)

lemma hex_byte_mem: "set (hex_byte w) \<subseteq> set hex_chars"
  by (simp add: hex_byte_def hex_digit_mem)

lemma length_md5_sum [simp]: "length (md5_sum s) = 16"
  by (simp add: md5_sum_def le_bytes_def Let_def split: prod.splits)

lemma length_Md5 [simp]: "length (Md5 s) = 32"
proof -
  have "length (concat (map hex_byte ws)) = 2 * length ws" for ws
    by (induction ws) (simp_all add: hex_byte_def)
  then show ?thesis by (simp add: Md5_def)
qed

lemma set_Md5: "set (Md5 s) \<subseteq> set hex_chars"
  using hex_byte_mem by (fastforce simp: Md5_def)

lemma Md5_notin:
  "CHR ''_'' \<notin> set (Md5 s)" "CHR ''/'' \<notin> set (Md5 s)"
  using set_Md5 [of s] by (auto simp: hex_chars_def)

lemma Md5_not_Nil [simp]: "Md5 s \<noteq> []"
  using length_Md5 [of s] by (metis list.size(3) zero_neq_numeral)

section \<open>CRC-32\<close>

definition crc_bit :: "32 word \<Rightarrow> 32 word" where
  "crc_bit c = (if bit c 0 then drop_bit 1 c XOR 0xEDB88320 else drop_bit 1 c)"

definition crc_byte :: "char \<Rightarrow> 32 word \<Rightarrow> 32 word" where
  "crc_byte x c = (crc_bit ^^ 8) (c XOR word_of_nat (of_char x))"

text \<open>\<open>crc32.ChecksumIEEE\<close>.\<close>

definition crc32 :: "string \<Rightarrow> 32 word" where
  "crc32 s = NOT (fold crc_byte s (NOT 0))"

end
