(* ===== verification/CommonUtils.thy ===== *)
theory CommonUtils
  imports Float64 Hashes
begin

text \<open>
  \<open>common/utils\<close>: tag strings (\<open>tags.go\<close>), the keys built from endpoint, metric and tags
  (\<open>func.go\<close>, \<open>counter.go\<close>), \<open>map.go\<close>, the statistics of \<open>statistics.go\<close> and the printing of
  floats (\<open>formatter.go\<close>).  The string builders write into a pooled buffer that is reset first,
  so a builder is the concatenation of what it writes.

  Lemmas: the sorted form of a tag map does not depend on the iteration order and
  is inverted by \<open>DictedTagstring\<close>; the byte-index parser agrees with the \<open>SplitN\<close> one; the
  primary key determines its three parts.
\<close>

type_synonym tags = "(string, string) gomap"

abbreviation comma :: char where "comma \<equiv> CHR '',''"
abbreviation equals :: char where "equals \<equiv> CHR ''=''"
abbreviation slash :: char where "slash \<equiv> CHR ''/''"
abbreviation blank :: char where "blank \<equiv> CHR '' ''"

section \<open>Tags\<close>

text \<open>Reading a Go map with a key that may be absent gives the zero value.\<close>

definition tag_value :: "tags \<Rightarrow> string \<Rightarrow> string" where
  "tag_value m k = (case m_get m k of None \<Rightarrow> [] | Some v \<Rightarrow> v)"

text \<open>\<open>keys[i] = k\<close> for every key, then \<open>sort.Strings\<close>.\<close>

definition KeysOfMap :: "(string, 'v) gomap \<Rightarrow> string list" where
  "KeysOfMap m = sort (map fst m)"

fun write_tags :: "tags \<Rightarrow> nat \<Rightarrow> nat \<Rightarrow> string list \<Rightarrow> string" where
  "write_tags m sz j [] = []"
| "write_tags m sz j (key # keys) =
     key @ [equals] @ tag_value m key @ (if int j \<noteq> int sz - 1 then [comma] else [])
     @ write_tags m sz (Suc j) keys"

definition SortedTags :: "tags \<Rightarrow> string" where
  "SortedTags m =
     (let sz = length m in
      if sz = 0 then []
      else if sz = 1 then (case m of (k, v) # _ \<Rightarrow> k @ [equals] @ v | [] \<Rightarrow> [])
      else write_tags m sz 0 (sort (map fst m)))"

definition dict_add :: "tags \<Rightarrow> string \<Rightarrow> tags" where
  "dict_add d t =
     (let idx = str_index t equals
      in if idx \<noteq> -1 then m_set (take (nat idx) t) (drop (nat idx + 1) t) d else d)"

definition DictedTagstring :: "string \<Rightarrow> tags" where
  "DictedTagstring s =
     (if s = [] then []
      else let s' = (if blank \<in> set s then str_remove blank s else s)
           in foldl dict_add [] (str_split comma s'))"

text \<open>The loop of \<open>SplitTagsString\<close> stops at the first bad tag and keeps what it has.\<close>

fun split_tags_loop :: "tags \<Rightarrow> string list \<Rightarrow> goerror option \<times> tags" where
  "split_tags_loop d [] = (None, d)"
| "split_tags_loop d (t # ts) =
     (case str_split2 equals t of
        [k, v] \<Rightarrow> split_tags_loop (m_set k v d) ts
      | _ \<Rightarrow> (Some (''bad tag '' @ t), d))"

definition SplitTagsString :: "string \<Rightarrow> goerror option \<times> tags" where
  "SplitTagsString s =
     (let s' = str_remove blank s
      in if s' = [] then (None, []) else split_tags_loop [] (str_split comma s'))"

text \<open>
  The reference forms: the pairs joined with commas in key order, and the parser that
  cuts every tag with \<open>strings.SplitN(tag, "=", 2)\<close> and drops what does not split.
\<close>

definition tag_pair :: "tags \<Rightarrow> string \<Rightarrow> string" where
  "tag_pair m k = k @ [equals] @ tag_value m k"

definition sorted_tags_spec :: "tags \<Rightarrow> string" where
  "sorted_tags_spec m = str_join comma (map (tag_pair m) (sort (map fst m)))"

definition dict_add_spec :: "tags \<Rightarrow> string \<Rightarrow> tags" where
  "dict_add_spec d t = (case str_split2 equals t of [k, v] \<Rightarrow> m_set k v d | _ \<Rightarrow> d)"

definition dicted_tags_spec :: "string \<Rightarrow> tags" where
  "dicted_tags_spec s =
     (if s = [] then [] else foldl dict_add_spec [] (str_split comma (str_remove blank s)))"

section \<open>Keys\<close>

definition PK :: "string \<Rightarrow> string \<Rightarrow> tags \<Rightarrow> string" where
  "PK endpoint metric tags =
     (if tags = [] then endpoint @ [slash] @ metric
      else endpoint @ [slash] @ metric @ [slash] @ SortedTags tags)"

definition PK2 :: "string \<Rightarrow> string \<Rightarrow> string" where
  "PK2 endpoint counter = endpoint @ [slash] @ counter"

definition UUID :: "string \<Rightarrow> string \<Rightarrow> tags \<Rightarrow> string \<Rightarrow> int \<Rightarrow> string" where
  "UUID endpoint metric tags dstype step =
     (if tags = [] then endpoint @ [slash] @ metric @ [slash] @ dstype @ [slash] @ Itoa step
      else endpoint @ [slash] @ metric @ [slash] @ SortedTags tags @ [slash] @ dstype @ [slash]
           @ Itoa step)"

definition Checksum :: "string \<Rightarrow> string \<Rightarrow> tags \<Rightarrow> string" where
  "Checksum endpoint metric tags = Md5 (PK endpoint metric tags)"

definition ChecksumOfUUID :: "string \<Rightarrow> string \<Rightarrow> tags \<Rightarrow> string \<Rightarrow> int \<Rightarrow> string" where
  "ChecksumOfUUID endpoint metric tags dstype step = Md5 (UUID endpoint metric tags dstype step)"

definition Counter :: "string \<Rightarrow> tags \<Rightarrow> string" where
  "Counter metric tags = (if tags = [] then metric else metric @ [slash] @ SortedTags tags)"

section \<open>Statistics and formatting\<close>

definition ComputeMean :: "f64 list \<Rightarrow> f64" where
  "ComputeMean values =
     f_div (foldl f_add (Zero False) values) (f_of_int (int (length values)))"

definition ComputeStdDeviation :: "f64 list \<Rightarrow> f64" where
  "ComputeStdDeviation values =
     (let mean = ComputeMean values;
          vp = map (\<lambda>v. let temp = f_sub v mean in f_mul temp temp) values
      in f_sqrt (ComputeMean vp))"

definition trim_right :: "char \<Rightarrow> string \<Rightarrow> string" where
  "trim_right c s = rev (dropWhile (\<lambda>x. x = c) (rev s))"

definition ReadableFloat :: "f64 \<Rightarrow> string" where
  "ReadableFloat raw =
     (let val = FormatFloat 5 raw
      in if CHR ''.'' \<in> set val then trim_right (CHR ''.'') (trim_right (CHR ''0'') val) else val)"

section \<open>The sorted form of tags\<close>

lemma write_tags_join:
  "j + length keys = sz \<Longrightarrow> write_tags m sz j keys = str_join comma (map (tag_pair m) keys)"
proof (induction keys arbitrary: j)
  case Nil
  then show ?case by simp
next
  case (Cons key keys)
  then have IH: "write_tags m sz (Suc j) keys = str_join comma (map (tag_pair m) keys)" by simp
  show ?case
  proof (cases keys)
    case Nil
    with Cons.prems have "int j = int sz - 1" by simp
    with Nil show ?thesis by (simp add: tag_pair_def)
  next
    case (Cons k ks)
    with Cons.prems have "int j \<noteq> int sz - 1" by simp
    then have "write_tags m sz j (key # keys) =
      tag_pair m key @ comma # str_join comma (map (tag_pair m) keys)"
      using IH by (simp add: tag_pair_def)
    with \<open>keys = k # ks\<close> show ?thesis by simp
  qed
qed

lemma SortedTags_spec: "SortedTags m = sorted_tags_spec m"
proof (cases "length m \<le> 1")
  case True
  then consider "m = []" | k v where "m = [(k, v)]"
    by (metis One_nat_def le_Suc_eq le_zero_eq length_0_conv length_Suc_conv old.prod.exhaust)
  then show ?thesis
    by cases (auto simp: SortedTags_def sorted_tags_spec_def tag_pair_def tag_value_def)
next
  case False
  then show ?thesis
    by (auto simp: SortedTags_def sorted_tags_spec_def Let_def intro!: write_tags_join)
qed

lemma SortedTags_Nil [simp]: "SortedTags [] = []"
  by (simp add: SortedTags_def)

lemma tag_value_cong: "map_of m = map_of m' \<Longrightarrow> tag_value m = tag_value m'"
  by (intro ext) (simp add: tag_value_def)

lemma SortedTags_cong:
  assumes "gomap_ok m" "gomap_ok m'" "map_of m = map_of m'"
  shows "SortedTags m = SortedTags m'"
proof -
  have "sort (map fst m) = sort (map fst m')"
    using assms gomap_same_keys(1) [OF assms] by (intro set_sort_cong) (auto simp: gomap_ok_def)
  moreover have "tag_pair m = tag_pair m'"
    by (intro ext) (simp add: tag_pair_def tag_value_cong [OF assms(3)])
  ultimately show ?thesis by (simp add: SortedTags_spec sorted_tags_spec_def)
qed

text \<open>Tags as the agents send them: no separator in keys, no comma or blank in values.\<close>

definition tags_clean :: "tags \<Rightarrow> bool" where
  "tags_clean m \<longleftrightarrow>
     (\<forall>(k, v) \<in> set m. set k \<inter> {equals, comma, blank} = {} \<and> set v \<inter> {comma, blank} = {})"

lemma dict_add_pair:
  assumes "equals \<notin> set k"
  shows "dict_add d (k @ equals # v) = m_set k v d"
  using assms by (simp add: dict_add_def str_index_append)

lemma dict_add_agree: "dict_add d t = dict_add_spec d t"
proof (cases "equals \<in> set t")
  case True
  then obtain k v where t: "t = k @ equals # v" "equals \<notin> set k" by (meson split_list_first)
  then show ?thesis
    by (simp add: dict_add_pair dict_add_spec_def str_split2_append)
next
  case False
  then show ?thesis
    by (simp add: dict_add_def dict_add_spec_def str_index_absent str_split2_free)
qed

lemma DictedTagstring_agree: "DictedTagstring s = dicted_tags_spec s"
proof -
  have "dict_add = dict_add_spec" by (intro ext) (rule dict_add_agree)
  then show ?thesis by (simp add: DictedTagstring_def dicted_tags_spec_def str_remove_free)
qed

lemma split_tags_loop_agree:
  "fst (split_tags_loop d ts) = None \<Longrightarrow> snd (split_tags_loop d ts) = foldl dict_add_spec d ts"
  by (induction d ts rule: split_tags_loop.induct)
    (auto simp: dict_add_spec_def split: list.splits)

lemma gomap_ok_foldl_dict_add: "gomap_ok d \<Longrightarrow> gomap_ok (foldl dict_add d ts)"
  by (induction ts arbitrary: d) (auto simp: dict_add_def Let_def)

lemma gomap_ok_DictedTagstring [simp]: "gomap_ok (DictedTagstring s)"
  by (simp add: DictedTagstring_def Let_def gomap_ok_foldl_dict_add)

lemma foldl_dict_add_pairs:
  assumes "\<forall>k \<in> set ks. equals \<notin> set k"
  shows "map_of (foldl dict_add d (map (tag_pair m) ks)) =
    (\<lambda>k. if k \<in> set ks then Some (tag_value m k) else map_of d k)"
  using assms
  by (induction ks arbitrary: d) (auto simp: tag_pair_def dict_add_pair fun_eq_iff)

lemma tags_clean_keyD: "tags_clean m \<Longrightarrow> k \<in> fst ` set m \<Longrightarrow> set k \<inter> {equals, comma, blank} = {}"
  by (fastforce simp: tags_clean_def)

lemma tags_clean_value: "tags_clean m \<Longrightarrow> set (tag_value m k) \<inter> {comma, blank} = {}"
proof (cases "m_get m k")
  case (Some v)
  then have "(k, v) \<in> set m" by (rule map_of_SomeD)
  moreover assume "tags_clean m"
  ultimately show ?thesis using Some by (auto simp: tags_clean_def tag_value_def)
qed (simp add: tag_value_def)

lemma tag_pair_clean:
  assumes "tags_clean m" "k \<in> fst ` set m"
  shows "comma \<notin> set (tag_pair m k)" "blank \<notin> set (tag_pair m k)"
  using tags_clean_keyD [OF assms] tags_clean_value [OF assms(1), of k]
  by (auto simp: tag_pair_def)

lemma SortedTags_blank_free:
  assumes "tags_clean m"
  shows "blank \<notin> set (SortedTags m)"
proof -
  have "set (SortedTags m) \<subseteq> insert comma (\<Union> (set ` tag_pair m ` fst ` set m))"
    using set_str_join [of comma "map (tag_pair m) (sort (map fst m))"]
    by (simp add: SortedTags_spec sorted_tags_spec_def image_image)
  moreover have "\<forall>k \<in> fst ` set m. blank \<notin> set (tag_pair m k)"
    using tag_pair_clean(2) [OF assms] by blast
  ultimately show ?thesis by auto
qed

lemma sort_eq_Nil [simp]: "sort xs = [] \<longleftrightarrow> xs = []"
  by (metis length_0_conv length_sort)

lemma SortedTags_not_Nil: "m \<noteq> [] \<Longrightarrow> SortedTags m \<noteq> []"
proof
  assume m: "m \<noteq> []" and e: "SortedTags m = []"
  from m obtain k ks where ks: "sort (map fst m) = k # ks" by (cases "sort (map fst m)") auto
  from e show False
    by (cases ks) (simp_all add: SortedTags_spec sorted_tags_spec_def ks tag_pair_def)
qed

lemma DictedTagstring_SortedTags:
  assumes "gomap_ok m" "tags_clean m"
  shows "map_of (DictedTagstring (SortedTags m)) = map_of m"
proof (cases "m = []")
  case True
  then show ?thesis by (simp add: DictedTagstring_def)
next
  case False
  let ?ks = "sort (map fst m)"
  have "str_split comma (SortedTags m) = map (tag_pair m) ?ks"
  proof -
    have "\<forall>k \<in> fst ` set m. comma \<notin> set (tag_pair m k)"
      using tag_pair_clean(1) [OF assms(2)] by blast
    with False show ?thesis
      by (auto simp: SortedTags_spec sorted_tags_spec_def intro!: str_split_join)
  qed
  then have "DictedTagstring (SortedTags m) = foldl dict_add [] (map (tag_pair m) ?ks)"
    using SortedTags_blank_free [OF assms(2)] SortedTags_not_Nil [OF False]
    by (simp add: DictedTagstring_def)
  moreover have "\<forall>k \<in> set ?ks. equals \<notin> set k"
    using tags_clean_keyD [OF assms(2)] by auto
  ultimately have "map_of (DictedTagstring (SortedTags m)) =
    (\<lambda>k. if k \<in> fst ` set m then Some (tag_value m k) else None)"
    by (simp add: foldl_dict_add_pairs cong: if_cong)
  moreover have "(if k \<in> fst ` set m then Some (tag_value m k) else None) = map_of m k" for k
  proof (cases "k \<in> fst ` set m")
    case True
    then have "m_get m k \<noteq> None" by (simp add: m_get_None_iff)
    with True show ?thesis by (auto simp: tag_value_def)
  next
    case False
    then have "m_get m k = None" by (simp only: m_get_None_iff not_False_eq_True)
    with False show ?thesis by simp
  qed
  ultimately show ?thesis by simp
qed

lemma SortedTags_inj:
  assumes "gomap_ok m" "tags_clean m" "gomap_ok m'" "tags_clean m'" "SortedTags m = SortedTags m'"
  shows "map_of m = map_of m'"
  using DictedTagstring_SortedTags [OF assms(1,2)] DictedTagstring_SortedTags [OF assms(3,4)]
  unfolding assms(5) by (rule trans [OF sym])

section \<open>Primary keys\<close>

lemma PK_cong:
  assumes "gomap_ok m" "gomap_ok m'" "map_of m = map_of m'"
  shows "PK e mt m = PK e mt m'"
proof -
  have "m = [] \<longleftrightarrow> m' = []"
    using gomap_same_keys(2) [OF assms] by auto
  with SortedTags_cong [OF assms] show ?thesis by (simp add: PK_def)
qed

lemma append_slash_inj:
  assumes "slash \<notin> set a" "slash \<notin> set b" "a @ slash # x = b @ slash # y"
  shows "a = b \<and> x = y"
proof -
  have "[a, x] = [b, y]"
    using str_split2_append [OF assms(1), of x] str_split2_append [OF assms(2), of y]
    unfolding assms(3) by (rule trans [OF sym])
  then show ?thesis by simp
qed

lemma PK_Counter: "PK e mt m = PK2 e (Counter mt m)"
  by (simp add: PK_def PK2_def Counter_def)

lemma PK2_inj:
  assumes "slash \<notin> set e" "slash \<notin> set e'" "PK2 e c = PK2 e' c'"
  shows "e = e' \<and> c = c'"
  by (rule append_slash_inj [OF assms(1,2)]) (use assms(3) in \<open>simp add: PK2_def\<close>)

lemma Counter_inj:
  assumes "slash \<notin> set mt" "slash \<notin> set mt'" "Counter mt m = Counter mt' m'"
    and "gomap_ok m" "tags_clean m" "gomap_ok m'" "tags_clean m'"
  shows "mt = mt' \<and> map_of m = map_of m'"
proof -
  have "m = [] \<longleftrightarrow> m' = []"
  proof (rule ccontr)
    assume "\<not> (m = [] \<longleftrightarrow> m' = [])"
    then consider "m = []" "m' \<noteq> []" | "m \<noteq> []" "m' = []" by blast
    then show False
      using assms(1-3) by cases (auto simp: Counter_def)
  qed
  then show ?thesis
  proof (cases "m = []")
    case True
    with \<open>m = [] \<longleftrightarrow> m' = []\<close> assms(3) show ?thesis by (simp add: Counter_def)
  next
    case False
    with \<open>m = [] \<longleftrightarrow> m' = []\<close> assms(3)
    have "mt @ slash # SortedTags m = mt' @ slash # SortedTags m'" by (simp add: Counter_def)
    from append_slash_inj [OF assms(1,2) this] have "mt = mt'" "SortedTags m = SortedTags m'" by auto
    from SortedTags_inj [OF assms(4-7) this(2)] this(1) show ?thesis by simp
  qed
qed

lemma PK_inj:
  assumes "PK e mt m = PK e' mt' m'"
    and "slash \<notin> set e" "slash \<notin> set e'" "slash \<notin> set mt" "slash \<notin> set mt'"
    and "gomap_ok m" "tags_clean m" "gomap_ok m'" "tags_clean m'"
  shows "e = e' \<and> mt = mt' \<and> map_of m = map_of m'"
proof -
  have "e = e'" "Counter mt m = Counter mt' m'"
    using PK2_inj [OF assms(2,3) assms(1) [unfolded PK_Counter]] by auto
  from Counter_inj [OF assms(4,5) this(2) assms(6-9)] this(1) show ?thesis by simp
qed

section \<open>What the tag parser yields\<close>

lemma set_m_set: "set (m_set k v m) \<subseteq> insert (k, v) (set m)"
  by (induction m) auto

lemma tags_clean_dict_add:
  assumes "tags_clean d" "set t \<inter> {comma, blank} = {}"
  shows "tags_clean (dict_add d t)"
proof (cases "equals \<in> set t")
  case True
  then obtain k v where t: "t = k @ equals # v" "equals \<notin> set k" by (meson split_list_first)
  then have "dict_add d t = m_set k v d" by (simp add: dict_add_pair)
  then show ?thesis using set_m_set [of k v d] assms t by (fastforce simp: tags_clean_def)
next
  case False
  with assms(1) show ?thesis by (simp add: dict_add_def str_index_absent)
qed

lemma tags_clean_DictedTagstring: "tags_clean (DictedTagstring s)"
proof -
  have "tags_clean (foldl dict_add d ts)" if "tags_clean d" "\<forall>t \<in> set ts. set t \<inter> {comma, blank} = {}" for d ts
    using that by (induction ts arbitrary: d) (auto simp: tags_clean_dict_add)
  moreover have "set t \<inter> {comma, blank} = {}" if "t \<in> set (str_split comma (str_remove blank s))" for t
  proof -
    have "set t \<subseteq> set (str_remove blank s)"
      by (rule str_split_elem_subset [OF that])
    with str_split_elem_free [OF that] show ?thesis by auto
  qed
  moreover have "tags_clean []" by (simp add: tags_clean_def)
  ultimately have "tags_clean (foldl dict_add [] (str_split comma (str_remove blank s)))" by blast
  with \<open>tags_clean []\<close> show ?thesis
    by (cases "blank \<in> set s") (simp_all add: DictedTagstring_def str_remove_free)
qed

text \<open>The printed form of a parsed tag string is not longer than the string.\<close>

definition tags_weight :: "tags \<Rightarrow> nat" where
  "tags_weight d = (\<Sum>(k, v) \<leftarrow> d. length k + length v + 2)"

lemma tags_weight_m_set: "tags_weight (m_set k v d) \<le> tags_weight d + (length k + length v + 2)"
  by (induction d) (auto simp: tags_weight_def)

lemma tags_weight_dict_add: "tags_weight (dict_add d t) \<le> tags_weight d + length t + 1"
proof (cases "equals \<in> set t")
  case True
  then obtain k v where t: "t = k @ equals # v" "equals \<notin> set k" by (meson split_list_first)
  then show ?thesis using tags_weight_m_set [of k v d] by (simp add: dict_add_pair)
qed (simp add: dict_add_def str_index_absent)

lemma length_str_join: "xs \<noteq> [] \<Longrightarrow> length (str_join c xs) + 1 = (\<Sum>x \<leftarrow> xs. length x + 1)"
  by (induction c xs rule: str_join.induct) auto

lemma tags_weight_foldl: "tags_weight (foldl dict_add d ts) \<le> tags_weight d + (\<Sum>t \<leftarrow> ts. length t + 1)"
proof (induction ts arbitrary: d)
  case (Cons t ts)
  from Cons [of "dict_add d t"] tags_weight_dict_add [of d t] show ?case by simp
qed simp

lemma tags_weight_SortedTags:
  assumes "gomap_ok d" "d \<noteq> []"
  shows "length (SortedTags d) + 1 = tags_weight d"
proof -
  have "length (SortedTags d) + 1 = (\<Sum>k \<leftarrow> sort (map fst d). length (tag_pair d k) + 1)"
    using length_str_join [of "map (tag_pair d) (sort (map fst d))" comma] assms(2)
    by (simp add: SortedTags_spec sorted_tags_spec_def comp_def)
  also have "\<dots> = (\<Sum>k \<leftarrow> map fst d. length (tag_pair d k) + 1)"
    using assms(1) by (simp add: sum_list_distinct_conv_sum_set gomap_ok_def del: map_map)
  also have "\<dots> = tags_weight d"
  proof -
    have "length (tag_pair d (fst x)) + 1 = (case x of (k, v) \<Rightarrow> length k + length v + 2)" if "x \<in> set d" for x
      using that m_get_in_set [OF assms(1), of "fst x" "snd x"]
      by (auto simp: tag_pair_def tag_value_def case_prod_beta)
    then show ?thesis by (simp add: tags_weight_def comp_def cong: map_cong)
  qed
  finally show ?thesis .
qed

lemma SortedTags_length: "length (SortedTags (DictedTagstring s)) \<le> length s"
proof (cases "DictedTagstring s = []")
  case False
  let ?ts = "str_split comma (str_remove blank s)"
  have "DictedTagstring s = foldl dict_add [] ?ts"
    using False by (auto simp: DictedTagstring_def Let_def str_remove_free split: if_splits)
  then have "tags_weight (DictedTagstring s) \<le> (\<Sum>t \<leftarrow> ?ts. length t + 1)"
    using tags_weight_foldl [of "[]" ?ts] by (simp add: tags_weight_def)
  also have "\<dots> = length (str_remove blank s) + 1"
    using length_str_join [of ?ts comma] by (simp add: str_join_split)
  also have "\<dots> \<le> length s + 1" by (simp add: str_remove_def)
  finally show ?thesis using tags_weight_SortedTags [OF gomap_ok_DictedTagstring False] by simp
qed simp

end
