(* ===== verification/CommonModel.thy ===== *)
theory CommonModel
  imports CommonUtils
begin

text \<open>
  \<open>common/model\<close>: the structs the modules exchange, as records whose fields carry the source's
  names behind a short prefix.  A pointer that may be \<open>nil\<close> is an \<open>option\<close>; a method that
  dereferences one is a \<open>go\<close> computation with \<open>None\<close> for the panic.  \<open>interface{}\<close> values of a
  metric are the datatype \<open>goval\<close> of the dynamic types the receivers distinguish.
\<close>

section \<open>Strategies, expressions and events\<close>

record Template =
  tp_Id :: int
  tp_Name :: string
  tp_ParentId :: int
  tp_ActionId :: int
  tp_Creator :: string

record Strategy =
  st_Id :: int
  st_Metric :: string
  st_Tags :: tags
  st_Func :: string
  st_Operator :: string
  st_RightValue :: f64
  st_MaxStep :: int
  st_Priority :: int
  st_Note :: string
  st_Tpl :: "Template option"

record HostStrategy =
  hs_Hostname :: string
  hs_Strategies :: "Strategy list"

record Expression =
  ex_Id :: int
  ex_Metric :: string
  ex_Tags :: tags
  ex_Func :: string
  ex_Operator :: string
  ex_RightValue :: f64
  ex_MaxStep :: int
  ex_Priority :: int
  ex_Note :: string
  ex_ActionId :: int

record Event =
  ev_Id :: string
  ev_Strategy :: "Strategy option"
  ev_Expression :: "Expression option"
  ev_Status :: string
  ev_Endpoint :: string
  ev_LeftValue :: f64
  ev_CurrentStep :: int
  ev_EventTime :: int
  ev_PushedTags :: tags

definition ExpressionId :: "Event \<Rightarrow> int" where
  "ExpressionId e = (case ev_Expression e of Some x \<Rightarrow> ex_Id x | None \<Rightarrow> 0)"

definition StrategyId :: "Event \<Rightarrow> int" where
  "StrategyId e = (case ev_Strategy e of Some s \<Rightarrow> st_Id s | None \<Rightarrow> 0)"

definition TplId :: "Event \<Rightarrow> int go" where
  "TplId e = (case ev_Strategy e of
     Some s \<Rightarrow> map_option tp_Id (st_Tpl s) | None \<Rightarrow> Some 0)"

definition Tpl :: "Event \<Rightarrow> Template option" where
  "Tpl e = (case ev_Strategy e of Some s \<Rightarrow> st_Tpl s | None \<Rightarrow> None)"

definition ActionId :: "Event \<Rightarrow> int go" where
  "ActionId e = (case ev_Expression e of
     Some x \<Rightarrow> Some (ex_ActionId x)
   | None \<Rightarrow> do { s \<leftarrow> ev_Strategy e; t \<leftarrow> st_Tpl s; Some (tp_ActionId t) })"

text \<open>
  \<open>Priority\<close>, \<open>Note\<close>, \<open>Metric\<close>, \<open>RightValue\<close>, \<open>Operator\<close>, \<open>Func\<close> and \<open>MaxStep\<close> have the same body:
  the strategy's field if there is a strategy, otherwise the expression's.
\<close>

definition event_field :: "(Strategy \<Rightarrow> 'a) \<Rightarrow> (Expression \<Rightarrow> 'a) \<Rightarrow> Event \<Rightarrow> 'a go" where
  "event_field fs fe e = (case ev_Strategy e of
     Some s \<Rightarrow> Some (fs s) | None \<Rightarrow> map_option fe (ev_Expression e))"

definition Event_Priority :: "Event \<Rightarrow> int go" where
  "Event_Priority = event_field st_Priority ex_Priority"

definition Event_Note :: "Event \<Rightarrow> string go" where
  "Event_Note = event_field st_Note ex_Note"

definition Event_Metric :: "Event \<Rightarrow> string go" where
  "Event_Metric = event_field st_Metric ex_Metric"

definition Event_RightValue :: "Event \<Rightarrow> f64 go" where
  "Event_RightValue = event_field st_RightValue ex_RightValue"

definition Event_Operator :: "Event \<Rightarrow> string go" where
  "Event_Operator = event_field st_Operator ex_Operator"

definition Event_Func :: "Event \<Rightarrow> string go" where
  "Event_Func = event_field st_Func ex_Func"

definition Event_MaxStep :: "Event \<Rightarrow> int go" where
  "Event_MaxStep = event_field st_MaxStep ex_MaxStep"

definition Event_Counter :: "Event \<Rightarrow> string go" where
  "Event_Counter e = do {
     m \<leftarrow> Event_Metric e;
     Some (ev_Endpoint e @ ''/'' @ m @ '' '' @ SortedTags (ev_PushedTags e)) }"

text \<open>
  \<open>json.Marshal\<close> of an event fails exactly when one of its floats is NaN or infinite
  (\<open>UnsupportedValueError\<close>); strings, integers and string maps always marshal.
\<close>

definition finite_f64 :: "f64 \<Rightarrow> bool" where
  "finite_f64 x \<longleftrightarrow> \<not> is_nan x \<and> \<not> is_inf x"

definition event_marshals :: "Event \<Rightarrow> bool" where
  "event_marshals e \<longleftrightarrow>
     finite_f64 (ev_LeftValue e)
     \<and> (case ev_Strategy e of None \<Rightarrow> True | Some s \<Rightarrow> finite_f64 (st_RightValue s))
     \<and> (case ev_Expression e of None \<Rightarrow> True | Some x \<Rightarrow> finite_f64 (ex_RightValue x))"

section \<open>Metrics\<close>

datatype goval = VNil | VString string | VFloat f64 | VInt64 int | VOther

record MetricValue =
  mv_Endpoint :: string
  mv_Metric :: string
  mv_Value :: goval
  mv_Step :: int
  mv_Type :: string
  mv_Tags :: string
  mv_Timestamp :: int

record MetaData =
  md_Metric :: string
  md_Endpoint :: string
  md_Timestamp :: int
  md_Step :: int
  md_Value :: f64
  md_CounterType :: string
  md_Tags :: tags

definition MetaData_PK :: "MetaData \<Rightarrow> string" where
  "MetaData_PK t = PK (md_Endpoint t) (md_Metric t) (md_Tags t)"

record TransferResponse =
  tr_Message :: string
  tr_Total :: int
  tr_Invalid :: int
  tr_Latency :: int

record JudgeItem =
  ji_Endpoint :: string
  ji_Metric :: string
  ji_Value :: f64
  ji_Timestamp :: int
  ji_JudgeType :: string
  ji_Tags :: tags

definition JudgeItem_PrimaryKey :: "JudgeItem \<Rightarrow> string" where
  "JudgeItem_PrimaryKey t = Md5 (PK (ji_Endpoint t) (ji_Metric t) (ji_Tags t))"

record HistoryData =
  hd_Timestamp :: int
  hd_Value :: f64

record GraphItem =
  gi_Endpoint :: string
  gi_Metric :: string
  gi_Tags :: tags
  gi_Value :: f64
  gi_Timestamp :: int
  gi_DsType :: string
  gi_Step :: int
  gi_Heartbeat :: int
  gi_Min :: string
  gi_Max :: string

definition GraphItem_PrimaryKey :: "GraphItem \<Rightarrow> string" where
  "GraphItem_PrimaryKey t = PK (gi_Endpoint t) (gi_Metric t) (gi_Tags t)"

definition GraphItem_Checksum :: "GraphItem \<Rightarrow> string" where
  "GraphItem_Checksum t = Checksum (gi_Endpoint t) (gi_Metric t) (gi_Tags t)"

definition GraphItem_UUID :: "GraphItem \<Rightarrow> string" where
  "GraphItem_UUID t = UUID (gi_Endpoint t) (gi_Metric t) (gi_Tags t) (gi_DsType t) (gi_Step t)"

record TsdbItem =
  ts_Metric :: string
  ts_Tags :: tags
  ts_Value :: f64
  ts_Timestamp :: int

record InfluxdbItem =
  in_Measurement :: string
  in_Tags :: tags
  in_Fileds :: "(string, goval) gomap"
  in_Timestamp :: int

record P8sItem =
  p8_Endpoint :: string
  p8_Metric :: string
  p8_Tags :: tags
  p8_Value :: f64
  p8_Timestamp :: int
  p8_MetricType :: string
  p8_Step :: int

section \<open>Graph queries\<close>

record GraphQueryParam =
  gq_Start :: int
  gq_End :: int
  gq_ConsolFun :: string
  gq_Endpoint :: string
  gq_Counter :: string
  gq_Step :: int

record RRDData =
  rd_Timestamp :: int
  rd_Value :: f64

definition NewRRDData :: "int \<Rightarrow> f64 \<Rightarrow> RRDData" where
  "NewRRDData ts val = \<lparr> rd_Timestamp = ts, rd_Value = val \<rparr>"

text \<open>\<open>JsonFloat.MarshalJSON\<close>: \<open>null\<close> for what JSON cannot carry, six decimals otherwise.\<close>

definition JsonFloat_MarshalJSON :: "f64 \<Rightarrow> string" where
  "JsonFloat_MarshalJSON f = (if is_nan f \<or> is_inf f then ''null'' else FormatFloat 6 f)"

record GraphQueryResponse =
  gr_Endpoint :: string
  gr_Counter :: string
  gr_DsType :: string
  gr_Step :: int
  gr_Values :: "RRDData list"

record GraphLastResp =
  gl_Endpoint :: string
  gl_Counter :: string
  gl_Value :: RRDData

record GraphInfoResp =
  gf_ConsolFun :: string
  gf_Step :: int
  gf_Filename :: string

section \<open>Agents and nodata\<close>

record AgentReportRequest =
  ar_Hostname :: string
  ar_IP :: string
  ar_AgentVersion :: string
  ar_PluginVersion :: string

record AgentUpdateInfo =
  au_LastUpdate :: int
  au_ReportRequest :: AgentReportRequest

record BuiltinMetric =
  bm_Metric :: string
  bm_Tags :: string

definition BuiltinMetric_String :: "BuiltinMetric \<Rightarrow> string" where
  "BuiltinMetric_String b = bm_Metric b @ ''/'' @ bm_Tags b"

record NodataItem =
  nd_Counter :: string
  nd_Ts :: int
  nd_FStatus :: string
  nd_FTs :: int

record NodataConfig =
  nc_Id :: int
  nc_Name :: string
  nc_ObjType :: string
  nc_Endpoint :: string
  nc_Metric :: string
  nc_Tags :: tags
  nc_Type :: string
  nc_Step :: int
  nc_Mock :: f64

section \<open>Lemmas\<close>

lemma JudgeItem_PrimaryKey_length [simp]: "length (JudgeItem_PrimaryKey t) = 32"
  by (simp add: JudgeItem_PrimaryKey_def length_Md5)

text \<open>An event built for a strategy or an expression never panics in its accessors.\<close>

lemma event_field_Some:
  "ev_Strategy e \<noteq> None \<or> ev_Expression e \<noteq> None \<Longrightarrow> \<exists>v. event_field fs fe e = Some v"
  by (auto simp: event_field_def split: option.splits)

lemma PrimaryKey_PK2: "GraphItem_PrimaryKey t = PK2 (gi_Endpoint t) (Counter (gi_Metric t) (gi_Tags t))"
  by (simp add: GraphItem_PrimaryKey_def PK_Counter)

lemma UUID_PK:
  "UUID e m t d s = PK e m t @ ''/'' @ d @ ''/'' @ Itoa s"
  by (simp add: UUID_def PK_def)

end
