(* ===== verification/Interfaces.thy ===== *)
theory Interfaces
  imports Prelude
begin

text \<open>
  The interfaces the modules share, as locales: a keyed store (the mutex-protected maps of
  every module), its extension with deletion, and a first-in first-out buffer written at the
  front and drained at the back (the \<open>container/list\<close> queues of graph and of the sender
  library).  Each is interpreted in the theory of the component that provides it.  The theory
  also has the grouping idiom \<open>m[key] = append(m[key], x)\<close>.
\<close>

section \<open>Keyed stores\<close>

locale kv_store =
  fixes sget :: "'s \<Rightarrow> 'k \<Rightarrow> 'v option"
    and sput :: "'k \<Rightarrow> 'v \<Rightarrow> 's \<Rightarrow> 's"
    and sinv :: "'s \<Rightarrow> bool"
  assumes get_put: "sinv s \<Longrightarrow> sget (sput k v s) k' = (if k' = k then Some v else sget s k')"
    and inv_put: "sinv s \<Longrightarrow> sinv (sput k v s)"
begin

definition holds :: "('k \<Rightarrow> 'v \<Rightarrow> bool) \<Rightarrow> 's \<Rightarrow> bool" where
  "holds P s \<longleftrightarrow> sinv s \<and> (\<forall>k v. sget s k = Some v \<longrightarrow> P k v)"

lemma holds_put: "holds P s \<Longrightarrow> P k v \<Longrightarrow> holds P (sput k v s)"
  by (auto simp: holds_def get_put inv_put split: if_splits)

lemma holds_get: "holds P s \<Longrightarrow> sget s k = Some v \<Longrightarrow> P k v"
  by (auto simp: holds_def)

lemma inv_puts: "sinv s \<Longrightarrow> sinv (foldl (\<lambda>s (k, v). sput k v s) s kvs)"
  by (induction kvs arbitrary: s) (auto simp: inv_put)

lemma get_puts:
  "sinv s \<Longrightarrow> sget (foldl (\<lambda>s (k, v). sput k v s) s kvs) k =
     (case map_of (rev kvs) k of Some v \<Rightarrow> Some v | None \<Rightarrow> sget s k)"
proof (induction kvs arbitrary: s)
  case Nil
  then show ?case by simp
next
  case (Cons kv kvs)
  obtain k' v where kv: "kv = (k', v)" by force
  from Cons.prems have "sinv (sput k' v s)" by (rule inv_put)
  from Cons.IH [OF this] Cons.prems show ?case
    by (auto simp: kv get_put map_add_def split: option.splits)
qed

end

locale kv_store_del = kv_store sget sput sinv
  for sget :: "'s \<Rightarrow> 'k \<Rightarrow> 'v option" and sput and sinv :: "'s \<Rightarrow> bool" +
  fixes sdel :: "'k \<Rightarrow> 's \<Rightarrow> 's"
  assumes get_del: "sinv s \<Longrightarrow> sget (sdel k s) k' = (if k' = k then None else sget s k')"
    and inv_del: "sinv s \<Longrightarrow> sinv (sdel k s)"
begin

lemma holds_del: "holds P s \<Longrightarrow> holds P (sdel k s)"
  by (auto simp: holds_def get_del inv_del split: if_splits)

lemma inv_dels: "sinv s \<Longrightarrow> sinv (foldl (\<lambda>s k. sdel k s) s ks)"
  by (induction ks arbitrary: s) (auto simp: inv_del)

lemma get_dels:
  "sinv s \<Longrightarrow> sget (foldl (\<lambda>s k. sdel k s) s ks) k = (if k \<in> set ks then None else sget s k)"
  by (induction ks arbitrary: s) (auto simp: inv_del get_del)

lemma holds_dels: "holds P s \<Longrightarrow> holds P (foldl (\<lambda>s k. sdel k s) s ks)"
  by (induction ks arbitrary: s) (auto simp: holds_del)

end

text \<open>A Go map itself is such a store.\<close>

interpretation gm: kv_store_del m_get m_set gomap_ok m_del
  by unfold_locales (auto simp: m_get_set m_get_del)

section \<open>Front-to-back buffers\<close>

text \<open>
  \<open>qabs\<close> is the content, oldest first.  A push adds the newest element; a pop of one element takes the
  oldest.
\<close>

locale fifo_buffer =
  fixes qabs :: "'q \<Rightarrow> 'a list"
    and qpush :: "'a \<Rightarrow> 'q \<Rightarrow> 'q"
    and qpop :: "'q \<Rightarrow> 'a option \<times> 'q"
  assumes abs_push: "qabs (qpush x q) = qabs q @ [x]"
    and pop_empty: "qabs q = [] \<Longrightarrow> qpop q = (None, q)"
    and pop_some: "qabs q = x # xs \<Longrightarrow> \<exists>q'. qpop q = (Some x, q') \<and> qabs q' = xs"
begin

fun pops :: "nat \<Rightarrow> 'q \<Rightarrow> 'a list \<times> 'q" where
  "pops 0 q = ([], q)"
| "pops (Suc n) q =
     (case qpop q of (None, q') \<Rightarrow> ([], q') | (Some x, q') \<Rightarrow> let (xs, r) = pops n q' in (x # xs, r))"

lemma abs_pushes: "qabs (foldl (\<lambda>q x. qpush x q) q xs) = qabs q @ xs"
  by (induction xs arbitrary: q) (auto simp: abs_push)

lemma pops_abs: "fst (pops n q) = take n (qabs q) \<and> qabs (snd (pops n q)) = drop n (qabs q)"
proof (induction n arbitrary: q)
  case 0
  then show ?case by simp
next
  case (Suc n)
  show ?case
  proof (cases "qabs q")
    case Nil
    then show ?thesis by (simp add: pop_empty)
  next
    case (Cons x xs)
    from pop_some [OF this] obtain q' where "qpop q = (Some x, q')" "qabs q' = xs" by blast
    with Suc.IH [of q'] Cons show ?thesis by (simp add: case_prod_beta Let_def)
  qed
qed

lemma push_then_pops:
  assumes "qabs q = []"
  shows "fst (pops (length xs) (foldl (\<lambda>q x. qpush x q) q xs)) = xs"
  using pops_abs assms by (simp add: abs_pushes)

end

section \<open>Grouping\<close>

definition m_append :: "'k \<Rightarrow> 'v \<Rightarrow> ('k, 'v list) gomap \<Rightarrow> ('k, 'v list) gomap" where
  "m_append k x m = (case m_get m k of
     Some xs \<Rightarrow> m_set k (xs @ [x]) m
   | None \<Rightarrow> m_set k [x] m)"

definition group_at :: "('k \<times> 'v) list \<Rightarrow> 'k \<Rightarrow> 'v list" where
  "group_at kxs k = map snd (filter (\<lambda>kx. fst kx = k) kxs)"

lemma gomap_ok_m_append [simp, intro]: "gomap_ok m \<Longrightarrow> gomap_ok (m_append k x m)"
  by (auto simp: m_append_def split: option.splits)

lemma gomap_ok_m_appends [simp, intro]:
  "gomap_ok m \<Longrightarrow> gomap_ok (foldl (\<lambda>m (k, x). m_append k x m) m kxs)"
  by (induction kxs arbitrary: m) auto

lemma m_get_m_append [gomap_simps]:
  "m_get (m_append k x m) k' =
     (if k' = k then Some ((case m_get m k of Some xs \<Rightarrow> xs | None \<Rightarrow> []) @ [x]) else m_get m k')"
  by (auto simp: m_append_def split: option.splits)

lemma m_get_m_appends:
  "m_get (foldl (\<lambda>m (k, x). m_append k x m) m kxs) k' =
     (if group_at kxs k' = [] then m_get m k'
      else Some ((case m_get m k' of Some xs \<Rightarrow> xs | None \<Rightarrow> []) @ group_at kxs k'))"
  by (induction kxs arbitrary: m) (auto simp: m_get_m_append group_at_def split: option.splits)

lemma group_at_iff: "x \<in> set (group_at kxs k) \<longleftrightarrow> (k, x) \<in> set kxs"
  by (force simp: group_at_def)

lemma m_appends_values:
  "(\<exists>k xs x. m_get (foldl (\<lambda>m (k, x). m_append k x m) [] kxs) k = Some xs \<and> x \<in> set xs \<and> P x) \<longleftrightarrow>
     (\<exists>kx \<in> set kxs. P (snd kx))"
proof -
  have "(\<exists>xs. m_get (foldl (\<lambda>m (k, x). m_append k x m) [] kxs) k = Some xs \<and> x \<in> set xs) \<longleftrightarrow>
      (k, x) \<in> set kxs" for k x
    by (cases "group_at kxs k = []") (auto simp: m_get_m_appends simp flip: group_at_iff)
  then show ?thesis by (metis prod.collapse snd_conv)
qed

end
