(* ===== verification/JudgeFunc.thy ===== *)
theory JudgeFunc
  imports CommonModel Interfaces
begin

text \<open>
  \<open>modules/judge/store/linkedlist.go\<close> and \<open>modules/judge/store/func.go\<close>: the bounded history of a
  counter and the eleven judge functions computed on it.  A \<open>SafeLinkedList\<close> is the list of its
  items, front (newest) first.  An index out of range, a \<open>nil\<close> element and \<open>Remove(nil)\<close> are panics.
  The loops of the functions run over their index ranges with checked accesses, so that
  absence of panics is a theorem, not a convention.
\<close>

section \<open>The linked list\<close>

type_synonym SafeLinkedList = "JudgeItem list"

definition SafeLinkedList_ToSlice :: "SafeLinkedList \<Rightarrow> JudgeItem list" where
  "SafeLinkedList_ToSlice L = (if length L = 0 then [] else L)"

definition item_data :: "JudgeItem \<Rightarrow> HistoryData" where
  "item_data t = \<lparr> hd_Timestamp = ji_Timestamp t, hd_Value = ji_Value t \<rparr>"

definition rate_data :: "JudgeItem \<Rightarrow> JudgeItem \<Rightarrow> HistoryData" where
  "rate_data cur nxt =
     (let diffVal = f_sub (ji_Value cur) (ji_Value nxt);
          diffTs = i64 (ji_Timestamp cur - ji_Timestamp nxt)
      in \<lparr> hd_Timestamp = ji_Timestamp cur, hd_Value = f_div diffVal (f_of_int diffTs) \<rparr>)"

text \<open>The two loops: \<open>n\<close> more points are wanted, the rest of the list follows the current element.\<close>

fun gauge_walk :: "int \<Rightarrow> SafeLinkedList \<Rightarrow> HistoryData list go" where
  "gauge_walk n [] = (if n \<le> 0 then Some [] else None)"
| "gauge_walk n (x # xs) =
     (if n \<le> 0 then Some [] else do { vs \<leftarrow> gauge_walk (n - 1) xs; Some (item_data x # vs) })"

fun rate_walk :: "int \<Rightarrow> JudgeItem \<Rightarrow> SafeLinkedList \<Rightarrow> HistoryData list go" where
  "rate_walk n cur [] = (if n \<le> 0 then Some [] else None)"
| "rate_walk n cur (x # xs) =
     (if n \<le> 0 then Some [] else do { vs \<leftarrow> rate_walk (n - 1) x xs; Some (rate_data cur x # vs) })"

definition SafeLinkedList_HistoryData :: "SafeLinkedList \<Rightarrow> int \<Rightarrow> (HistoryData list \<times> bool) go" where
  "SafeLinkedList_HistoryData L limit =
     (if limit < 1 then Some ([], False)
      else let sz = int (length L) in
      case L of
        [] \<Rightarrow> Some ([], False)
      | firstItem # rest \<Rightarrow> do {
          judgeType \<leftarrow> slice_get (ji_JudgeType firstItem) 0;
          if judgeType = CHR ''G'' \<or> judgeType = CHR ''g'' then
            let isEnough = (\<not> sz < limit);
                limit' = (if sz < limit then sz else limit)
            in do { vs \<leftarrow> gauge_walk (limit' - 1) rest;
                    Some (item_data firstItem # vs, isEnough) }
          else
            let isEnough = (\<not> sz < i64 (limit + 1));
                limit' = (if sz < i64 (limit + 1) then sz - 1 else limit)
            in do { vs \<leftarrow> rate_walk limit' firstItem rest; Some (vs, isEnough) } })"

text \<open>\<open>L.Remove(L.Back())\<close>, \<open>del\<close> times; on an empty list \<open>Back\<close> is \<open>nil\<close> and \<open>Remove\<close> panics.\<close>

fun remove_back :: "nat \<Rightarrow> SafeLinkedList \<Rightarrow> SafeLinkedList go" where
  "remove_back 0 L = Some L"
| "remove_back (Suc n) L = (if L = [] then None else remove_back n (butlast L))"

definition SafeLinkedList_PushFrontAndMaintain ::
  "SafeLinkedList \<Rightarrow> JudgeItem \<Rightarrow> int \<Rightarrow> (SafeLinkedList \<times> bool) go" where
  "SafeLinkedList_PushFrontAndMaintain L v maxCount =
     (let sz = int (length L) in
      if sz > 0 \<and> (ji_Timestamp v \<le> ji_Timestamp (hd L) \<or> ji_Timestamp v \<le> 0)
      then Some (L, False)
      else let L' = v # L; sz' = sz + 1 in
        if sz' \<le> maxCount then Some (L', True)
        else do { L'' \<leftarrow> remove_back (nat (sz' - maxCount)) L'; Some (L'', True) })"

section \<open>The judge functions\<close>

datatype Function =
    MaxFunction (fn_Limit: int) (fn_Operator: string) (fn_RightValue: f64)
  | MinFunction (fn_Limit: int) (fn_Operator: string) (fn_RightValue: f64)
  | AllFunction (fn_Limit: int) (fn_Operator: string) (fn_RightValue: f64)
  | LookupFunction (fn_Num: int) (fn_Limit: int) (fn_Operator: string) (fn_RightValue: f64)
  | SumFunction (fn_Limit: int) (fn_Operator: string) (fn_RightValue: f64)
  | AvgFunction (fn_Limit: int) (fn_Operator: string) (fn_RightValue: f64)
  | DiffFunction (fn_Limit: int) (fn_Operator: string) (fn_RightValue: f64)
  | StdDeviationFunction (fn_Limit: int) (fn_Operator: string) (fn_RightValue: f64)
  | PDiffFunction (fn_Limit: int) (fn_Operator: string) (fn_RightValue: f64)
  | KPDiffFunction (fn_Num: int) (fn_Limit: int) (fn_Operator: string) (fn_RightValue: f64)
  | KDiffFunction (fn_Num: int) (fn_Limit: int) (fn_Operator: string) (fn_RightValue: f64)

text \<open>\<open>vs, leftValue, isTriggered, isEnough\<close>; unset results are Go's zero values.\<close>

type_synonym computed = "HistoryData list \<times> f64 \<times> bool \<times> bool"

definition f_ten_thousandth :: f64 where
  "f_ten_thousandth = f_round (1 / 10000)"

definition checkIsTriggered :: "f64 \<Rightarrow> string \<Rightarrow> f64 \<Rightarrow> bool" where
  "checkIsTriggered leftValue op rightValue =
     (if op = ''='' \<or> op = ''=='' then f_lt (f_abs (f_sub leftValue rightValue)) f_ten_thousandth
      else if op = ''!='' then f_gt (f_abs (f_sub leftValue rightValue)) f_ten_thousandth
      else if op = ''<'' then f_lt leftValue rightValue
      else if op = ''<='' then f_le leftValue rightValue
      else if op = ''>'' then f_gt leftValue rightValue
      else if op = ''>='' then f_ge leftValue rightValue
      else False)"

definition val_at :: "HistoryData list \<Rightarrow> int \<Rightarrow> f64 go" where
  "val_at vs i = do { v \<leftarrow> slice_get vs i; Some (hd_Value v) }"

text \<open>The part every function starts with: fetch the history, stop when it is too short.\<close>

definition with_history ::
  "SafeLinkedList \<Rightarrow> int \<Rightarrow> (HistoryData list \<Rightarrow> computed go) \<Rightarrow> computed go" where
  "with_history L limit k = do {
     (vs, isEnough) \<leftarrow> SafeLinkedList_HistoryData L limit;
     if \<not> isEnough then Some (vs, Zero False, False, False) else k vs }"

definition MaxFunction_Compute :: "int \<Rightarrow> string \<Rightarrow> f64 \<Rightarrow> SafeLinkedList \<Rightarrow> computed go" where
  "MaxFunction_Compute limit op rv L = with_history L limit (\<lambda>vs. do {
     v0 \<leftarrow> val_at vs 0;
     m \<leftarrow> foldM (\<lambda>m i. do { v \<leftarrow> val_at vs i; Some (if f_lt m v then v else m) }) v0 [1..limit - 1];
     Some (vs, m, checkIsTriggered m op rv, True) })"

definition MinFunction_Compute :: "int \<Rightarrow> string \<Rightarrow> f64 \<Rightarrow> SafeLinkedList \<Rightarrow> computed go" where
  "MinFunction_Compute limit op rv L = with_history L limit (\<lambda>vs. do {
     v0 \<leftarrow> val_at vs 0;
     m \<leftarrow> foldM (\<lambda>m i. do { v \<leftarrow> val_at vs i; Some (if f_gt m v then v else m) }) v0 [1..limit - 1];
     Some (vs, m, checkIsTriggered m op rv, True) })"

fun all_loop :: "HistoryData list \<Rightarrow> string \<Rightarrow> f64 \<Rightarrow> bool \<Rightarrow> int list \<Rightarrow> bool go" where
  "all_loop vs op rv t [] = Some t"
| "all_loop vs op rv t (i # is) = do {
     v \<leftarrow> val_at vs i;
     if \<not> checkIsTriggered v op rv then Some False else all_loop vs op rv True is }"

definition AllFunction_Compute :: "int \<Rightarrow> string \<Rightarrow> f64 \<Rightarrow> SafeLinkedList \<Rightarrow> computed go" where
  "AllFunction_Compute limit op rv L = with_history L limit (\<lambda>vs. do {
     t \<leftarrow> all_loop vs op rv True [0..limit - 1];
     v0 \<leftarrow> val_at vs 0;
     Some (vs, v0, t, True) })"

fun lookup_loop :: "HistoryData list \<Rightarrow> string \<Rightarrow> f64 \<Rightarrow> int \<Rightarrow> int \<Rightarrow> int list \<Rightarrow> bool go" where
  "lookup_loop vs op rv num n [] = Some False"
| "lookup_loop vs op rv num n (i # is) = do {
     v \<leftarrow> val_at vs i;
     if checkIsTriggered v op rv then
       (if n + 1 = num then Some True else lookup_loop vs op rv num (n + 1) is)
     else lookup_loop vs op rv num n is }"

definition LookupFunction_Compute :: "int \<Rightarrow> int \<Rightarrow> string \<Rightarrow> f64 \<Rightarrow> SafeLinkedList \<Rightarrow> computed go" where
  "LookupFunction_Compute num limit op rv L = with_history L limit (\<lambda>vs. do {
     v0 \<leftarrow> val_at vs 0;
     t \<leftarrow> lookup_loop vs op rv num 0 [0..limit - 1];
     Some (vs, v0, t, True) })"

definition sum_loop :: "HistoryData list \<Rightarrow> int \<Rightarrow> f64 go" where
  "sum_loop vs limit =
     foldM (\<lambda>s i. do { v \<leftarrow> val_at vs i; Some (f_add s v) }) (Zero False) [0..limit - 1]"

definition SumFunction_Compute :: "int \<Rightarrow> string \<Rightarrow> f64 \<Rightarrow> SafeLinkedList \<Rightarrow> computed go" where
  "SumFunction_Compute limit op rv L = with_history L limit (\<lambda>vs. do {
     s \<leftarrow> sum_loop vs limit;
     Some (vs, s, checkIsTriggered s op rv, True) })"

definition AvgFunction_Compute :: "int \<Rightarrow> string \<Rightarrow> f64 \<Rightarrow> SafeLinkedList \<Rightarrow> computed go" where
  "AvgFunction_Compute limit op rv L = with_history L limit (\<lambda>vs. do {
     s \<leftarrow> sum_loop vs limit;
     let leftValue = f_div s (f_of_int limit) in
     Some (vs, leftValue, checkIsTriggered leftValue op rv, True) })"

text \<open>\<open>lv\<close> and \<open>t\<close> are the result variables as the previous iteration left them.\<close>

fun diff_loop ::
  "HistoryData list \<Rightarrow> string \<Rightarrow> f64 \<Rightarrow> f64 \<Rightarrow> f64 \<Rightarrow> bool \<Rightarrow> int list \<Rightarrow> (f64 \<times> bool) go" where
  "diff_loop vs op rv v0 lv t [] = Some (lv, t)"
| "diff_loop vs op rv v0 lv t (i # is) = do {
     v \<leftarrow> val_at vs i;
     let lv' = f_sub v0 v in
     if checkIsTriggered lv' op rv then Some (lv', True)
     else diff_loop vs op rv v0 lv' False is }"

definition DiffFunction_Compute :: "int \<Rightarrow> string \<Rightarrow> f64 \<Rightarrow> SafeLinkedList \<Rightarrow> computed go" where
  "DiffFunction_Compute limit op rv L = with_history L (i64 (limit + 1)) (\<lambda>vs.
     if vs = [] then Some (vs, Zero False, False, False)
     else do {
       v0 \<leftarrow> val_at vs 0;
       (lv, t) \<leftarrow> diff_loop vs op rv v0 (Zero False) False [1..i64 (limit + 1) - 1];
       Some (vs, lv, t, True) })"

definition StdDeviationFunction_Compute :: "int \<Rightarrow> string \<Rightarrow> f64 \<Rightarrow> SafeLinkedList \<Rightarrow> computed go" where
  "StdDeviationFunction_Compute limit op rv L = with_history L limit (\<lambda>vs.
     if vs = [] then Some (vs, Zero False, False, False)
     else do {
       leftValue \<leftarrow> val_at vs 0;
       let datas = map hd_Value vs;
           std = ComputeStdDeviation datas;
           mean = ComputeMean datas;
           upperBound = f_add mean (f_mul rv std);
           lowerBound = f_sub mean (f_mul rv std)
       in Some (vs, leftValue, f_lt leftValue lowerBound \<or> f_gt leftValue upperBound, True) })"

fun pdiff_loop ::
  "HistoryData list \<Rightarrow> string \<Rightarrow> f64 \<Rightarrow> f64 \<Rightarrow> f64 \<Rightarrow> bool \<Rightarrow> int list \<Rightarrow> (f64 \<times> bool) go" where
  "pdiff_loop vs op rv v0 lv t [] = Some (lv, t)"
| "pdiff_loop vs op rv v0 lv t (i # is) = do {
     v \<leftarrow> val_at vs i;
     if f_eq v (Zero False) then pdiff_loop vs op rv v0 lv t is
     else let lv' = f_mul (f_div (f_sub v0 v) v) (f_of_int 100) in
     if checkIsTriggered lv' op rv then Some (lv', True)
     else pdiff_loop vs op rv v0 lv' False is }"

definition PDiffFunction_Compute :: "int \<Rightarrow> string \<Rightarrow> f64 \<Rightarrow> SafeLinkedList \<Rightarrow> computed go" where
  "PDiffFunction_Compute limit op rv L = with_history L (i64 (limit + 1)) (\<lambda>vs.
     if vs = [] then Some (vs, Zero False, False, False)
     else do {
       v0 \<leftarrow> val_at vs 0;
       (lv, t) \<leftarrow> pdiff_loop vs op rv v0 (Zero False) False [1..i64 (limit + 1) - 1];
       Some (vs, lv, t, True) })"

text \<open>
  \<open>kdiff\<close> and \<open>kpdiff\<close> share their loops and differ in the left value: \<open>g vj vo\<close> is the left value of
  the recent point \<open>vj\<close> against the older point \<open>vo\<close>.  The inner loop stops at the first point
  that does not trigger; the outer one tests \<open>vs[i]\<close> against zero, then runs the inner one.
\<close>

fun k_inner ::
  "(f64 \<Rightarrow> f64 \<Rightarrow> f64) \<Rightarrow> HistoryData list \<Rightarrow> string \<Rightarrow> f64 \<Rightarrow> int \<Rightarrow> f64 \<Rightarrow> bool \<Rightarrow> int list
     \<Rightarrow> (f64 \<times> bool) go" where
  "k_inner g vs op rv old lv t [] = Some (lv, t)"
| "k_inner g vs op rv old lv t (j # js) = do {
     vj \<leftarrow> val_at vs j;
     vo \<leftarrow> val_at vs old;
     let lv' = g vj vo in
     if checkIsTriggered lv' op rv then k_inner g vs op rv old lv' True js
     else Some (lv', False) }"

fun k_outer ::
  "(f64 \<Rightarrow> f64 \<Rightarrow> f64) \<Rightarrow> HistoryData list \<Rightarrow> string \<Rightarrow> f64 \<Rightarrow> int \<Rightarrow> int \<Rightarrow> f64 \<Rightarrow> bool \<Rightarrow> int list
     \<Rightarrow> (f64 \<times> bool) go" where
  "k_outer g vs op rv num limit lv t [] = Some (lv, t)"
| "k_outer g vs op rv num limit lv t (i # is) = do {
     vi \<leftarrow> val_at vs i;
     if f_eq vi (Zero False) then Some (lv, False)
     else do {
       (lv', t') \<leftarrow> k_inner g vs op rv (limit + num - 1 - i) lv False [0..limit - 1];
       if \<not> t' then Some (lv', False) else k_outer g vs op rv num limit lv' t' is } }"

definition k_compute ::
  "(f64 \<Rightarrow> f64 \<Rightarrow> f64) \<Rightarrow> int \<Rightarrow> int \<Rightarrow> string \<Rightarrow> f64 \<Rightarrow> SafeLinkedList \<Rightarrow> computed go" where
  "k_compute g num limit op rv L = with_history L (i64 (limit + num)) (\<lambda>vs.
     if vs = [] then Some (vs, Zero False, False, False)
     else do {
       (lv, t) \<leftarrow> k_outer g vs op rv num limit (Zero False) False [0..num - 1];
       Some (vs, lv, t, True) })"

definition KPDiffFunction_Compute :: "int \<Rightarrow> int \<Rightarrow> string \<Rightarrow> f64 \<Rightarrow> SafeLinkedList \<Rightarrow> computed go" where
  "KPDiffFunction_Compute = k_compute (\<lambda>vj vo. f_mul (f_div (f_sub vj vo) vj) (f_of_int 100))"

definition KDiffFunction_Compute :: "int \<Rightarrow> int \<Rightarrow> string \<Rightarrow> f64 \<Rightarrow> SafeLinkedList \<Rightarrow> computed go" where
  "KDiffFunction_Compute = k_compute f_sub"

fun Compute :: "Function \<Rightarrow> SafeLinkedList \<Rightarrow> computed go" where
  "Compute (MaxFunction n op rv) L = MaxFunction_Compute n op rv L"
| "Compute (MinFunction n op rv) L = MinFunction_Compute n op rv L"
| "Compute (AllFunction n op rv) L = AllFunction_Compute n op rv L"
| "Compute (LookupFunction num n op rv) L = LookupFunction_Compute num n op rv L"
| "Compute (SumFunction n op rv) L = SumFunction_Compute n op rv L"
| "Compute (AvgFunction n op rv) L = AvgFunction_Compute n op rv L"
| "Compute (DiffFunction n op rv) L = DiffFunction_Compute n op rv L"
| "Compute (StdDeviationFunction n op rv) L = StdDeviationFunction_Compute n op rv L"
| "Compute (PDiffFunction n op rv) L = PDiffFunction_Compute n op rv L"
| "Compute (KPDiffFunction num n op rv) L = KPDiffFunction_Compute num n op rv L"
| "Compute (KDiffFunction num n op rv) L = KDiffFunction_Compute num n op rv L"

section \<open>Parsing a function\<close>

text \<open>\<open>atois\<close> stops at the first number that does not parse.\<close>

fun atois_loop :: "string list \<Rightarrow> goerror + int list" where
  "atois_loop [] = Inr []"
| "atois_loop (v # vs) =
     (case Atoi v of
        Inl e \<Rightarrow> Inl e
      | Inr n \<Rightarrow> (case atois_loop vs of Inl e \<Rightarrow> Inl e | Inr ns \<Rightarrow> Inr (n # ns)))"

definition atois :: "string \<Rightarrow> goerror + int list" where
  "atois s = atois_loop (str_split comma s)"

definition one_arg :: "(int \<Rightarrow> string \<Rightarrow> f64 \<Rightarrow> Function) \<Rightarrow> int list \<Rightarrow> string \<Rightarrow> f64 \<Rightarrow> (goerror + Function) go"
where
  "one_arg F args op rv = do { n \<leftarrow> slice_get args 0; Some (Inr (F n op rv)) }"

definition two_args ::
  "(int \<Rightarrow> int \<Rightarrow> string \<Rightarrow> f64 \<Rightarrow> Function) \<Rightarrow> int list \<Rightarrow> string \<Rightarrow> f64 \<Rightarrow> (goerror + Function) go" where
  "two_args F args op rv = do {
     a \<leftarrow> slice_get args 0; b \<leftarrow> slice_get args 1; Some (Inr (F a b op rv)) }"

definition func_by_name :: "string \<Rightarrow> int list \<Rightarrow> string \<Rightarrow> f64 \<Rightarrow> (goerror + Function) go" where
  "func_by_name name args op rv =
     (if name = ''max'' then one_arg MaxFunction args op rv
      else if name = ''min'' then one_arg MinFunction args op rv
      else if name = ''all'' then one_arg AllFunction args op rv
      else if name = ''sum'' then one_arg SumFunction args op rv
      else if name = ''avg'' then one_arg AvgFunction args op rv
      else if name = ''diff'' then one_arg DiffFunction args op rv
      else if name = ''pdiff'' then one_arg PDiffFunction args op rv
      else if name = ''lookup'' then two_args LookupFunction args op rv
      else if name = ''stddev'' then one_arg StdDeviationFunction args op rv
      else if name = ''kdiff'' then two_args KDiffFunction args op rv
      else if name = ''kpdiff'' then two_args KPDiffFunction args op rv
      else Some (Inl ''not_supported_method''))"

definition ParseFuncFromString :: "string \<Rightarrow> string \<Rightarrow> f64 \<Rightarrow> (goerror + Function) go" where
  "ParseFuncFromString str op rv =
     (if str = [] then Some (Inl ''func can not be null!'')
      else let idx = str_index str (CHR ''#'') in do {
        inner \<leftarrow> slice_sub str (idx + 1) (int (length str) - 1);
        case atois inner of
          Inl e \<Rightarrow> Some (Inl e)
        | Inr args \<Rightarrow> do {
            name \<leftarrow> slice_sub str 0 (idx - 1);
            func_by_name name args op rv } })"

section \<open>The list: bounded, newest first\<close>

definition stale :: "SafeLinkedList \<Rightarrow> JudgeItem \<Rightarrow> bool" where
  "stale L v \<longleftrightarrow> L \<noteq> [] \<and> (ji_Timestamp v \<le> ji_Timestamp (hd L) \<or> ji_Timestamp v \<le> 0)"

definition newest_first :: "SafeLinkedList \<Rightarrow> bool" where
  "newest_first L \<longleftrightarrow> sorted_wrt (\<lambda>a b. ji_Timestamp b < ji_Timestamp a) L"

lemma remove_back_take:
  "remove_back n L = (if n \<le> length L then Some (take (length L - n) L) else None)"
proof (induction n arbitrary: L)
  case (Suc n)
  then show ?case by (cases L rule: rev_cases) (auto simp: Suc_diff_le)
qed simp

lemma PushFrontAndMaintain_accept:
  assumes "\<not> stale L v" "0 \<le> maxCount"
  shows "SafeLinkedList_PushFrontAndMaintain L v maxCount = Some (take (nat maxCount) (v # L), True)"
  using assms
  by (auto simp: SafeLinkedList_PushFrontAndMaintain_def stale_def remove_back_take Let_def
      nat_diff_distrib' nat_add_distrib)

lemma PushFrontAndMaintain_stale:
  "stale L v \<Longrightarrow> SafeLinkedList_PushFrontAndMaintain L v maxCount = Some (L, False)"
  by (auto simp: SafeLinkedList_PushFrontAndMaintain_def stale_def)

lemma PushFrontAndMaintain_panic:
  "\<not> stale L v \<Longrightarrow> maxCount < 0 \<Longrightarrow> SafeLinkedList_PushFrontAndMaintain L v maxCount = None"
  by (auto simp: SafeLinkedList_PushFrontAndMaintain_def stale_def remove_back_take Let_def
      split: if_splits)

lemma newest_first_Cons: "newest_first L \<Longrightarrow> \<not> stale L v \<Longrightarrow> newest_first (v # L)"
  by (cases L) (fastforce simp: newest_first_def stale_def)+

lemma newest_first_push:
  assumes "newest_first L" "SafeLinkedList_PushFrontAndMaintain L v maxCount = Some (L', need)"
  shows "newest_first L'"
proof (cases "stale L v")
  case True
  with assms show ?thesis by (simp add: PushFrontAndMaintain_stale)
next
  case False
  with assms(2) have "0 \<le> maxCount" using PushFrontAndMaintain_panic by (cases "maxCount < 0") auto
  with False assms show ?thesis
    using newest_first_Cons [OF assms(1) False]
    by (auto simp: PushFrontAndMaintain_accept newest_first_def intro: sorted_wrt_take)
qed

section \<open>What a history returns\<close>

definition is_gauge :: "JudgeItem \<Rightarrow> bool" where
  "is_gauge t \<longleftrightarrow> hd (ji_JudgeType t) = CHR ''G'' \<or> hd (ji_JudgeType t) = CHR ''g''"

text \<open>All the points a list holds: its items for a gauge, the rates of neighbours otherwise.\<close>

definition points :: "SafeLinkedList \<Rightarrow> HistoryData list" where
  "points L =
     (if L = [] then []
      else if is_gauge (hd L) then map item_data L else map2 rate_data L (tl L))"

definition typed :: "SafeLinkedList \<Rightarrow> bool" where
  "typed L \<longleftrightarrow> (L \<noteq> [] \<longrightarrow> ji_JudgeType (hd L) \<noteq> [])"

lemma gauge_walk_take:
  "gauge_walk n xs = (if n \<le> int (length xs) then Some (map item_data (take (nat n) xs)) else None)"
  by (induction n xs rule: gauge_walk.induct)
    (auto simp: take_Cons' nat_diff_distrib' split: option.splits if_splits)

lemma rate_walk_take:
  "rate_walk n cur xs =
     (if n \<le> int (length xs) then Some (take (nat n) (map2 rate_data (cur # xs) xs)) else None)"
  by (induction n cur xs rule: rate_walk.induct)
    (auto simp: take_Cons' nat_diff_distrib' split: option.splits if_splits)

lemma length_points_gauge: "L \<noteq> [] \<Longrightarrow> is_gauge (hd L) \<Longrightarrow> length (points L) = length L"
  by (simp add: points_def)

lemma HistoryData_points:
  assumes "typed L" "1 \<le> limit" "limit < 2 ^ 63 - 1"
  shows "SafeLinkedList_HistoryData L limit =
    Some (take (nat limit) (points L), nat limit \<le> length (points L))"
proof (cases L)
  case Nil
  with assms show ?thesis by (simp add: SafeLinkedList_HistoryData_def points_def)
next
  case (Cons t rest)
  with assms(1) have ty: "slice_get (ji_JudgeType t) 0 = Some (hd (ji_JudgeType t))"
    by (simp add: typed_def)
  have i: "i64 (limit + 1) = limit + 1"
    using assms(2,3) by (intro i64_id) (simp add: int64_range_def)
  show ?thesis
  proof (cases "is_gauge t")
    case True
    then show ?thesis
      using assms(2) Cons ty
      by (auto simp: SafeLinkedList_HistoryData_def points_def is_gauge_def gauge_walk_take Let_def
          take_Cons' take_map nat_diff_distrib' min_def nat_le_iff)
  next
    case False
    then show ?thesis
      using assms(2) Cons ty i
      by (auto simp: SafeLinkedList_HistoryData_def points_def is_gauge_def rate_walk_take Let_def
          nat_le_iff)
  qed
qed

lemma HistoryData_bad_limit: "limit < 1 \<Longrightarrow> SafeLinkedList_HistoryData L limit = Some ([], False)"
  by (simp add: SafeLinkedList_HistoryData_def)

lemma HistoryData_untyped:
  assumes "\<not> typed L" "1 \<le> limit"
  shows "SafeLinkedList_HistoryData L limit = None"
  using assms by (cases L) (auto simp: SafeLinkedList_HistoryData_def typed_def slice_get_def Let_def)

lemma newest_first_points:
  assumes "newest_first L"
  shows "sorted_wrt (\<lambda>a b. hd_Timestamp b < hd_Timestamp a) (points L)"
proof -
  have ts: "map hd_Timestamp (map2 rate_data xs ys) = map ji_Timestamp (take (length ys) xs)" for xs ys
    by (induction xs ys rule: list_induct2') (auto simp: rate_data_def Let_def)
  have "sorted_wrt (\<lambda>x y. y < x) (map ji_Timestamp L)"
    using assms by (simp add: newest_first_def sorted_wrt_map)
  moreover have "map hd_Timestamp (points L) = take (length (points L)) (map ji_Timestamp L)"
  proof (cases "L \<noteq> [] \<and> \<not> is_gauge (hd L)")
    case True
    then have "points L = map2 rate_data L (tl L)" by (simp add: points_def)
    then show ?thesis unfolding \<open>points L = map2 rate_data L (tl L)\<close> ts by (simp add: take_map)
  next
    case False
    then show ?thesis by (auto simp: points_def item_data_def comp_def)
  qed
  ultimately have "sorted_wrt (\<lambda>x y. y < x) (map hd_Timestamp (points L))"
    by (metis sorted_wrt_take)
  then show ?thesis by (simp add: sorted_wrt_map)
qed

section \<open>Loops over index ranges\<close>

definition in_range :: "HistoryData list \<Rightarrow> int list \<Rightarrow> bool" where
  "in_range vs is \<longleftrightarrow> (\<forall>i \<in> set is. 0 \<le> i \<and> i < int (length vs))"

definition vals :: "HistoryData list \<Rightarrow> int list \<Rightarrow> f64 list" where
  "vals vs is = map (\<lambda>i. hd_Value (vs ! nat i)) is"

lemma in_range_Cons [simp]:
  "in_range vs (i # is) \<longleftrightarrow> 0 \<le> i \<and> i < int (length vs) \<and> in_range vs is"
  by (auto simp: in_range_def)

lemma vals_simps [simp]: "vals vs [] = []" "vals vs (i # is) = hd_Value (vs ! nat i) # vals vs is"
  by (simp_all add: vals_def)

lemma val_at_in_range [simp]: "0 \<le> i \<Longrightarrow> i < int (length vs) \<Longrightarrow> val_at vs i = Some (hd_Value (vs ! nat i))"
  by (simp add: val_at_def slice_get_def)

lemma in_range_upto [simp]: "0 \<le> a \<Longrightarrow> n \<le> int (length vs) \<Longrightarrow> in_range vs [a..n - 1]"
  by (auto simp: in_range_def)

lemma vals_upto: "vals vs [int a..int (length vs) - 1] = map hd_Value (drop a vs)"
  by (rule nth_equalityI) (auto simp: vals_def nth_upto nat_add_distrib)

lemma vals_upto_0: "vals vs [0..int (length vs) - 1] = map hd_Value vs"
  using vals_upto [of vs 0] by simp

lemma vals_upto_1: "vals vs [1..int (length vs) - 1] = map hd_Value (tl vs)"
  using vals_upto [of vs 1] by (simp add: drop_Suc)

lemma foldM_vals:
  "in_range vs is \<Longrightarrow>
     foldM (\<lambda>s i. do { v \<leftarrow> val_at vs i; Some (g s v) }) s is = Some (foldl g s (vals vs is))"
  by (induction "is" arbitrary: s) auto

lemma all_loop_vals:
  "in_range vs is \<Longrightarrow> all_loop vs op rv True is = Some (\<forall>v \<in> set (vals vs is). checkIsTriggered v op rv)"
  by (induction "is") auto

lemma lookup_loop_vals:
  "in_range vs is \<Longrightarrow> lookup_loop vs op rv num n is =
     Some (n < num \<and> num \<le> n + int (length (filter (\<lambda>v. checkIsTriggered v op rv) (vals vs is))))"
  by (induction "is" arbitrary: n) auto

text \<open>The first value that triggers, or the last one looked at.\<close>

fun first_trig :: "(f64 \<Rightarrow> bool) \<Rightarrow> f64 \<Rightarrow> f64 list \<Rightarrow> f64 \<times> bool" where
  "first_trig P lv [] = (lv, False)"
| "first_trig P lv (x # xs) = (if P x then (x, True) else first_trig P x xs)"

lemma snd_first_trig: "snd (first_trig P lv xs) \<longleftrightarrow> (\<exists>x \<in> set xs. P x)"
  by (induction xs arbitrary: lv) auto

lemma fst_first_trig: "snd (first_trig P lv xs) \<Longrightarrow> P (fst (first_trig P lv xs))"
  by (induction xs arbitrary: lv) auto

lemma diff_loop_vals:
  "in_range vs is \<Longrightarrow> diff_loop vs op rv v0 lv False is =
     Some (first_trig (\<lambda>x. checkIsTriggered x op rv) lv (map (f_sub v0) (vals vs is)))"
  by (induction "is" arbitrary: lv) (auto simp: Let_def)

definition percent_off :: "f64 \<Rightarrow> f64 \<Rightarrow> f64" where
  "percent_off v0 v = f_mul (f_div (f_sub v0 v) v) (f_of_int 100)"

lemma pdiff_loop_vals:
  "in_range vs is \<Longrightarrow> pdiff_loop vs op rv v0 lv False is =
     Some (first_trig (\<lambda>x. checkIsTriggered x op rv) lv
       (map (percent_off v0) (filter (\<lambda>v. \<not> f_eq v (Zero False)) (vals vs is))))"
  by (induction "is" arbitrary: lv) (auto simp: Let_def percent_off_def)

lemma k_inner_vals:
  assumes "in_range vs is" "0 \<le> old" "old < int (length vs)"
  shows "\<exists>lv'. k_inner g vs op rv old lv t is =
    Some (lv', (is \<noteq> [] \<or> t) \<and> (\<forall>v \<in> set (vals vs is). checkIsTriggered (g v (hd_Value (vs ! nat old))) op rv))"
  using assms(1)
proof (induction "is" arbitrary: lv t)
  case Nil
  then show ?case by simp
next
  case (Cons i "is")
  let ?x = "g (hd_Value (vs ! nat i)) (hd_Value (vs ! nat old))"
  show ?case
  proof (cases "checkIsTriggered ?x op rv")
    case True
    with Cons assms(2,3) show ?thesis
      using Cons.IH [of ?x True] by (auto simp: Let_def)
  next
    case False
    with Cons.prems assms(2,3) show ?thesis by (auto simp: Let_def)
  qed
qed

lemma k_outer_vals:
  assumes "in_range vs is" "\<forall>i \<in> set is. 0 \<le> limit + num - 1 - i \<and> limit + num - 1 - i < int (length vs)"
    and "limit \<le> int (length vs)"
  shows "\<exists>lv'. k_outer g vs op rv num limit lv t is =
    Some (lv', (is \<noteq> [] \<or> t) \<and> (is \<noteq> [] \<longrightarrow> 1 \<le> limit) \<and>
      (\<forall>i \<in> set is. \<not> f_eq (hd_Value (vs ! nat i)) (Zero False) \<and>
         (\<forall>v \<in> set (vals vs [0..limit - 1]).
            checkIsTriggered (g v (hd_Value (vs ! nat (limit + num - 1 - i)))) op rv)))"
  using assms(1,2)
proof (induction "is" arbitrary: lv t)
  case Nil
  then show ?case by simp
next
  case (Cons i "is")
  let ?o = "limit + num - 1 - i"
  let ?all = "\<forall>v \<in> set (vals vs [0..limit - 1]). checkIsTriggered (g v (hd_Value (vs ! nat ?o))) op rv"
  from Cons.prems assms(3) obtain lv' where
    inner: "k_inner g vs op rv ?o lv False [0..limit - 1] = Some (lv', 1 \<le> limit \<and> ?all)"
    using k_inner_vals [of vs "[0..limit - 1]" ?o g op rv lv False] by (auto simp: not_less)
  show ?case
  proof (cases "f_eq (hd_Value (vs ! nat i)) (Zero False) \<or> \<not> (1 \<le> limit \<and> ?all)")
    case True
    with Cons.prems inner show ?thesis by auto
  next
    case False
    with Cons.prems inner Cons.IH [of lv' True] show ?thesis by auto
  qed
qed

section \<open>What the functions compute\<close>

text \<open>
  The contract of \<open>Compute\<close>: how many points a function needs, its left value and whether it
  triggers, as conditions on the values of these points, newest first.
\<close>

fun need :: "Function \<Rightarrow> int" where
  "need (MaxFunction n op rv) = n"
| "need (MinFunction n op rv) = n"
| "need (AllFunction n op rv) = n"
| "need (LookupFunction num n op rv) = n"
| "need (SumFunction n op rv) = n"
| "need (AvgFunction n op rv) = n"
| "need (DiffFunction n op rv) = n + 1"
| "need (StdDeviationFunction n op rv) = n"
| "need (PDiffFunction n op rv) = n + 1"
| "need (KPDiffFunction num n op rv) = n + num"
| "need (KDiffFunction num n op rv) = n + num"

definition f_max_list :: "f64 list \<Rightarrow> f64" where
  "f_max_list xs = foldl (\<lambda>m v. if f_lt m v then v else m) (hd xs) (tl xs)"

definition f_min_list :: "f64 list \<Rightarrow> f64" where
  "f_min_list xs = foldl (\<lambda>m v. if f_gt m v then v else m) (hd xs) (tl xs)"

definition value_diffs :: "f64 list \<Rightarrow> f64 list" where
  "value_diffs xs = map (f_sub (hd xs)) (tl xs)"

definition pdiffs :: "f64 list \<Rightarrow> f64 list" where
  "pdiffs xs = map (percent_off (hd xs)) (filter (\<lambda>v. \<not> f_eq v (Zero False)) (tl xs))"

definition outlier :: "f64 \<Rightarrow> f64 list \<Rightarrow> bool" where
  "outlier rv xs \<longleftrightarrow>
     f_lt (hd xs) (f_sub (ComputeMean xs) (f_mul rv (ComputeStdDeviation xs)))
     \<or> f_gt (hd xs) (f_add (ComputeMean xs) (f_mul rv (ComputeStdDeviation xs)))"

text \<open>
  Every one of the \<open>limit\<close> newest points against every one of the \<open>num\<close> older ones, provided
  that none of the \<open>num\<close> newest values is zero.
\<close>

definition shifted :: "(f64 \<Rightarrow> f64 \<Rightarrow> f64) \<Rightarrow> int \<Rightarrow> int \<Rightarrow> (f64 \<Rightarrow> bool) \<Rightarrow> f64 list \<Rightarrow> bool" where
  "shifted g num limit P xs \<longleftrightarrow> 1 \<le> num \<and> 1 \<le> limit
     \<and> (\<forall>v \<in> set (take (nat num) xs). \<not> f_eq v (Zero False))
     \<and> (\<forall>new \<in> set (take (nat limit) xs). \<forall>old \<in> set (drop (nat limit) xs). P (g new old))"

fun left_of :: "Function \<Rightarrow> f64 list \<Rightarrow> f64" where
  "left_of (MaxFunction n op rv) xs = f_max_list xs"
| "left_of (MinFunction n op rv) xs = f_min_list xs"
| "left_of (SumFunction n op rv) xs = foldl f_add (Zero False) xs"
| "left_of (AvgFunction n op rv) xs = ComputeMean xs"
| "left_of (DiffFunction n op rv) xs =
     fst (first_trig (\<lambda>x. checkIsTriggered x op rv) (Zero False) (value_diffs xs))"
| "left_of (PDiffFunction n op rv) xs =
     fst (first_trig (\<lambda>x. checkIsTriggered x op rv) (Zero False) (pdiffs xs))"
| "left_of _ xs = hd xs"

fun triggers :: "Function \<Rightarrow> f64 list \<Rightarrow> bool" where
  "triggers (MaxFunction n op rv) xs = checkIsTriggered (f_max_list xs) op rv"
| "triggers (MinFunction n op rv) xs = checkIsTriggered (f_min_list xs) op rv"
| "triggers (AllFunction n op rv) xs = (\<forall>x \<in> set xs. checkIsTriggered x op rv)"
| "triggers (LookupFunction num n op rv) xs =
     (1 \<le> num \<and> num \<le> int (length (filter (\<lambda>x. checkIsTriggered x op rv) xs)))"
| "triggers (SumFunction n op rv) xs = checkIsTriggered (foldl f_add (Zero False) xs) op rv"
| "triggers (AvgFunction n op rv) xs = checkIsTriggered (ComputeMean xs) op rv"
| "triggers (DiffFunction n op rv) xs = (\<exists>d \<in> set (value_diffs xs). checkIsTriggered d op rv)"
| "triggers (StdDeviationFunction n op rv) xs = outlier rv xs"
| "triggers (PDiffFunction n op rv) xs = (\<exists>d \<in> set (pdiffs xs). checkIsTriggered d op rv)"
| "triggers (KPDiffFunction num n op rv) xs =
     shifted (\<lambda>vj vo. f_mul (f_div (f_sub vj vo) vj) (f_of_int 100)) num n
       (\<lambda>x. checkIsTriggered x op rv) xs"
| "triggers (KDiffFunction num n op rv) xs =
     shifted f_sub num n (\<lambda>x. checkIsTriggered x op rv) xs"

definition is_shift :: "Function \<Rightarrow> bool" where
  "is_shift f \<longleftrightarrow> (case f of KPDiffFunction _ _ _ _ \<Rightarrow> True | KDiffFunction _ _ _ _ \<Rightarrow> True | _ \<Rightarrow> False)"

text \<open>The number of points fits an \<open>int\<close> with room for the extra neighbour of a rate.\<close>

definition func_ok :: "Function \<Rightarrow> bool" where
  "func_ok f \<longleftrightarrow> - (2 ^ 63) \<le> need f \<and> need f < 2 ^ 63 - 1"

definition enough :: "Function \<Rightarrow> SafeLinkedList \<Rightarrow> bool" where
  "enough f L \<longleftrightarrow> 1 \<le> need f \<and> need f \<le> int (length (points L))"

definition window :: "Function \<Rightarrow> SafeLinkedList \<Rightarrow> HistoryData list" where
  "window f L = take (nat (need f)) (points L)"

lemma with_history_short:
  assumes "typed L" "n < 2 ^ 63 - 1" "\<not> (1 \<le> n \<and> n \<le> int (length (points L)))"
  shows "with_history L n k = Some (take (nat n) (points L), Zero False, False, False)"
  using assms HistoryData_points [of L n] HistoryData_bad_limit [of n L]
  by (cases "1 \<le> n") (auto simp: with_history_def nat_le_iff)

lemma with_history_enough:
  assumes "typed L" "n < 2 ^ 63 - 1" "1 \<le> n" "n \<le> int (length (points L))"
  shows "with_history L n k = k (take (nat n) (points L))"
  using assms HistoryData_points [of L n] by (simp add: with_history_def nat_le_iff)

lemma i64_need: "func_ok f \<Longrightarrow> i64 (need f) = need f"
  by (simp add: func_ok_def i64_id int64_range_def)

lemmas compute_defs =
  MaxFunction_Compute_def MinFunction_Compute_def AllFunction_Compute_def LookupFunction_Compute_def
  SumFunction_Compute_def AvgFunction_Compute_def DiffFunction_Compute_def
  StdDeviationFunction_Compute_def PDiffFunction_Compute_def KPDiffFunction_Compute_def
  KDiffFunction_Compute_def k_compute_def

lemma Compute_short:
  assumes "typed L" "func_ok f" "\<not> enough f L"
  shows "Compute f L = Some (window f L, Zero False, False, False)"
  using assms i64_need [OF assms(2)]
  by (cases f) (auto simp: compute_defs window_def enough_def func_ok_def intro!: with_history_short)

lemma vals_take: "vals vs [0..n - 1] = map hd_Value (take (nat n) vs)" if "n \<le> int (length vs)"
proof -
  from that have "nat n \<le> length vs" by simp
  then show ?thesis by (intro nth_equalityI) (auto simp: vals_def nth_upto min_def)
qed

lemma set_old_vals:
  assumes "limit + num = int (length vs)" "0 \<le> limit" "0 \<le> num"
  shows "(\<lambda>i. hd_Value (vs ! nat (limit + num - 1 - i))) ` set [0..num - 1] =
    set (map hd_Value (drop (nat limit) vs))"
proof -
  have "(\<lambda>i. nat (limit + num - 1 - i)) ` {0..num - 1} = {nat limit..<length vs}" (is "?l = ?r")
  proof
    show "?l \<subseteq> ?r" using assms by auto
    have "\<exists>i \<in> {0..num - 1}. k = nat (limit + num - 1 - i)" if "k \<in> ?r" for k
      using that assms by (intro bexI [of _ "limit + num - 1 - int k"]) auto
    then show "?r \<subseteq> ?l" by blast
  qed
  moreover have "drop (nat limit) vs = map ((!) vs) [nat limit..<length vs]"
    by (rule nth_equalityI) auto
  ultimately have "set (map hd_Value (drop (nat limit) vs)) =
    (\<lambda>k. hd_Value (vs ! k)) ` (\<lambda>i. nat (limit + num - 1 - i)) ` {0..num - 1}"
    by (simp add: image_image)
  then show ?thesis by (simp add: image_image)
qed

lemma k_outer_shifted:
  assumes len: "limit + num = int (length vs)" and "1 \<le> limit + num"
  shows "\<exists>lv. k_outer g vs op rv num limit (Zero False) False [0..num - 1] =
    Some (lv, shifted g num limit (\<lambda>x. checkIsTriggered x op rv) (map hd_Value vs))"
proof (cases "1 \<le> num \<and> 1 \<le> limit")
  case False
  then consider "num < 1" | "1 \<le> num" "limit < 1" by linarith
  then show ?thesis
  proof cases
    case 1
    then show ?thesis by (simp add: shifted_def)
  next
    case 2
    then have "[0..num - 1] = 0 # [1..num - 1]" by (simp add: upto_rec1)
    moreover have "val_at vs 0 = Some (hd_Value (vs ! 0))" using assms by (cases vs) auto
    ultimately show ?thesis using 2 by (simp add: shifted_def)
  qed
next
  case True
  let ?P = "\<lambda>x. checkIsTriggered x op rv"
  obtain lv where lv: "k_outer g vs op rv num limit (Zero False) False [0..num - 1] =
    Some (lv, \<forall>i \<in> set [0..num - 1]. \<not> f_eq (hd_Value (vs ! nat i)) (Zero False) \<and>
      (\<forall>v \<in> set (vals vs [0..limit - 1]). ?P (g v (hd_Value (vs ! nat (limit + num - 1 - i))))))"
    using k_outer_vals [of vs "[0..num - 1]" limit num g op rv "Zero False" False] True assms by auto
  moreover have "(\<forall>i \<in> set [0..num - 1]. \<not> f_eq (hd_Value (vs ! nat i)) (Zero False)) \<longleftrightarrow>
    (\<forall>v \<in> set (take (nat num) (map hd_Value vs)). \<not> f_eq v (Zero False))"
    using vals_take [of num vs] True len by (simp add: take_map vals_def flip: vals_take)
  moreover have "(\<forall>i \<in> set [0..num - 1]. \<forall>v \<in> set (vals vs [0..limit - 1]).
      ?P (g v (hd_Value (vs ! nat (limit + num - 1 - i))))) \<longleftrightarrow>
    (\<forall>v \<in> set (take (nat limit) (map hd_Value vs)). \<forall>old \<in> set (drop (nat limit) (map hd_Value vs)).
       ?P (g v old))"
  proof -
    have new: "set (take (nat limit) (map hd_Value vs)) = set (vals vs [0..limit - 1])"
      using vals_take [of limit vs] True len by (simp add: take_map)
    have old: "set (drop (nat limit) (map hd_Value vs)) =
      (\<lambda>i. hd_Value (vs ! nat (limit + num - 1 - i))) ` set [0..num - 1]"
      using set_old_vals [OF len] True by (simp add: drop_map)
    show ?thesis unfolding new old by blast
  qed
  ultimately show ?thesis using True by (simp add: shifted_def ball_conj_distrib)
qed

lemma Compute_shifted:
  assumes "typed L" "- (2 ^ 63) \<le> limit + num" "limit + num < 2 ^ 63 - 1"
    and "1 \<le> limit + num" "limit + num \<le> int (length (points L))"
  shows "\<exists>lv. k_compute g num limit op rv L =
    Some (take (nat (limit + num)) (points L), lv,
      shifted g num limit (\<lambda>x. checkIsTriggered x op rv)
        (map hd_Value (take (nat (limit + num)) (points L))), True)"
proof -
  let ?vs = "take (nat (limit + num)) (points L)"
  have "i64 (limit + num) = limit + num" using assms(2,3) by (simp add: i64_id int64_range_def)
  moreover have "limit + num = int (length ?vs)" using assms(4,5) by simp
  from k_outer_shifted [OF this assms(4), of g op rv] obtain lv where
    "k_outer g ?vs op rv num limit (Zero False) False [0..num - 1] =
      Some (lv, shifted g num limit (\<lambda>x. checkIsTriggered x op rv) (map hd_Value ?vs))" by blast
  moreover have "?vs \<noteq> []" using assms(4,5) by auto
  ultimately show ?thesis using assms by (auto simp: k_compute_def with_history_enough)
qed

text \<open>The bodies of the other functions, on the points \<open>vs\<close> that \<open>with_history\<close> hands them.\<close>

lemma compute_bodies:
  assumes n: "n = int (length vs)" and ne: "vs \<noteq> []" and wh: "\<And>h. with_history L n h = h vs"
  shows "MaxFunction_Compute n op rv L =
      Some (vs, f_max_list (map hd_Value vs), checkIsTriggered (f_max_list (map hd_Value vs)) op rv, True)"
    and "MinFunction_Compute n op rv L =
      Some (vs, f_min_list (map hd_Value vs), checkIsTriggered (f_min_list (map hd_Value vs)) op rv, True)"
    and "AllFunction_Compute n op rv L =
      Some (vs, hd (map hd_Value vs), \<forall>x \<in> set (map hd_Value vs). checkIsTriggered x op rv, True)"
    and "LookupFunction_Compute num n op rv L =
      Some (vs, hd (map hd_Value vs), 1 \<le> num \<and>
        num \<le> int (length (filter (\<lambda>x. checkIsTriggered x op rv) (map hd_Value vs))), True)"
    and "SumFunction_Compute n op rv L =
      (let s = foldl f_add (Zero False) (map hd_Value vs) in Some (vs, s, checkIsTriggered s op rv, True))"
    and "AvgFunction_Compute n op rv L =
      (let m = ComputeMean (map hd_Value vs) in Some (vs, m, checkIsTriggered m op rv, True))"
    and "StdDeviationFunction_Compute n op rv L =
      Some (vs, hd (map hd_Value vs), outlier rv (map hd_Value vs), True)"
proof -
  have v0: "val_at vs 0 = Some (hd (map hd_Value vs))" using ne by (cases vs) auto
  have r: "in_range vs [0..n - 1]" "in_range vs [1..n - 1]" by (simp_all add: n)
  have v: "vals vs [0..n - 1] = map hd_Value vs" "vals vs [1..n - 1] = tl (map hd_Value vs)"
    by (simp_all add: n vals_upto_0 vals_upto_1 map_tl)
  note loops = foldM_vals [OF r(1)] foldM_vals [OF r(2)] all_loop_vals [OF r(1)] lookup_loop_vals [OF r(1)]
  show "MaxFunction_Compute n op rv L =
      Some (vs, f_max_list (map hd_Value vs), checkIsTriggered (f_max_list (map hd_Value vs)) op rv, True)"
    by (simp add: MaxFunction_Compute_def wh v0 loops v f_max_list_def)
  show "MinFunction_Compute n op rv L =
      Some (vs, f_min_list (map hd_Value vs), checkIsTriggered (f_min_list (map hd_Value vs)) op rv, True)"
    by (simp add: MinFunction_Compute_def wh v0 loops v f_min_list_def)
  show "AllFunction_Compute n op rv L =
      Some (vs, hd (map hd_Value vs), \<forall>x \<in> set (map hd_Value vs). checkIsTriggered x op rv, True)"
    by (simp add: AllFunction_Compute_def wh v0 loops v)
  show "LookupFunction_Compute num n op rv L =
      Some (vs, hd (map hd_Value vs), 1 \<le> num \<and>
        num \<le> int (length (filter (\<lambda>x. checkIsTriggered x op rv) (map hd_Value vs))), True)"
    by (auto simp add: LookupFunction_Compute_def wh v0 loops v)
  show "SumFunction_Compute n op rv L =
      (let s = foldl f_add (Zero False) (map hd_Value vs) in Some (vs, s, checkIsTriggered s op rv, True))"
    by (simp add: SumFunction_Compute_def sum_loop_def wh loops v Let_def)
  show "AvgFunction_Compute n op rv L =
      (let m = ComputeMean (map hd_Value vs) in Some (vs, m, checkIsTriggered m op rv, True))"
    by (simp add: AvgFunction_Compute_def sum_loop_def wh loops v ComputeMean_def Let_def flip: n)
  show "StdDeviationFunction_Compute n op rv L =
      Some (vs, hd (map hd_Value vs), outlier rv (map hd_Value vs), True)"
    by (simp add: StdDeviationFunction_Compute_def wh ne v0 outlier_def Let_def)
qed

lemma diff_bodies:
  assumes n: "i64 (n + 1) = int (length vs)" and ne: "vs \<noteq> []"
    and wh: "\<And>h. with_history L (i64 (n + 1)) h = h vs"
  shows "DiffFunction_Compute n op rv L =
      (let r = first_trig (\<lambda>x. checkIsTriggered x op rv) (Zero False) (value_diffs (map hd_Value vs))
       in Some (vs, fst r, snd r, True))"
    and "PDiffFunction_Compute n op rv L =
      (let r = first_trig (\<lambda>x. checkIsTriggered x op rv) (Zero False) (pdiffs (map hd_Value vs))
       in Some (vs, fst r, snd r, True))"
proof -
  have v0: "val_at vs 0 = Some (hd (map hd_Value vs))" using ne by (cases vs) auto
  have r: "in_range vs [1..i64 (n + 1) - 1]" by (simp add: n)
  have v: "vals vs [1..i64 (n + 1) - 1] = tl (map hd_Value vs)" by (simp add: n vals_upto_1 map_tl)
  show "DiffFunction_Compute n op rv L =
      (let r = first_trig (\<lambda>x. checkIsTriggered x op rv) (Zero False) (value_diffs (map hd_Value vs))
       in Some (vs, fst r, snd r, True))"
    by (simp add: DiffFunction_Compute_def wh ne v0 diff_loop_vals [OF r] v value_diffs_def Let_def case_prod_beta)
  show "PDiffFunction_Compute n op rv L =
      (let r = first_trig (\<lambda>x. checkIsTriggered x op rv) (Zero False) (pdiffs (map hd_Value vs))
       in Some (vs, fst r, snd r, True))"
    by (simp add: PDiffFunction_Compute_def wh ne v0 pdiff_loop_vals [OF r] v pdiffs_def Let_def case_prod_beta)
qed

lemma Compute_enough:
  assumes "typed L" "func_ok f" "enough f L"
  shows "\<exists>lv. Compute f L = Some (window f L, lv, triggers f (map hd_Value (window f L)), True)
    \<and> (is_shift f \<or> lv = left_of f (map hd_Value (window f L)))"
proof -
  define vs where "vs = window f L"
  have k: "1 \<le> need f" "need f \<le> int (length (points L))" "need f < 2 ^ 63 - 1" "- (2 ^ 63) \<le> need f"
    using assms by (auto simp: enough_def func_ok_def)
  then have len: "need f = int (length vs)" and ne: "vs \<noteq> []" by (auto simp: vs_def window_def)
  have wh: "with_history L (need f) h = h vs" for h
    using with_history_enough [OF assms(1) k(3,1,2)] by (simp add: vs_def window_def)
  note i = i64_need [OF assms(2)]
  have "\<exists>lv. Compute f L = Some (vs, lv, triggers f (map hd_Value vs), True)
    \<and> (is_shift f \<or> lv = left_of f (map hd_Value vs))"
  proof (cases f)
    case (DiffFunction n op rv)
    then have e: "i64 (n + 1) = need f" using i by simp
    have "i64 (n + 1) = int (length vs)" "\<And>h. with_history L (i64 (n + 1)) h = h vs"
      unfolding e by (rule len, rule wh)
    from diff_bodies(1) [OF this(1) ne this(2)] DiffFunction show ?thesis
      by (simp add: Let_def snd_first_trig)
  next
    case (PDiffFunction n op rv)
    then have e: "i64 (n + 1) = need f" using i by simp
    have "i64 (n + 1) = int (length vs)" "\<And>h. with_history L (i64 (n + 1)) h = h vs"
      unfolding e by (rule len, rule wh)
    from diff_bodies(2) [OF this(1) ne this(2)] PDiffFunction show ?thesis
      by (simp add: Let_def snd_first_trig)
  next
    case (KPDiffFunction num n op rv)
    then show ?thesis
      using assms(1) k Compute_shifted [of L n num]
      by (simp add: is_shift_def vs_def window_def KPDiffFunction_Compute_def)
  next
    case (KDiffFunction num n op rv)
    then show ?thesis
      using assms(1) k Compute_shifted [of L n num]
      by (simp add: is_shift_def vs_def window_def KDiffFunction_Compute_def)
  qed (use compute_bodies [OF len ne wh] in \<open>simp_all add: is_shift_def Let_def\<close>)
  then show ?thesis by (simp only: vs_def)
qed

section \<open>Maximum, minimum and NaN\<close>

lemma foldl_max:
  assumes "m \<noteq> NaN" "\<forall>x \<in> set xs. x \<noteq> NaN"
  defines "r \<equiv> foldl (\<lambda>m v. if f_lt m v then v else m) m xs"
  shows "r \<in> insert m (set xs) \<and> f_le m r \<and> (\<forall>x \<in> set xs. f_le x r)"
  using assms(1,2) unfolding r_def
proof (induction xs arbitrary: m)
  case Nil
  then show ?case by (simp add: f_le_refl)
next
  case (Cons a xs)
  let ?m = "if f_lt m a then a else m"
  have le: "f_le m ?m" "f_le a ?m" "?m \<noteq> NaN"
    using Cons.prems by (auto simp: f_le_refl f_lt_imp_le f_not_lt)
  from Cons.IH [of ?m] Cons.prems le(3) have
    "foldl (\<lambda>m v. if f_lt m v then v else m) ?m xs \<in> insert ?m (set xs)"
    "f_le ?m (foldl (\<lambda>m v. if f_lt m v then v else m) ?m xs)"
    "\<forall>x \<in> set xs. f_le x (foldl (\<lambda>m v. if f_lt m v then v else m) ?m xs)" by auto
  with le(1,2) show ?case by (auto intro: f_le_trans split: if_splits)
qed

lemma foldl_min:
  assumes "m \<noteq> NaN" "\<forall>x \<in> set xs. x \<noteq> NaN"
  defines "r \<equiv> foldl (\<lambda>m v. if f_gt m v then v else m) m xs"
  shows "r \<in> insert m (set xs) \<and> f_le r m \<and> (\<forall>x \<in> set xs. f_le r x)"
  using assms(1,2) unfolding r_def
proof (induction xs arbitrary: m)
  case Nil
  then show ?case by (simp add: f_le_refl)
next
  case (Cons a xs)
  let ?m = "if f_gt m a then a else m"
  have le: "f_le ?m m" "f_le ?m a" "?m \<noteq> NaN"
    using Cons.prems by (auto simp: f_gt_def f_le_refl f_lt_imp_le f_not_lt)
  from Cons.IH [of ?m] Cons.prems le(3) have
    "foldl (\<lambda>m v. if f_gt m v then v else m) ?m xs \<in> insert ?m (set xs)"
    "f_le (foldl (\<lambda>m v. if f_gt m v then v else m) ?m xs) ?m"
    "\<forall>x \<in> set xs. f_le (foldl (\<lambda>m v. if f_gt m v then v else m) ?m xs) x" by auto
  with le(1,2) show ?case by (auto intro: f_le_trans split: if_splits)
qed

lemma f_max_list_greatest:
  assumes "xs \<noteq> []" "NaN \<notin> set xs"
  shows "f_max_list xs \<in> set xs" "x \<in> set xs \<Longrightarrow> f_le x (f_max_list xs)"
  using foldl_max [of "hd xs" "tl xs"] assms by (cases xs; auto simp: f_max_list_def)+

lemma f_min_list_least:
  assumes "xs \<noteq> []" "NaN \<notin> set xs"
  shows "f_min_list xs \<in> set xs" "x \<in> set xs \<Longrightarrow> f_le (f_min_list xs) x"
  using foldl_min [of "hd xs" "tl xs"] assms by (cases xs; auto simp: f_min_list_def)+

lemma checkIsTriggered_NaN [simp]: "\<not> checkIsTriggered NaN op rv"
  by (simp add: checkIsTriggered_def f_sub_def f_gt_def f_ge_def)

section \<open>Counter rates are numbers\<close>

definition timed :: "SafeLinkedList \<Rightarrow> bool" where
  "timed L \<longleftrightarrow> (\<forall>t \<in> set L. 0 \<le> ji_Timestamp t \<and> ji_Timestamp t < 2 ^ 53)"

lemma f_div_Num_not_nan: "a \<noteq> NaN \<Longrightarrow> f_div a (Num q) \<noteq> NaN"
  by (cases a) auto

lemma f_sub_finite_not_nan: "finite_f64 a \<Longrightarrow> finite_f64 b \<Longrightarrow> f_sub a b \<noteq> NaN"
  by (cases a; cases b) (auto simp: f_sub_def finite_f64_def is_nan_def is_inf_def)

lemma rate_data_divisor:
  assumes "ji_Timestamp b < ji_Timestamp a" "0 \<le> ji_Timestamp b" "ji_Timestamp a < 2 ^ 53"
  shows "f_of_int (i64 (ji_Timestamp a - ji_Timestamp b)) = Num (of_int (ji_Timestamp a - ji_Timestamp b))"
proof -
  have "int64_range (ji_Timestamp a - ji_Timestamp b)" using assms by (simp add: int64_range_def)
  then have "i64 (ji_Timestamp a - ji_Timestamp b) = ji_Timestamp a - ji_Timestamp b" by (rule i64_id)
  then show ?thesis
    using assms by (simp only:) (intro f_of_int_exact, auto)
qed

lemma points_not_nan:
  assumes "newest_first L" "timed L" "\<forall>t \<in> set L. finite_f64 (ji_Value t)" "p \<in> set (points L)"
  shows "hd_Value p \<noteq> NaN"
proof (cases "L \<noteq> [] \<and> \<not> is_gauge (hd L)")
  case False
  with assms(3,4) show ?thesis
    by (auto simp: points_def item_data_def finite_f64_def is_nan_def split: if_splits)
next
  case True
  with assms(4) obtain a b where ab: "(a, b) \<in> set (zip L (tl L))" "p = rate_data a b"
    by (auto simp: points_def)
  then obtain i where i: "Suc i < length L" "a = L ! i" "b = L ! Suc i"
    by (auto simp: set_zip nth_tl less_diff_conv)
  then have "a \<in> set L" "b \<in> set L" by auto
  moreover have "ji_Timestamp b < ji_Timestamp a"
    using assms(1) i by (simp add: newest_first_def sorted_wrt_iff_nth_less)
  ultimately have "hd_Value p =
    f_div (f_sub (ji_Value a) (ji_Value b)) (Num (of_int (ji_Timestamp a - ji_Timestamp b)))"
    using assms(2) rate_data_divisor [of b a] by (auto simp: ab(2) rate_data_def timed_def)
  with assms(3) \<open>a \<in> set L\<close> \<open>b \<in> set L\<close> show ?thesis
    by (simp add: f_div_Num_not_nan f_sub_finite_not_nan)
qed

section \<open>The textual form of a function\<close>

fun func_text :: "Function \<Rightarrow> string" where
  "func_text (MaxFunction n op rv) = ''max(#'' @ Itoa n @ '')''"
| "func_text (MinFunction n op rv) = ''min(#'' @ Itoa n @ '')''"
| "func_text (AllFunction n op rv) = ''all(#'' @ Itoa n @ '')''"
| "func_text (LookupFunction num n op rv) = ''lookup(#'' @ Itoa num @ '','' @ Itoa n @ '')''"
| "func_text (SumFunction n op rv) = ''sum(#'' @ Itoa n @ '')''"
| "func_text (AvgFunction n op rv) = ''avg(#'' @ Itoa n @ '')''"
| "func_text (DiffFunction n op rv) = ''diff(#'' @ Itoa n @ '')''"
| "func_text (StdDeviationFunction n op rv) = ''stddev(#'' @ Itoa n @ '')''"
| "func_text (PDiffFunction n op rv) = ''pdiff(#'' @ Itoa n @ '')''"
| "func_text (KPDiffFunction num n op rv) = ''kpdiff(#'' @ Itoa num @ '','' @ Itoa n @ '')''"
| "func_text (KDiffFunction num n op rv) = ''kdiff(#'' @ Itoa num @ '','' @ Itoa n @ '')''"

fun func_ints :: "Function \<Rightarrow> int list" where
  "func_ints (LookupFunction num n op rv) = [num, n]"
| "func_ints (KPDiffFunction num n op rv) = [num, n]"
| "func_ints (KDiffFunction num n op rv) = [num, n]"
| "func_ints f = [fn_Limit f]"

lemma atois_one: "int64_range n \<Longrightarrow> atois (Itoa n) = Inr [n]"
  by (simp add: atois_def str_split_free Itoa_notin ParseInt_Itoa int64_range_def)

lemma atois_two: "int64_range a \<Longrightarrow> int64_range b \<Longrightarrow> atois (Itoa a @ comma # Itoa b) = Inr [a, b]"
  by (simp add: atois_def str_split_append str_split_free Itoa_notin ParseInt_Itoa int64_range_def)

text \<open>What the parser cuts out of \<open>name(#inner)\<close>.\<close>

lemma func_slices:
  assumes "CHR ''#'' \<notin> set name" and s_def: "s = name @ ''(#'' @ inner @ '')''"
  shows "s \<noteq> []" "str_index s (CHR ''#'') = int (length name) + 1"
    "slice_sub s (str_index s (CHR ''#'') + 1) (int (length s) - 1) = Some inner"
    "slice_sub s 0 (str_index s (CHR ''#'') - 1) = Some name"
proof -
  have s: "s = (name @ ''('') @ CHR ''#'' # inner @ '')''" by (simp add: s_def)
  show "s \<noteq> []" by (simp add: s)
  show idx: "str_index s (CHR ''#'') = int (length name) + 1"
    unfolding s by (subst str_index_append) (use assms in auto)
  show "slice_sub s (str_index s (CHR ''#'') + 1) (int (length s) - 1) = Some inner"
    unfolding idx by (simp add: slice_sub_def s nat_add_distrib)
  show "slice_sub s 0 (str_index s (CHR ''#'') - 1) = Some name"
    unfolding idx by (simp add: slice_sub_def s)
qed

lemma Parse_text:
  assumes "CHR ''#'' \<notin> set name"
  shows "ParseFuncFromString (name @ ''(#'' @ inner @ '')'') op rv =
    (case atois inner of Inl e \<Rightarrow> Some (Inl e) | Inr args \<Rightarrow> func_by_name name args op rv)"
  unfolding ParseFuncFromString_def Let_def func_slices(3,4) [OF assms refl]
  by (simp split: sum.split)

lemma Parse_func_text:
  assumes "\<forall>n \<in> set (func_ints f). int64_range n"
  shows "ParseFuncFromString (func_text f) (fn_Operator f) (fn_RightValue f) = Some (Inr f)"
proof -
  have one: "ParseFuncFromString (name @ ''(#'' @ Itoa n @ '')'') op rv = func_by_name name [n] op rv"
    if "CHR ''#'' \<notin> set name" "int64_range n" for name n op rv
    unfolding Parse_text [OF that(1)] atois_one [OF that(2)] by simp
  have two: "ParseFuncFromString (name @ ''(#'' @ (Itoa a @ comma # Itoa b) @ '')'') op rv =
      func_by_name name [a, b] op rv"
    if "CHR ''#'' \<notin> set name" "int64_range a" "int64_range b" for name a b op rv
    unfolding Parse_text [OF that(1)] atois_two [OF that(2,3)] by simp
  note p = one [of "''max''", simplified] one [of "''min''", simplified] one [of "''all''", simplified]
    one [of "''sum''", simplified] one [of "''avg''", simplified] one [of "''diff''", simplified]
    one [of "''pdiff''", simplified] one [of "''stddev''", simplified]
    two [of "''lookup''", simplified] two [of "''kdiff''", simplified] two [of "''kpdiff''", simplified]
  show ?thesis
    using assms by (cases f) (simp_all add: p func_by_name_def one_arg_def two_args_def slice_get_def)
qed

section \<open>The contract the event generation relies on\<close>

locale judge_function =
  fixes fcompute :: "'f \<Rightarrow> SafeLinkedList \<Rightarrow> computed go"
    and fwindow :: "'f \<Rightarrow> SafeLinkedList \<Rightarrow> HistoryData list"
    and fready :: "'f \<Rightarrow> SafeLinkedList \<Rightarrow> bool"
    and fvalid :: "'f \<Rightarrow> bool"
  assumes total: "typed L \<Longrightarrow> fvalid f \<Longrightarrow> \<exists>lv t. fcompute f L = Some (fwindow f L, lv, t, fready f L)"
    and quiet: "typed L \<Longrightarrow> fvalid f \<Longrightarrow> fcompute f L = Some (vs, lv, True, e) \<Longrightarrow> e"
    and window_ready: "fready f L \<Longrightarrow> fwindow f L \<noteq> []"
    and window_prefix: "prefix (fwindow f L) (points L)"
begin

lemma computed_ready:
  assumes "typed L" "fvalid f" "fcompute f L = Some (vs, lv, t, True)"
  shows "vs \<noteq> [] \<and> prefix vs (points L)"
  using total [OF assms(1,2)] assms(3) window_ready window_prefix by fastforce

lemma window_oldest:
  assumes "newest_first L" "typed L" "fvalid f" "fcompute f L = Some (vs, lv, t, True)" "p \<in> set vs"
  shows "hd_Timestamp (last vs) \<le> hd_Timestamp p"
proof -
  from computed_ready [OF assms(2-4)] obtain zs where "points L = vs @ zs" "vs \<noteq> []"
    by (auto elim: prefixE)
  with newest_first_points [OF assms(1)]
  have "sorted_wrt (\<lambda>a b. hd_Timestamp b < hd_Timestamp a) (butlast vs @ [last vs])"
    by (simp add: sorted_wrt_append)
  then have "\<forall>x \<in> set (butlast vs). hd_Timestamp (last vs) < hd_Timestamp x"
    by (simp add: sorted_wrt_append)
  moreover have "p \<in> set (butlast vs @ [last vs])" using assms(5) \<open>vs \<noteq> []\<close> by simp
  ultimately show ?thesis by auto
qed

lemma window_newest:
  assumes "typed L" "fvalid f" "fcompute f L = Some (vs, lv, t, True)"
  shows "hd_Timestamp (hd vs) = ji_Timestamp (hd L)"
proof -
  from computed_ready [OF assms] obtain zs where vs: "points L = vs @ zs" "vs \<noteq> []"
    by (auto elim: prefixE)
  then have "hd vs = hd (points L)" "points L \<noteq> []" by auto
  then show ?thesis
    by (cases L; cases "tl L") (auto simp: points_def item_data_def rate_data_def Let_def split: if_splits)
qed

end

interpretation jf: judge_function Compute window enough func_ok
proof
  fix L :: SafeLinkedList and f :: Function
  assume tf: "typed L" "func_ok f"
  show "\<exists>lv t. Compute f L = Some (window f L, lv, t, enough f L)"
    using Compute_enough [OF tf] Compute_short [OF tf] by (cases "enough f L") auto
  fix vs lv e
  assume "Compute f L = Some (vs, lv, True, e)"
  then show e using Compute_short [OF tf] Compute_enough [OF tf] by (cases "enough f L") auto
next
  fix L f
  assume "enough f L"
  then show "window f L \<noteq> []" by (auto simp: enough_def window_def)
next
  fix L f
  show "prefix (window f L) (points L)" by (simp add: window_def take_is_prefix)
qed

end
