(* ===== verification/Judge.thy ===== *)
theory Judge
  imports JudgeFunc
begin

text \<open>
  The judge module: the shared maps of \<open>modules/judge/g/var.go\<close>, the sharded history of
  \<open>store/history.go\<close>, event generation (\<open>store/judge.go\<close>), the rebuilding of the strategy,
  expression and filter maps (\<open>cron/strategy.go\<close>), the cleaner (\<open>cron/cleaner.go\<close>) and the RPC
  \<open>Judge.Send\<close> (\<open>rpc/receiver.go\<close>).  The package variables are the fields of one state record, the
  handlers are functions on it, and \<open>judge_step\<close> interleaves whole handlers.  The redis
  commands the module issues are the log \<open>js_redis\<close>; its entries keep the event that the
  JSON text encodes.
\<close>

section \<open>Shared maps\<close>

type_synonym JudgeItemMap = "(string, SafeLinkedList) gomap"

record Judge_state =
  js_HistoryBigMap :: "(string, JudgeItemMap) gomap"
  js_StrategyMap :: "(string, Strategy list) gomap"
  js_ExpressionMap :: "(string, Expression list) gomap"
  js_LastEvents :: "(string, Event) gomap"
  js_FilterMap :: "(string, string) gomap"
  js_redis :: "(string \<times> Event) list"

text \<open>The configuration the handlers read; \<open>jc_QueuePattern\<close> is the pattern applied to a priority.\<close>

record Judge_config =
  jc_Remain :: int
  jc_MinInterval :: int
  jc_QueuePattern :: "int \<Rightarrow> string"

definition SafeStrategyMap_ReInit :: "(string, Strategy list) gomap \<Rightarrow> Judge_state \<Rightarrow> Judge_state" where
  "SafeStrategyMap_ReInit m st = st\<lparr>js_StrategyMap := m\<rparr>"

definition SafeExpressionMap_ReInit :: "(string, Expression list) gomap \<Rightarrow> Judge_state \<Rightarrow> Judge_state" where
  "SafeExpressionMap_ReInit m st = st\<lparr>js_ExpressionMap := m\<rparr>"

definition SafeFilterMap_ReInit :: "(string, string) gomap \<Rightarrow> Judge_state \<Rightarrow> Judge_state" where
  "SafeFilterMap_ReInit m st = st\<lparr>js_FilterMap := m\<rparr>"

definition SafeFilterMap_Exists :: "Judge_state \<Rightarrow> string \<Rightarrow> bool" where
  "SafeFilterMap_Exists st key \<longleftrightarrow> m_get (js_FilterMap st) key \<noteq> None"

definition SafeEventMap_Get :: "(string, Event) gomap \<Rightarrow> string \<Rightarrow> Event option" where
  "SafeEventMap_Get m key = m_get m key"

definition SafeEventMap_Set :: "string \<Rightarrow> Event \<Rightarrow> (string, Event) gomap \<Rightarrow> (string, Event) gomap" where
  "SafeEventMap_Set key event m = m_set key event m"

section \<open>The sharded history\<close>

definition NewJudgeItemMap :: JudgeItemMap where
  "NewJudgeItemMap = []"

definition JudgeItemMap_Get :: "JudgeItemMap \<Rightarrow> string \<Rightarrow> SafeLinkedList option" where
  "JudgeItemMap_Get m key = m_get m key"

definition JudgeItemMap_Set :: "string \<Rightarrow> SafeLinkedList \<Rightarrow> JudgeItemMap \<Rightarrow> JudgeItemMap" where
  "JudgeItemMap_Set key val m = m_set key val m"

definition JudgeItemMap_Len :: "JudgeItemMap \<Rightarrow> int" where
  "JudgeItemMap_Len m = int (length m)"

definition JudgeItemMap_Delete :: "string \<Rightarrow> JudgeItemMap \<Rightarrow> JudgeItemMap" where
  "JudgeItemMap_Delete key m = m_del key m"

definition JudgeItemMap_BatchDelete :: "string list \<Rightarrow> JudgeItemMap \<Rightarrow> JudgeItemMap" where
  "JudgeItemMap_BatchDelete keys m =
     (if keys = [] then m else foldl (\<lambda>m k. JudgeItemMap_Delete k m) m keys)"

fun stale_keys :: "int \<Rightarrow> JudgeItemMap \<Rightarrow> string list" where
  "stale_keys before [] = []"
| "stale_keys before ((key, L) # m) =
     (case L of
        [] \<Rightarrow> stale_keys before m
      | front # _ \<Rightarrow>
          if ji_Timestamp front < before then key # stale_keys before m else stale_keys before m)"

definition JudgeItemMap_CleanStale :: "int \<Rightarrow> JudgeItemMap \<Rightarrow> JudgeItemMap" where
  "JudgeItemMap_CleanStale before m = JudgeItemMap_BatchDelete (stale_keys before m) m"

definition hex_pairs :: "string list" where
  "hex_pairs = concat (map (\<lambda>a. map (\<lambda>b. [a, b]) hex_chars) hex_chars)"

definition InitHistoryBigMap :: "Judge_state \<Rightarrow> Judge_state" where
  "InitHistoryBigMap st =
     st\<lparr>js_HistoryBigMap := foldl (\<lambda>m p. m_set p NewJudgeItemMap m) (js_HistoryBigMap st) hex_pairs\<rparr>"

section \<open>Events\<close>

definition sendEvent :: "Judge_config \<Rightarrow> Event \<Rightarrow> Judge_state \<Rightarrow> Judge_state go" where
  "sendEvent cfg event st =
     (let st1 = st\<lparr>js_LastEvents := SafeEventMap_Set (ev_Id event) event (js_LastEvents st)\<rparr> in
      if \<not> event_marshals event then Some st1
      else do {
        p \<leftarrow> Event_Priority event;
        Some (st1\<lparr>js_redis := js_redis st1 @ [(jc_QueuePattern cfg p, event)]\<rparr>) })"

text \<open>
  \<open>lastEvent.CurrentStep + 1\<close> cannot wrap: it is only computed below \<open>maxStep\<close>.
\<close>

definition sendEventIfNeed ::
  "Judge_config \<Rightarrow> HistoryData list \<Rightarrow> bool \<Rightarrow> int \<Rightarrow> Event \<Rightarrow> int \<Rightarrow> Judge_state \<Rightarrow> Judge_state go" where
  "sendEventIfNeed cfg historyData isTriggered now event maxStep st =
     (let lastEvent = SafeEventMap_Get (js_LastEvents st) (ev_Id event) in
      if isTriggered then
        let event1 = event\<lparr>ev_Status := ''PROBLEM''\<rparr>;
            fresh = (if maxStep = 0 then Some st
                     else sendEvent cfg (event1\<lparr>ev_CurrentStep := 1\<rparr>) st)
        in case lastEvent of
             None \<Rightarrow> fresh
           | Some le \<Rightarrow> do {
               c \<leftarrow> slice_get (ev_Status le) 0;
               if c = CHR ''O'' then fresh
               else if ev_CurrentStep le \<ge> maxStep then Some st
               else do {
                 h \<leftarrow> slice_get historyData (int (length historyData) - 1);
                 if hd_Timestamp h \<le> ev_EventTime le then Some st
                 else if i64 (now - ev_EventTime le) < jc_MinInterval cfg then Some st
                 else sendEvent cfg (event1\<lparr>ev_CurrentStep := ev_CurrentStep le + 1\<rparr>) st } }
      else case lastEvent of
             None \<Rightarrow> Some st
           | Some le \<Rightarrow> do {
               c \<leftarrow> slice_get (ev_Status le) 0;
               if c = CHR ''P''
               then sendEvent cfg (event\<lparr>ev_Status := ''OK'', ev_CurrentStep := 1\<rparr>) st
               else Some st })"

definition strategy_event :: "Strategy \<Rightarrow> JudgeItem \<Rightarrow> f64 \<Rightarrow> Event" where
  "strategy_event s firstItem leftValue =
     \<lparr> ev_Id = ''s_'' @ Itoa (st_Id s) @ ''_'' @ JudgeItem_PrimaryKey firstItem,
       ev_Strategy = Some s, ev_Expression = None, ev_Status = [],
       ev_Endpoint = ji_Endpoint firstItem, ev_LeftValue = leftValue, ev_CurrentStep = 0,
       ev_EventTime = ji_Timestamp firstItem, ev_PushedTags = ji_Tags firstItem \<rparr>"

definition expression_event :: "Expression \<Rightarrow> JudgeItem \<Rightarrow> f64 \<Rightarrow> Event" where
  "expression_event x firstItem leftValue =
     \<lparr> ev_Id = ''e_'' @ Itoa (ex_Id x) @ ''_'' @ JudgeItem_PrimaryKey firstItem,
       ev_Strategy = None, ev_Expression = Some x, ev_Status = [],
       ev_Endpoint = ji_Endpoint firstItem, ev_LeftValue = leftValue, ev_CurrentStep = 0,
       ev_EventTime = ji_Timestamp firstItem, ev_PushedTags = ji_Tags firstItem \<rparr>"

definition judgeItemWithStrategy ::
  "Judge_config \<Rightarrow> SafeLinkedList \<Rightarrow> Strategy \<Rightarrow> JudgeItem \<Rightarrow> int \<Rightarrow> Judge_state \<Rightarrow> Judge_state go" where
  "judgeItemWithStrategy cfg L s firstItem now st = do {
     r \<leftarrow> ParseFuncFromString (st_Func s) (st_Operator s) (st_RightValue s);
     case r of
       Inl err \<Rightarrow> Some st
     | Inr fn \<Rightarrow> do {
         (historyData, leftValue, isTriggered, isEnough) \<leftarrow> Compute fn L;
         if \<not> isEnough then Some st
         else sendEventIfNeed cfg historyData isTriggered now (strategy_event s firstItem leftValue)
                (st_MaxStep s) st } }"

definition judgeItemWithExpression ::
  "Judge_config \<Rightarrow> SafeLinkedList \<Rightarrow> Expression \<Rightarrow> JudgeItem \<Rightarrow> int \<Rightarrow> Judge_state \<Rightarrow> Judge_state go" where
  "judgeItemWithExpression cfg L x firstItem now st = do {
     r \<leftarrow> ParseFuncFromString (ex_Func x) (ex_Operator x) (ex_RightValue x);
     case r of
       Inl err \<Rightarrow> Some st
     | Inr fn \<Rightarrow> do {
         (historyData, leftValue, isTriggered, isEnough) \<leftarrow> Compute fn L;
         if \<not> isEnough then Some st
         else sendEventIfNeed cfg historyData isTriggered now (expression_event x firstItem leftValue)
                (ex_MaxStep x) st } }"

definition CheckStrategy ::
  "Judge_config \<Rightarrow> SafeLinkedList \<Rightarrow> JudgeItem \<Rightarrow> int \<Rightarrow> Judge_state \<Rightarrow> Judge_state go" where
  "CheckStrategy cfg L firstItem now st =
     (case m_get (js_StrategyMap st) (ji_Endpoint firstItem @ ''/'' @ ji_Metric firstItem) of
        None \<Rightarrow> Some st
      | Some strategies \<Rightarrow>
          foldM (\<lambda>st s. if \<not> tags_subset (st_Tags s) (ji_Tags firstItem) then Some st
                        else judgeItemWithStrategy cfg L s firstItem now st) st strategies)"

definition buildKeysFromMetricAndTags :: "JudgeItem \<Rightarrow> string list" where
  "buildKeysFromMetricAndTags item =
     map (\<lambda>(k, v). ji_Metric item @ ''/'' @ k @ ''='' @ v) (ji_Tags item)
     @ [ji_Metric item @ ''/endpoint='' @ ji_Endpoint item]"

definition copyItemTags :: "JudgeItem \<Rightarrow> tags" where
  "copyItemTags item =
     (let ret = m_set ''endpoint'' (ji_Endpoint item) []
      in if length (ji_Tags item) > 0
         then foldl (\<lambda>ret (k, v). m_set k v ret) ret (ji_Tags item) else ret)"

definition expression_related :: "JudgeItem \<Rightarrow> Expression \<Rightarrow> bool" where
  "expression_related firstItem x =
     (let itemTagsCopy = (if m_get (ex_Tags x) ''endpoint'' \<noteq> None
                          then copyItemTags firstItem else ji_Tags firstItem)
      in tags_subset (ex_Tags x) itemTagsCopy)"

definition filterRelatedExpressions :: "Expression list \<Rightarrow> JudgeItem \<Rightarrow> Expression list" where
  "filterRelatedExpressions expressions firstItem =
     (if length expressions = 0 then [] else filter (expression_related firstItem) expressions)"

text \<open>One related expression, with the set of the identifiers handled so far.\<close>

definition handle_expression ::
  "Judge_config \<Rightarrow> SafeLinkedList \<Rightarrow> JudgeItem \<Rightarrow> int \<Rightarrow> int list \<times> Judge_state \<Rightarrow> Expression
     \<Rightarrow> (int list \<times> Judge_state) go" where
  "handle_expression cfg L firstItem now = (\<lambda>(handled, st) x.
     if ex_Id x \<in> set handled then Some (handled, st)
     else do {
       st' \<leftarrow> judgeItemWithExpression cfg L x firstItem now st;
       Some (ex_Id x # handled, st') })"

definition CheckExpression ::
  "Judge_config \<Rightarrow> SafeLinkedList \<Rightarrow> JudgeItem \<Rightarrow> int \<Rightarrow> Judge_state \<Rightarrow> Judge_state go" where
  "CheckExpression cfg L firstItem now st =
     (let keys = buildKeysFromMetricAndTags firstItem; expressionMap = js_ExpressionMap st in
      if keys = [] then Some st
      else do {
        (handled, st') \<leftarrow> foldM (\<lambda>hs key.
          case m_get expressionMap key of
            None \<Rightarrow> Some hs
          | Some expressions \<Rightarrow>
              foldM (handle_expression cfg L firstItem now) hs
                (filterRelatedExpressions expressions firstItem)) ([], st) keys;
        Some st' })"

definition Judge :: "Judge_config \<Rightarrow> SafeLinkedList \<Rightarrow> JudgeItem \<Rightarrow> int \<Rightarrow> Judge_state \<Rightarrow> Judge_state go"
where
  "Judge cfg L firstItem now st = do {
     st1 \<leftarrow> CheckStrategy cfg L firstItem now st;
     CheckExpression cfg L firstItem now st1 }"

section \<open>Receiving points\<close>

text \<open>
  The method runs on the map of one shard; calling it on a shard that is not there
  dereferences \<open>nil\<close>.
\<close>

definition JudgeItemMap_PushFrontAndMaintain ::
  "Judge_config \<Rightarrow> string \<Rightarrow> string \<Rightarrow> JudgeItem \<Rightarrow> int \<Rightarrow> int \<Rightarrow> Judge_state \<Rightarrow> Judge_state go" where
  "JudgeItemMap_PushFrontAndMaintain cfg shard key val maxCount now st = do {
     m \<leftarrow> m_get (js_HistoryBigMap st) shard;
     case JudgeItemMap_Get m key of
       Some linkedList \<Rightarrow> do {
         (L', needJudge) \<leftarrow> SafeLinkedList_PushFrontAndMaintain linkedList val maxCount;
         let st1 = st\<lparr>js_HistoryBigMap :=
                        m_set shard (JudgeItemMap_Set key L' m) (js_HistoryBigMap st)\<rparr> in
         if needJudge then Judge cfg L' val now st1 else Some st1 }
     | None \<Rightarrow>
         let st1 = st\<lparr>js_HistoryBigMap :=
                        m_set shard (JudgeItemMap_Set key [val] m) (js_HistoryBigMap st)\<rparr> in
         Judge cfg [val] val now st1 }"

definition Send_item :: "Judge_config \<Rightarrow> int \<Rightarrow> Judge_state \<Rightarrow> JudgeItem option \<Rightarrow> Judge_state go" where
  "Send_item cfg now st pitem = do {
     item \<leftarrow> pitem;
     if \<not> SafeFilterMap_Exists st (ji_Metric item) then Some st
     else let pk = JudgeItem_PrimaryKey item in do {
       shard \<leftarrow> slice_sub pk 0 2;
       JudgeItemMap_PushFrontAndMaintain cfg shard pk item (jc_Remain cfg) now st } }"

definition Send :: "Judge_config \<Rightarrow> int \<Rightarrow> JudgeItem option list \<Rightarrow> Judge_state \<Rightarrow> Judge_state go" where
  "Send cfg now items st = foldM (Send_item cfg now) st items"

section \<open>Synchronisation and cleaning\<close>

definition rebuildStrategyMap :: "HostStrategy list \<Rightarrow> Judge_state \<Rightarrow> Judge_state" where
  "rebuildStrategyMap hss st =
     SafeStrategyMap_ReInit
       (foldl (\<lambda>m hs. foldl (\<lambda>m s. m_append (hs_Hostname hs @ ''/'' @ st_Metric s) s m) m (hs_Strategies hs))
          [] hss) st"

definition rebuildExpressionMap :: "Expression list \<Rightarrow> Judge_state \<Rightarrow> Judge_state" where
  "rebuildExpressionMap exps st =
     SafeExpressionMap_ReInit
       (foldl (\<lambda>m x. foldl (\<lambda>m (k, v). m_append (ex_Metric x @ ''/'' @ k @ ''='' @ v) x m) m (ex_Tags x))
          [] exps) st"

text \<open>The reply of the heartbeat server is an argument: an error leaves the map as it is.\<close>

definition syncStrategies :: "goerror + HostStrategy list \<Rightarrow> Judge_state \<Rightarrow> Judge_state" where
  "syncStrategies reply st = (case reply of Inl err \<Rightarrow> st | Inr hss \<Rightarrow> rebuildStrategyMap hss st)"

definition syncExpression :: "goerror + Expression list \<Rightarrow> Judge_state \<Rightarrow> Judge_state" where
  "syncExpression reply st = (case reply of Inl err \<Rightarrow> st | Inr exps \<Rightarrow> rebuildExpressionMap exps st)"

definition syncFilter :: "Judge_state \<Rightarrow> Judge_state" where
  "syncFilter st =
     (let m1 = foldl (\<lambda>m (k, ss). foldl (\<lambda>m s. m_set (st_Metric s) (st_Metric s) m) m ss)
                 [] (js_StrategyMap st);
          m2 = foldl (\<lambda>m (k, xs). foldl (\<lambda>m x. m_set (ex_Metric x) (ex_Metric x) m) m xs)
                 m1 (js_ExpressionMap st)
      in SafeFilterMap_ReInit m2 st)"

definition cleanStale :: "int \<Rightarrow> Judge_state \<Rightarrow> Judge_state go" where
  "cleanStale now st =
     (let before = i64 (now - 3600 * 24 * 7) in
      foldM (\<lambda>st p. do {
        m \<leftarrow> m_get (js_HistoryBigMap st) p;
        Some (st\<lparr>js_HistoryBigMap := m_set p (JudgeItemMap_CleanStale before m) (js_HistoryBigMap st)\<rparr>) })
        st hex_pairs)"

definition judge_start :: Judge_state where
  "judge_start = InitHistoryBigMap
     \<lparr> js_HistoryBigMap = [], js_StrategyMap = [], js_ExpressionMap = [], js_LastEvents = [],
       js_FilterMap = [], js_redis = [] \<rparr>"

text \<open>One step of the module: a handler runs to its end.\<close>

inductive judge_step :: "Judge_config \<Rightarrow> Judge_state \<Rightarrow> Judge_state \<Rightarrow> bool" for cfg where
  step_send: "Send cfg now items st = Some st' \<Longrightarrow> judge_step cfg st st'"
| step_strategies: "judge_step cfg st (syncStrategies reply st)"
| step_expressions: "judge_step cfg st (syncExpression ereply st)"
| step_filter: "judge_step cfg st (syncFilter st)"
| step_clean: "cleanStale now st = Some st' \<Longrightarrow> judge_step cfg st st'"

definition judge_reachable :: "Judge_config \<Rightarrow> Judge_state \<Rightarrow> bool" where
  "judge_reachable cfg st \<longleftrightarrow> (judge_step cfg)\<^sup>*\<^sup>* judge_start st"

inductive_cases judge_stepE: "judge_step cfg st st'"

section \<open>The maps as keyed stores\<close>

interpretation jim: kv_store_del JudgeItemMap_Get JudgeItemMap_Set gomap_ok JudgeItemMap_Delete
  by unfold_locales (auto simp: JudgeItemMap_Get_def JudgeItemMap_Set_def JudgeItemMap_Delete_def)

interpretation sem: kv_store SafeEventMap_Get SafeEventMap_Set gomap_ok
  by unfold_locales (auto simp: SafeEventMap_Get_def SafeEventMap_Set_def)

lemma BatchDelete_dels: "JudgeItemMap_BatchDelete keys m = foldl (\<lambda>m k. JudgeItemMap_Delete k m) m keys"
  by (simp add: JudgeItemMap_BatchDelete_def)

lemma stale_keys_iff:
  "gomap_ok m \<Longrightarrow> k \<in> set (stale_keys before m) \<longleftrightarrow>
     (\<exists>t L. JudgeItemMap_Get m k = Some (t # L) \<and> ji_Timestamp t < before)"
proof (induction before m rule: stale_keys.induct)
  case (2 before key L m)
  then have "\<And>L'. JudgeItemMap_Get m key \<noteq> Some L'"
    by (auto simp: JudgeItemMap_Get_def dest: m_get_SomeD intro: rev_image_eqI)
  with 2 show ?case by (auto simp: JudgeItemMap_Get_def split: list.splits if_splits)
qed (simp add: JudgeItemMap_Get_def)

lemma CleanStale_Get:
  assumes "gomap_ok m"
  shows "JudgeItemMap_Get (JudgeItemMap_CleanStale before m) k =
    (case JudgeItemMap_Get m k of
       Some (t # L) \<Rightarrow> if ji_Timestamp t < before then None else Some (t # L)
     | r \<Rightarrow> r)"
proof -
  have "JudgeItemMap_Get (JudgeItemMap_CleanStale before m) k =
    (if k \<in> set (stale_keys before m) then None else JudgeItemMap_Get m k)"
    by (simp add: JudgeItemMap_CleanStale_def BatchDelete_dels jim.get_dels [OF assms])
  then show ?thesis
    by (auto simp: stale_keys_iff [OF assms] split: option.splits list.splits)
qed

section \<open>The shards\<close>

lemma set_hex_pairs: "p \<in> set hex_pairs \<longleftrightarrow> length p = 2 \<and> set p \<subseteq> set hex_chars"
  by (auto simp: hex_pairs_def length_Suc_conv numeral_2_eq_2 image_iff)

lemma PrimaryKey_shard:
  "slice_sub (JudgeItem_PrimaryKey t) 0 2 = Some (take 2 (JudgeItem_PrimaryKey t))"
  "take 2 (JudgeItem_PrimaryKey t) \<in> set hex_pairs"
proof -
  show "slice_sub (JudgeItem_PrimaryKey t) 0 2 = Some (take 2 (JudgeItem_PrimaryKey t))"
    by (simp add: slice_sub_def)
  have "set (take 2 (JudgeItem_PrimaryKey t)) \<subseteq> set hex_chars"
    using set_Md5 by (auto simp: JudgeItem_PrimaryKey_def dest: in_set_takeD)
  then show "take 2 (JudgeItem_PrimaryKey t) \<in> set hex_pairs"
    unfolding set_hex_pairs by simp
qed

definition list_ok :: "Judge_config \<Rightarrow> string \<Rightarrow> SafeLinkedList \<Rightarrow> bool" where
  "list_ok cfg k L \<longleftrightarrow> newest_first L \<and> int (length L) \<le> max 1 (jc_Remain cfg)
     \<and> (\<forall>t \<in> set L. JudgeItem_PrimaryKey t = k)"

definition shard_ok :: "Judge_config \<Rightarrow> string \<Rightarrow> JudgeItemMap \<Rightarrow> bool" where
  "shard_ok cfg p m \<longleftrightarrow> jim.holds (\<lambda>k L. take 2 k = p \<and> list_ok cfg k L) m"

definition history_ok :: "Judge_config \<Rightarrow> Judge_state \<Rightarrow> bool" where
  "history_ok cfg st \<longleftrightarrow> gm.holds (shard_ok cfg) (js_HistoryBigMap st)
     \<and> fst ` set (js_HistoryBigMap st) = set hex_pairs"

definition event_ok :: "string \<Rightarrow> Event \<Rightarrow> bool" where
  "event_ok k e \<longleftrightarrow> ev_Id e = k \<and> ev_Status e \<in> {''OK'', ''PROBLEM''} \<and> 1 \<le> ev_CurrentStep e"

definition events_ok :: "Judge_state \<Rightarrow> bool" where
  "events_ok st \<longleftrightarrow> sem.holds event_ok (js_LastEvents st)"

definition judge_inv :: "Judge_config \<Rightarrow> Judge_state \<Rightarrow> bool" where
  "judge_inv cfg st \<longleftrightarrow> history_ok cfg st \<and> events_ok st \<and> gomap_ok (js_StrategyMap st)
     \<and> gomap_ok (js_ExpressionMap st) \<and> gomap_ok (js_FilterMap st)"

text \<open>Event generation leaves everything but the events alone.\<close>

definition events_only :: "Judge_state \<Rightarrow> Judge_state \<Rightarrow> bool" where
  "events_only st st' \<longleftrightarrow> js_HistoryBigMap st' = js_HistoryBigMap st
     \<and> js_StrategyMap st' = js_StrategyMap st \<and> js_ExpressionMap st' = js_ExpressionMap st
     \<and> js_FilterMap st' = js_FilterMap st"

lemma events_only_refl [simp]: "events_only st st"
  by (simp add: events_only_def)

lemma events_only_trans [trans]: "events_only a b \<Longrightarrow> events_only b c \<Longrightarrow> events_only a c"
  by (simp add: events_only_def)

definition safe_events :: "Judge_state \<Rightarrow> Judge_state \<Rightarrow> bool" where
  "safe_events st st' \<longleftrightarrow> events_only st st' \<and> (events_ok st \<longrightarrow> events_ok st')"

lemma safe_events_refl [simp]: "safe_events st st"
  by (simp add: safe_events_def)

lemma safe_events_trans [trans]: "safe_events a b \<Longrightarrow> safe_events b c \<Longrightarrow> safe_events a c"
  by (auto simp: safe_events_def intro: events_only_trans)

lemma events_ok_put:
  "events_ok st \<Longrightarrow> event_ok (ev_Id e) e \<Longrightarrow>
     sem.holds event_ok (SafeEventMap_Set (ev_Id e) e (js_LastEvents st))"
  unfolding events_ok_def by (rule sem.holds_put)

lemma sendEvent_safe:
  assumes "sendEvent cfg e st = Some st'" "event_ok (ev_Id e) e"
  shows "safe_events st st'"
  using assms events_ok_put [of st e]
  by (auto simp: sendEvent_def safe_events_def events_only_def events_ok_def Let_def
      split: if_splits bind_splits)

lemma events_okD:
  "events_ok st \<Longrightarrow> SafeEventMap_Get (js_LastEvents st) k = Some e \<Longrightarrow> event_ok k e"
  unfolding events_ok_def by (rule sem.holds_get)

lemma sendEventIfNeed_safe:
  assumes "sendEventIfNeed cfg hs trig now e maxStep st = Some st'"
  shows "safe_events st st'"
proof (cases "events_ok st")
  case True
  then show ?thesis
    using assms events_okD [OF True, of "ev_Id e"]
    by (auto simp: sendEventIfNeed_def Let_def event_ok_def intro!: sendEvent_safe
        split: if_splits option.splits bind_splits)
next
  case False
  then show ?thesis
    using assms
    by (auto simp: sendEventIfNeed_def sendEvent_def safe_events_def events_only_def Let_def
        split: if_splits option.splits bind_splits)
qed

lemma judgeItemWithStrategy_safe:
  "judgeItemWithStrategy cfg L s t now st = Some st' \<Longrightarrow> safe_events st st'"
  by (auto simp: judgeItemWithStrategy_def split: bind_splits sum.splits if_splits
      intro: sendEventIfNeed_safe)

lemma judgeItemWithExpression_safe:
  "judgeItemWithExpression cfg L x t now st = Some st' \<Longrightarrow> safe_events st st'"
  by (auto simp: judgeItemWithExpression_def split: bind_splits sum.splits if_splits
      intro: sendEventIfNeed_safe)

lemma CheckStrategy_safe:
  assumes "CheckStrategy cfg L t now st = Some st'"
  shows "safe_events st st'"
proof (cases "m_get (js_StrategyMap st) (ji_Endpoint t @ ''/'' @ ji_Metric t)")
  case None
  with assms show ?thesis by (simp add: CheckStrategy_def)
next
  case (Some ss)
  with assms have "foldM (\<lambda>st s. if \<not> tags_subset (st_Tags s) (ji_Tags t) then Some st
      else judgeItemWithStrategy cfg L s t now st) st ss = Some st'" by (simp add: CheckStrategy_def)
  then show ?thesis
    by (rule foldM_preserves [where I = "safe_events st", rotated 2])
      (auto intro: safe_events_trans judgeItemWithStrategy_safe split: if_splits)
qed

lemma handle_expression_safe:
  assumes "handle_expression cfg L t now hs x = Some hs'"
  shows "safe_events (snd hs) (snd hs')"
  using assms judgeItemWithExpression_safe
  by (cases hs) (auto simp: handle_expression_def split: if_splits bind_splits)

lemma CheckExpression_safe:
  assumes "CheckExpression cfg L t now st = Some st'"
  shows "safe_events st st'"
proof -
  let ?I = "\<lambda>hs. safe_events st (snd hs)"
  have inner: "?I hs'" if "?I hs" "foldM (handle_expression cfg L t now) hs xs = Some hs'" for hs hs' xs
    using that(2)
    by (rule foldM_preserves [where I = ?I, rotated 2])
      (use that(1) in \<open>auto intro: safe_events_trans dest: handle_expression_safe\<close>)
  from assms obtain handled where "foldM (\<lambda>hs key.
      case m_get (js_ExpressionMap st) key of
        None \<Rightarrow> Some hs
      | Some xs \<Rightarrow> foldM (handle_expression cfg L t now) hs (filterRelatedExpressions xs t))
      ([], st) (buildKeysFromMetricAndTags t) = Some (handled, st')"
    by (auto simp: CheckExpression_def buildKeysFromMetricAndTags_def Let_def split: bind_splits)
  then have "?I (handled, st')"
    by (rule foldM_preserves [where I = ?I, rotated 2]) (auto split: option.splits dest: inner)
  then show ?thesis by simp
qed

lemma Judge_safe: "Judge cfg L t now st = Some st' \<Longrightarrow> safe_events st st'"
  by (auto simp: Judge_def split: bind_splits
      intro: safe_events_trans CheckStrategy_safe CheckExpression_safe)

section \<open>The invariant\<close>

lemma safe_events_inv: "judge_inv cfg st \<Longrightarrow> safe_events st st' \<Longrightarrow> judge_inv cfg st'"
  by (simp add: judge_inv_def safe_events_def events_only_def history_ok_def)

lemma history_ok_put:
  assumes "history_ok cfg st" "p \<in> set hex_pairs" "shard_ok cfg p m"
  shows "history_ok cfg (st\<lparr>js_HistoryBigMap := m_set p m (js_HistoryBigMap st)\<rparr>)"
  using assms gm.holds_put [of "shard_ok cfg"] by (auto simp: history_ok_def insert_absorb)

lemma judge_inv_put:
  assumes "judge_inv cfg st" "p \<in> set hex_pairs" "shard_ok cfg p m"
  shows "judge_inv cfg (st\<lparr>js_HistoryBigMap := m_set p m (js_HistoryBigMap st)\<rparr>)"
  using assms history_ok_put [OF _ assms(2,3), of st] by (simp add: judge_inv_def events_ok_def)

lemma history_okD:
  assumes "history_ok cfg st"
  shows "m_get (js_HistoryBigMap st) p = Some m \<Longrightarrow> shard_ok cfg p m"
    "p \<in> set hex_pairs \<Longrightarrow> \<exists>m. m_get (js_HistoryBigMap st) p = Some m"
proof -
  show "m_get (js_HistoryBigMap st) p = Some m \<Longrightarrow> shard_ok cfg p m"
    using assms by (auto simp: history_ok_def intro: gm.holds_get)
  assume "p \<in> set hex_pairs"
  with assms have "p \<in> fst ` set (js_HistoryBigMap st)" by (simp add: history_ok_def)
  then show "\<exists>m. m_get (js_HistoryBigMap st) p = Some m"
    using m_get_None_iff [of "js_HistoryBigMap st" p] by (cases "m_get (js_HistoryBigMap st) p") auto
qed

lemma shard_ok_Set:
  "shard_ok cfg p m \<Longrightarrow> take 2 k = p \<Longrightarrow> list_ok cfg k L \<Longrightarrow> shard_ok cfg p (JudgeItemMap_Set k L m)"
  by (auto simp: shard_ok_def intro: jim.holds_put)

lemma shard_okD: "shard_ok cfg p m \<Longrightarrow> JudgeItemMap_Get m k = Some L \<Longrightarrow> list_ok cfg k L"
  by (auto simp: shard_ok_def dest: jim.holds_get)

lemma list_ok_push:
  assumes "list_ok cfg k L" "JudgeItem_PrimaryKey v = k"
    and "SafeLinkedList_PushFrontAndMaintain L v (jc_Remain cfg) = Some (L', nj)"
  shows "list_ok cfg k L'"
proof (cases "stale L v")
  case True
  with assms show ?thesis by (simp add: PushFrontAndMaintain_stale)
next
  case False
  with assms(3) have r: "0 \<le> jc_Remain cfg"
    using PushFrontAndMaintain_panic by (cases "jc_Remain cfg < 0") auto
  with False assms(3) have "L' = take (nat (jc_Remain cfg)) (v # L)"
    by (simp add: PushFrontAndMaintain_accept)
  with assms r newest_first_push [OF _ assms(3)] show ?thesis
    by (auto simp: list_ok_def dest!: in_set_takeD)
qed

lemma PushFrontAndMaintain_inv:
  assumes "judge_inv cfg st" "JudgeItem_PrimaryKey v = k" "p = take 2 k"
    and "JudgeItemMap_PushFrontAndMaintain cfg p k v (jc_Remain cfg) now st = Some st'"
  shows "judge_inv cfg st'"
proof -
  have p: "p \<in> set hex_pairs" using PrimaryKey_shard(2) [of v] assms(2,3) by simp
  have hist: "history_ok cfg st" using assms(1) by (simp add: judge_inv_def)
  from assms(4) obtain m where m: "m_get (js_HistoryBigMap st) p = Some m"
    by (auto simp: JudgeItemMap_PushFrontAndMaintain_def split: bind_splits)
  note sh = history_okD(1) [OF hist m]
  show ?thesis
  proof (cases "JudgeItemMap_Get m k")
    case None
    have "list_ok cfg k [v]" using assms(2) by (simp add: list_ok_def newest_first_def)
    from judge_inv_put [OF assms(1) p shard_ok_Set [OF sh assms(3) [symmetric] this]] assms(4) m None
    show ?thesis by (auto simp: JudgeItemMap_PushFrontAndMaintain_def Let_def
        intro: safe_events_inv Judge_safe)
  next
    case (Some L)
    with assms(4) m obtain L' nj where
      L': "SafeLinkedList_PushFrontAndMaintain L v (jc_Remain cfg) = Some (L', nj)"
      by (auto simp: JudgeItemMap_PushFrontAndMaintain_def split: bind_splits)
    have "list_ok cfg k L'" by (rule list_ok_push [OF shard_okD [OF sh Some] assms(2) L'])
    from judge_inv_put [OF assms(1) p shard_ok_Set [OF sh assms(3) [symmetric] this]] assms(4) m Some L'
    show ?thesis by (auto simp: JudgeItemMap_PushFrontAndMaintain_def Let_def
        intro: safe_events_inv Judge_safe split: if_splits)
  qed
qed

lemma Send_item_inv:
  "judge_inv cfg st \<Longrightarrow> Send_item cfg now st i = Some st' \<Longrightarrow> judge_inv cfg st'"
  by (auto simp: Send_item_def PrimaryKey_shard(1) Let_def split: bind_splits if_splits
      intro: PushFrontAndMaintain_inv)

lemma Send_inv: "judge_inv cfg st \<Longrightarrow> Send cfg now items st = Some st' \<Longrightarrow> judge_inv cfg st'"
  unfolding Send_def
  by (rule foldM_preserves [where I = "judge_inv cfg"]) (auto intro: Send_item_inv)

text \<open>Rebuilding the maps: nested appends are one pass over the pairs of key and value.\<close>

definition strategy_pairs :: "HostStrategy list \<Rightarrow> (string \<times> Strategy) list" where
  "strategy_pairs hss =
     concat (map (\<lambda>hs. map (\<lambda>s. (hs_Hostname hs @ ''/'' @ st_Metric s, s)) (hs_Strategies hs)) hss)"

definition expression_pairs :: "Expression list \<Rightarrow> (string \<times> Expression) list" where
  "expression_pairs xs =
     concat (map (\<lambda>x. map (\<lambda>(k, v). (ex_Metric x @ ''/'' @ k @ ''='' @ v, x)) (ex_Tags x)) xs)"

lemma foldl_concat_map:
  "foldl (\<lambda>m a. foldl (\<lambda>m b. f m (g a b)) m (h a)) m xs =
     foldl f m (concat (map (\<lambda>a. map (g a) (h a)) xs))"
  by (induction xs arbitrary: m) (auto simp: foldl_map)

lemma rebuildStrategyMap_pairs:
  "js_StrategyMap (rebuildStrategyMap hss st) =
     foldl (\<lambda>m (k, s). m_append k s m) [] (strategy_pairs hss)"
  using foldl_concat_map [of "\<lambda>m (k, s). m_append k s m"
      "\<lambda>hs s. (hs_Hostname hs @ ''/'' @ st_Metric s, s)" hs_Strategies]
  by (simp add: rebuildStrategyMap_def SafeStrategyMap_ReInit_def strategy_pairs_def)

lemma rebuildExpressionMap_pairs:
  "js_ExpressionMap (rebuildExpressionMap xs st) =
     foldl (\<lambda>m (k, x). m_append k x m) [] (expression_pairs xs)"
  using foldl_concat_map [of "\<lambda>m (k, s). m_append k s m"
      "\<lambda>x (k, v). (ex_Metric x @ ''/'' @ k @ ''='' @ v, x)" ex_Tags]
  by (simp add: rebuildExpressionMap_def SafeExpressionMap_ReInit_def expression_pairs_def case_prod_unfold)

lemma gomap_ok_foldl_set:
  "gomap_ok m \<Longrightarrow> gomap_ok (foldl (\<lambda>m (k, xs). foldl (\<lambda>m x. m_set (f x) (f x) m) m xs) m kxs)"
proof (induction kxs arbitrary: m)
  case (Cons kx kxs)
  have "gomap_ok (foldl (\<lambda>m x. m_set (f x) (f x) m) m xs)" if "gomap_ok m" for m xs
    using that by (induction xs arbitrary: m) auto
  with Cons show ?case by (cases kx) simp
qed simp

lemma sync_inv:
  assumes "judge_inv cfg st"
  shows "judge_inv cfg (syncStrategies r st)" "judge_inv cfg (syncExpression r' st)"
    "judge_inv cfg (syncFilter st)"
proof -
  have "gomap_ok (js_StrategyMap (rebuildStrategyMap hss st))" for hss
    by (simp add: rebuildStrategyMap_pairs)
  with assms show "judge_inv cfg (syncStrategies r st)"
    by (auto simp: syncStrategies_def judge_inv_def history_ok_def events_ok_def rebuildStrategyMap_def
        SafeStrategyMap_ReInit_def split: sum.splits)
  have "gomap_ok (js_ExpressionMap (rebuildExpressionMap xs st))" for xs
    by (simp add: rebuildExpressionMap_pairs)
  with assms show "judge_inv cfg (syncExpression r' st)"
    by (auto simp: syncExpression_def judge_inv_def history_ok_def events_ok_def rebuildExpressionMap_def
        SafeExpressionMap_ReInit_def split: sum.splits)
  from assms show "judge_inv cfg (syncFilter st)"
    by (simp add: syncFilter_def judge_inv_def history_ok_def events_ok_def SafeFilterMap_ReInit_def Let_def
        gomap_ok_foldl_set)
qed

lemma shard_ok_clean: "shard_ok cfg p m \<Longrightarrow> shard_ok cfg p (JudgeItemMap_CleanStale before m)"
  by (simp add: shard_ok_def JudgeItemMap_CleanStale_def BatchDelete_dels jim.holds_dels)

lemma cleanStale_total:
  assumes "judge_inv cfg st"
  shows "\<exists>st'. cleanStale now st = Some st' \<and> judge_inv cfg st'"
  unfolding cleanStale_def Let_def
proof (rule foldM_invariant [where I = "judge_inv cfg", OF _ assms])
  fix s p
  assume s: "judge_inv cfg s" and p: "p \<in> set hex_pairs"
  then have hist: "history_ok cfg s" by (simp add: judge_inv_def)
  from history_okD(2) [OF hist p] obtain m where m: "m_get (js_HistoryBigMap s) p = Some m" by blast
  from judge_inv_put [OF s p shard_ok_clean [OF history_okD(1) [OF hist m]]] m
  show "\<exists>s'. do { m \<leftarrow> m_get (js_HistoryBigMap s) p;
        Some (s\<lparr>js_HistoryBigMap := m_set p (JudgeItemMap_CleanStale (i64 (now - 3600 * 24 * 7)) m)
          (js_HistoryBigMap s)\<rparr>) } = Some s' \<and> judge_inv cfg s'"
    by simp
qed

lemma judge_start_inv: "judge_inv cfg judge_start"
proof -
  have "gm.holds (shard_ok cfg) (foldl (\<lambda>m p. m_set p NewJudgeItemMap m) m ps) \<and>
      fst ` set (foldl (\<lambda>m p. m_set p NewJudgeItemMap m) m ps) = fst ` set m \<union> set ps"
    if "gm.holds (shard_ok cfg) m" for m ps
    using that
  proof (induction ps arbitrary: m)
    case (Cons p ps)
    have "shard_ok cfg p NewJudgeItemMap"
      by (simp add: shard_ok_def jim.holds_def NewJudgeItemMap_def JudgeItemMap_Get_def)
    with Cons.prems have "gm.holds (shard_ok cfg) (m_set p NewJudgeItemMap m)" by (rule gm.holds_put)
    from Cons.IH [OF this] show ?case by auto
  qed simp
  moreover have "gm.holds (shard_ok cfg) []" by (simp add: gm.holds_def)
  ultimately show ?thesis
    by (simp add: judge_inv_def judge_start_def InitHistoryBigMap_def history_ok_def events_ok_def
        sem.holds_def SafeEventMap_Get_def)
qed

lemma judge_step_inv: "judge_step cfg st st' \<Longrightarrow> judge_inv cfg st \<Longrightarrow> judge_inv cfg st'"
proof (induction rule: judge_step.induct)
  case (step_clean now st st')
  then show ?case using cleanStale_total [of cfg st now] by auto
qed (auto intro: Send_inv sync_inv)

lemma judge_reachable_inv: "judge_reachable cfg st \<Longrightarrow> judge_inv cfg st"
  unfolding judge_reachable_def
  by (induction rule: rtranclp_induct) (auto intro: judge_start_inv judge_step_inv)

section \<open>Absence of panics\<close>

definition rule_ok :: "string \<Rightarrow> string \<Rightarrow> f64 \<Rightarrow> bool" where
  "rule_ok fn op rv \<longleftrightarrow>
     (case ParseFuncFromString fn op rv of
        None \<Rightarrow> False | Some (Inl _) \<Rightarrow> True | Some (Inr f) \<Rightarrow> func_ok f)"

definition rules_ok :: "Judge_state \<Rightarrow> bool" where
  "rules_ok st \<longleftrightarrow>
     (\<forall>k ss. m_get (js_StrategyMap st) k = Some ss \<longrightarrow>
        (\<forall>s \<in> set ss. rule_ok (st_Func s) (st_Operator s) (st_RightValue s)))
     \<and> (\<forall>k xs. m_get (js_ExpressionMap st) k = Some xs \<longrightarrow>
        (\<forall>x \<in> set xs. rule_ok (ex_Func x) (ex_Operator x) (ex_RightValue x)))"

lemma sendEvent_total:
  "ev_Strategy e \<noteq> None \<or> ev_Expression e \<noteq> None \<Longrightarrow> \<exists>st'. sendEvent cfg e st = Some st'"
  using event_field_Some [of e st_Priority ex_Priority]
  by (auto simp: sendEvent_def Event_Priority_def Let_def)

lemma event_ok_first: "event_ok k e \<Longrightarrow> \<exists>c. slice_get (ev_Status e) 0 = Some c"
  by (auto simp: event_ok_def)

lemma sendEventIfNeed_total:
  assumes "events_ok st" "hs \<noteq> []" "ev_Strategy e \<noteq> None \<or> ev_Expression e \<noteq> None"
  shows "\<exists>st'. sendEventIfNeed cfg hs trig now e maxStep st = Some st'"
proof -
  have send: "\<exists>st'. sendEvent cfg (e\<lparr>ev_Status := a, ev_CurrentStep := b\<rparr>) st = Some st'" for a b
    using assms(3) by (intro sendEvent_total) simp
  have last: "\<exists>h. slice_get hs (int (length hs) - 1) = Some h"
    using assms(2) by (cases hs) (auto simp: slice_get_def)
  show ?thesis
  proof (cases "SafeEventMap_Get (js_LastEvents st) (ev_Id e)")
    case None
    with send show ?thesis by (auto simp: sendEventIfNeed_def Let_def)
  next
    case (Some le)
    with assms(1) obtain c where "slice_get (ev_Status le) 0 = Some c"
      using events_okD event_ok_first by blast
    with Some send last show ?thesis by (auto simp: sendEventIfNeed_def Let_def)
  qed
qed

text \<open>A parsed rule runs: the computed window is not empty when it is enough.\<close>

lemma rule_run_total:
  assumes "rule_ok fn op rv" "typed L" "events_ok st"
    and "\<And>lv. ev_Strategy (mk lv) \<noteq> None \<or> ev_Expression (mk lv) \<noteq> None"
  shows "\<exists>st'. do { r \<leftarrow> ParseFuncFromString fn op rv;
     case r of Inl err \<Rightarrow> Some st
     | Inr f \<Rightarrow> do { (hs, lv, t, e) \<leftarrow> Compute f L;
         if \<not> e then Some st else sendEventIfNeed cfg hs t now (mk lv) maxStep st } } = Some st'"
proof -
  from assms(1) consider err where "ParseFuncFromString fn op rv = Some (Inl err)"
    | f where "ParseFuncFromString fn op rv = Some (Inr f)" "func_ok f"
    by (auto simp: rule_ok_def split: option.splits sum.splits)
  then show ?thesis
  proof cases
    case 2
    from jf.total [OF assms(2) 2(2)] obtain lv t
      where c: "Compute f L = Some (window f L, lv, t, enough f L)" by blast
    show ?thesis
    proof (cases "enough f L")
      case True
      with sendEventIfNeed_total [OF assms(3) jf.window_ready [OF True] assms(4)] 2(1) c
      show ?thesis by simp
    next
      case False
      with 2(1) c show ?thesis by simp
    qed
  qed simp
qed

lemma judgeItemWithStrategy_total:
  "rule_ok (st_Func s) (st_Operator s) (st_RightValue s) \<Longrightarrow> typed L \<Longrightarrow> events_ok st \<Longrightarrow>
     \<exists>st'. judgeItemWithStrategy cfg L s t now st = Some st'"
  unfolding judgeItemWithStrategy_def by (rule rule_run_total) (auto simp: strategy_event_def)

lemma judgeItemWithExpression_total:
  "rule_ok (ex_Func x) (ex_Operator x) (ex_RightValue x) \<Longrightarrow> typed L \<Longrightarrow> events_ok st \<Longrightarrow>
     \<exists>st'. judgeItemWithExpression cfg L x t now st = Some st'"
  unfolding judgeItemWithExpression_def by (rule rule_run_total) (auto simp: expression_event_def)

lemma safe_events_okD: "safe_events st st' \<Longrightarrow> events_ok st \<Longrightarrow> events_ok st'"
  by (simp add: safe_events_def)

lemma CheckStrategy_total:
  assumes "rules_ok st" "typed L" "events_ok st"
  shows "\<exists>st'. CheckStrategy cfg L t now st = Some st'"
proof (cases "m_get (js_StrategyMap st) (ji_Endpoint t @ ''/'' @ ji_Metric t)")
  case None
  then show ?thesis by (simp add: CheckStrategy_def)
next
  case (Some ss)
  with assms(1) have r: "\<forall>s \<in> set ss. rule_ok (st_Func s) (st_Operator s) (st_RightValue s)"
    by (auto simp: rules_ok_def)
  have "\<exists>st'. foldM (\<lambda>st s. if \<not> tags_subset (st_Tags s) (ji_Tags t) then Some st
      else judgeItemWithStrategy cfg L s t now st) st ss = Some st' \<and> events_ok st'"
  proof (rule foldM_invariant [where I = events_ok, OF _ assms(3)])
    fix s x
    assume "events_ok s" "x \<in> set ss"
    with r judgeItemWithStrategy_total [OF _ assms(2)] judgeItemWithStrategy_safe
    show "\<exists>s'. (if \<not> tags_subset (st_Tags x) (ji_Tags t) then Some s
      else judgeItemWithStrategy cfg L x t now s) = Some s' \<and> events_ok s'"
      by (metis safe_events_okD)
  qed
  with Some show ?thesis by (auto simp: CheckStrategy_def)
qed

lemma handle_expressions_total:
  assumes "\<forall>x \<in> set xs. rule_ok (ex_Func x) (ex_Operator x) (ex_RightValue x)" "typed L"
    and "events_ok (snd hs)"
  shows "\<exists>hs'. foldM (handle_expression cfg L t now) hs xs = Some hs' \<and> events_ok (snd hs')"
proof (rule foldM_invariant [where I = "\<lambda>hs. events_ok (snd hs)", OF _ assms(3)])
  fix hs :: "int list \<times> Judge_state" and x
  assume ok: "events_ok (snd hs)" and "x \<in> set xs"
  with assms(1) judgeItemWithExpression_total [OF _ assms(2) ok, of x cfg t now]
  obtain st' where "judgeItemWithExpression cfg L x t now (snd hs) = Some st'" by blast
  moreover from this ok have "events_ok st'"
    using judgeItemWithExpression_safe safe_events_okD by blast
  ultimately show "\<exists>hs'. handle_expression cfg L t now hs x = Some hs' \<and> events_ok (snd hs')"
    using ok by (cases hs) (simp add: handle_expression_def)
qed

lemma CheckExpression_total:
  assumes "rules_ok st" "typed L" "events_ok st"
  shows "\<exists>st'. CheckExpression cfg L t now st = Some st'"
proof -
  have "\<exists>hs'. foldM (\<lambda>hs key.
      case m_get (js_ExpressionMap st) key of
        None \<Rightarrow> Some hs
      | Some xs \<Rightarrow> foldM (handle_expression cfg L t now) hs (filterRelatedExpressions xs t))
      ([], st) (buildKeysFromMetricAndTags t) = Some hs' \<and> events_ok (snd hs')"
  proof (rule foldM_invariant [where I = "\<lambda>hs. events_ok (snd hs)"])
    fix hs :: "int list \<times> Judge_state" and key
    assume ok: "events_ok (snd hs)"
    have "\<exists>hs'. foldM (handle_expression cfg L t now) hs (filterRelatedExpressions xs t) = Some hs'
        \<and> events_ok (snd hs')" if "m_get (js_ExpressionMap st) key = Some xs" for xs
      using that assms(1)
      by (intro handle_expressions_total assms(2) ok)
        (auto simp: rules_ok_def filterRelatedExpressions_def split: if_splits)
    with ok show "\<exists>hs'. (case m_get (js_ExpressionMap st) key of None \<Rightarrow> Some hs
        | Some xs \<Rightarrow> foldM (handle_expression cfg L t now) hs (filterRelatedExpressions xs t)) = Some hs'
        \<and> events_ok (snd hs')"
      by (cases "m_get (js_ExpressionMap st) key") auto
  qed (use assms(3) in simp)
  then show ?thesis by (auto simp: CheckExpression_def Let_def buildKeysFromMetricAndTags_def)
qed

lemma rules_ok_only: "events_only st st' \<Longrightarrow> rules_ok st' \<longleftrightarrow> rules_ok st"
  by (simp add: events_only_def rules_ok_def)

lemma Judge_total:
  assumes "rules_ok st" "typed L" "events_ok st"
  shows "\<exists>st'. Judge cfg L t now st = Some st'"
proof -
  from CheckStrategy_total [OF assms] obtain st1 where 1: "CheckStrategy cfg L t now st = Some st1" by blast
  then have "safe_events st st1" by (rule CheckStrategy_safe)
  with assms have "rules_ok st1" "events_ok st1"
    using rules_ok_only by (auto simp: safe_events_def)
  from CheckExpression_total [OF this(1) assms(2) this(2)] 1 show ?thesis by (simp add: Judge_def)
qed

text \<open>An item the judge can take: not \<open>nil\<close> and with a counter type.\<close>

definition good_item :: "JudgeItem option \<Rightarrow> bool" where
  "good_item i \<longleftrightarrow> (\<exists>t. i = Some t \<and> ji_JudgeType t \<noteq> [])"

lemma Send_item_total:
  assumes "judge_inv cfg st" "rules_ok st" "0 \<le> jc_Remain cfg" "good_item i"
  shows "\<exists>st'. Send_item cfg now st i = Some st' \<and> rules_ok st'"
proof -
  from assms(4) obtain v where v: "i = Some v" "ji_JudgeType v \<noteq> []" by (auto simp: good_item_def)
  let ?k = "JudgeItem_PrimaryKey v"
  let ?p = "take 2 ?k"
  have hist: "history_ok cfg st" and ev: "events_ok st" using assms(1) by (auto simp: judge_inv_def)
  from history_okD(2) [OF hist PrimaryKey_shard(2)] obtain m
    where m: "m_get (js_HistoryBigMap st) ?p = Some m" by blast
  have run: "\<exists>st'. Judge cfg L v now (st\<lparr>js_HistoryBigMap := b\<rparr>) = Some st' \<and> rules_ok st'"
    if "typed L" for L b
  proof -
    have r: "rules_ok (st\<lparr>js_HistoryBigMap := b\<rparr>)" "events_ok (st\<lparr>js_HistoryBigMap := b\<rparr>)"
      using assms(2) ev by (simp_all add: rules_ok_def events_ok_def)
    from Judge_total [OF r(1) that r(2)] obtain st' where st': "Judge cfg L v now (st\<lparr>js_HistoryBigMap := b\<rparr>) = Some st'"
      by blast
    from Judge_safe [OF this] r rules_ok_only have "rules_ok st'" by (auto simp: safe_events_def)
    with st' show ?thesis by blast
  qed
  have "\<exists>st'. JudgeItemMap_PushFrontAndMaintain cfg ?p ?k v (jc_Remain cfg) now st = Some st' \<and> rules_ok st'"
  proof (cases "JudgeItemMap_Get m ?k")
    case None
    with m run [of "[v]"] v(2) show ?thesis
      by (simp add: JudgeItemMap_PushFrontAndMaintain_def typed_def)
  next
    case (Some L)
    show ?thesis
    proof (cases "stale L v")
      case True
      with m Some assms(2) show ?thesis
        by (simp add: JudgeItemMap_PushFrontAndMaintain_def PushFrontAndMaintain_stale rules_ok_def)
    next
      case False
      have "typed (take (nat (jc_Remain cfg)) (v # L))"
        using v(2) by (simp add: typed_def take_Cons')
      with m Some False assms(3) run show ?thesis
        by (simp add: JudgeItemMap_PushFrontAndMaintain_def PushFrontAndMaintain_accept)
    qed
  qed
  with v(1) assms(2) show ?thesis by (simp add: Send_item_def PrimaryKey_shard(1) Let_def)
qed

lemma Send_total:
  assumes "judge_inv cfg st" "rules_ok st" "0 \<le> jc_Remain cfg" "\<forall>i \<in> set items. good_item i"
  shows "\<exists>st'. Send cfg now items st = Some st'"
proof -
  have "\<exists>st'. foldM (Send_item cfg now) st items = Some st' \<and> (judge_inv cfg st' \<and> rules_ok st')"
    by (rule foldM_invariant [where I = "\<lambda>s. judge_inv cfg s \<and> rules_ok s"])
      (use assms Send_item_total Send_item_inv in blast)+
  then show ?thesis by (auto simp: Send_def)
qed

section \<open>Filter and rule selection\<close>

lemma m_get_foldl_self:
  "m_get (foldl (\<lambda>m (k, xs). foldl (\<lambda>m x. m_set (f x) (f x) m) m xs) m kxs) y \<noteq> None \<longleftrightarrow>
     m_get m y \<noteq> None \<or> (\<exists>(k, xs) \<in> set kxs. \<exists>x \<in> set xs. f x = y)"
proof (induction kxs arbitrary: m)
  case (Cons kx kxs)
  obtain k xs where kx: "kx = (k, xs)" by force
  have "m_get (foldl (\<lambda>m x. m_set (f x) (f x) m) m xs) y \<noteq> None \<longleftrightarrow>
    m_get m y \<noteq> None \<or> (\<exists>x \<in> set xs. f x = y)" for m xs
    by (induction xs arbitrary: m) auto
  with Cons.IH show ?case by (auto simp: kx)
qed simp

lemma in_entries:
  "gomap_ok m \<Longrightarrow> (\<exists>(k, xs) \<in> set m. \<exists>x \<in> set xs. f x = y) \<longleftrightarrow>
     (\<exists>k xs x. m_get m k = Some xs \<and> x \<in> set xs \<and> f x = y)"
  by (fastforce simp: m_get_in_set)

lemma syncFilter_Exists:
  assumes "judge_inv cfg st"
  shows "SafeFilterMap_Exists (syncFilter st) metric \<longleftrightarrow>
    (\<exists>k ss s. m_get (js_StrategyMap st) k = Some ss \<and> s \<in> set ss \<and> st_Metric s = metric) \<or>
    (\<exists>k xs x. m_get (js_ExpressionMap st) k = Some xs \<and> x \<in> set xs \<and> ex_Metric x = metric)"
proof -
  have "gomap_ok (js_StrategyMap st)" "gomap_ok (js_ExpressionMap st)"
    using assms by (auto simp: judge_inv_def)
  then have "(\<exists>(k, ss) \<in> set (js_StrategyMap st). \<exists>s \<in> set ss. st_Metric s = metric) \<longleftrightarrow>
      (\<exists>k ss s. m_get (js_StrategyMap st) k = Some ss \<and> s \<in> set ss \<and> st_Metric s = metric)"
    "(\<exists>(k, xs) \<in> set (js_ExpressionMap st). \<exists>x \<in> set xs. ex_Metric x = metric) \<longleftrightarrow>
      (\<exists>k xs x. m_get (js_ExpressionMap st) k = Some xs \<and> x \<in> set xs \<and> ex_Metric x = metric)"
    by (simp_all add: in_entries)
  moreover have "js_FilterMap (syncFilter st) =
    foldl (\<lambda>m (k, xs). foldl (\<lambda>m x. m_set (ex_Metric x) (ex_Metric x) m) m xs)
      (foldl (\<lambda>m (k, ss). foldl (\<lambda>m s. m_set (st_Metric s) (st_Metric s) m) m ss) [] (js_StrategyMap st))
      (js_ExpressionMap st)"
    by (simp add: syncFilter_def SafeFilterMap_ReInit_def)
  ultimately show ?thesis
    unfolding SafeFilterMap_Exists_def by (simp only: m_get_foldl_self) simp
qed

lemma rebuildStrategyMap_get:
  "m_get (js_StrategyMap (rebuildStrategyMap hss st)) k =
     (if group_at (strategy_pairs hss) k = [] then None else Some (group_at (strategy_pairs hss) k))"
  by (simp add: rebuildStrategyMap_pairs m_get_m_appends)

lemma rebuildExpressionMap_get:
  "m_get (js_ExpressionMap (rebuildExpressionMap xs st)) k =
     (if group_at (expression_pairs xs) k = [] then None else Some (group_at (expression_pairs xs) k))"
  by (simp add: rebuildExpressionMap_pairs m_get_m_appends)

section \<open>What the cleaner keeps\<close>

lemma clean_fold_get:
  assumes "distinct ps"
    and "foldM (\<lambda>st p. do {
        m \<leftarrow> m_get (js_HistoryBigMap st) p;
        Some (st\<lparr>js_HistoryBigMap := m_set p (JudgeItemMap_CleanStale before m) (js_HistoryBigMap st)\<rparr>) })
        st ps = Some st'"
  shows "m_get (js_HistoryBigMap st') q =
    (if q \<in> set ps then map_option (JudgeItemMap_CleanStale before) (m_get (js_HistoryBigMap st) q)
     else m_get (js_HistoryBigMap st) q)"
  using assms
proof (induction ps arbitrary: st)
  case (Cons p ps)
  from Cons.prems(2) obtain m where m: "m_get (js_HistoryBigMap st) p = Some m"
    by (auto split: option.splits bind_splits)
  let ?st1 = "st\<lparr>js_HistoryBigMap := m_set p (JudgeItemMap_CleanStale before m) (js_HistoryBigMap st)\<rparr>"
  from Cons.prems m have "m_get (js_HistoryBigMap st') q =
    (if q \<in> set ps then map_option (JudgeItemMap_CleanStale before) (m_get (js_HistoryBigMap ?st1) q)
     else m_get (js_HistoryBigMap ?st1) q)"
    by (intro Cons.IH) auto
  with m Cons.prems(1) show ?case by auto
qed simp

lemma distinct_hex_pairs: "distinct hex_pairs"
proof -
  have "distinct hex_chars" by code_simp
  then show ?thesis
    unfolding hex_pairs_def
    by (intro distinct_concat) (auto simp: distinct_map inj_on_def)
qed

lemma cleanStale_get:
  assumes "cleanStale now st = Some st'" "q \<in> set hex_pairs"
  shows "m_get (js_HistoryBigMap st') q =
    map_option (JudgeItemMap_CleanStale (i64 (now - 3600 * 24 * 7))) (m_get (js_HistoryBigMap st) q)"
  using clean_fold_get [OF distinct_hex_pairs assms(1) [unfolded cleanStale_def Let_def]] assms(2) by simp

end
