(* ===== verification/JudgeAlarm.thy ===== *)
theory JudgeAlarm
  imports Judge
begin

text \<open>
  What the judge module promises about alarms.  \<open>sendEventIfNeed\<close> refines a small automaton per
  event identifier (\<open>alarm_next\<close>); runs of it number the alarms of an episode from one up to
  the maximum and report a recovery only after a problem.  An expression is judged once per
  point, and every expression that matches a point is found.
\<close>

section \<open>The alarm automaton\<close>

datatype alarm = Quiet | Alarming int int

datatype notice = Problem int | Recovered

definition alarm_of :: "Judge_state \<Rightarrow> string \<Rightarrow> alarm" where
  "alarm_of st i = (case SafeEventMap_Get (js_LastEvents st) i of
     None \<Rightarrow> Quiet
   | Some e \<Rightarrow> if ev_Status e = ''PROBLEM'' then Alarming (ev_CurrentStep e) (ev_EventTime e) else Quiet)"

text \<open>
  \<open>oldest\<close> is the time of the oldest point the rule looked at: a further alarm needs a window of
  points newer than the last alarm, and \<open>minInterval\<close> seconds since it.
\<close>

fun alarm_next :: "int \<Rightarrow> int \<Rightarrow> int \<Rightarrow> bool \<Rightarrow> int \<Rightarrow> alarm \<Rightarrow> notice option" where
  "alarm_next minInterval maxStep oldest triggered now Quiet =
     (if triggered \<and> maxStep \<noteq> 0 then Some (Problem 1) else None)"
| "alarm_next minInterval maxStep oldest triggered now (Alarming n t0) =
     (if \<not> triggered then Some Recovered
      else if n < maxStep \<and> t0 < oldest \<and> minInterval \<le> i64 (now - t0) then Some (Problem (n + 1))
      else None)"

fun alarm_after :: "int \<Rightarrow> alarm \<Rightarrow> notice option \<Rightarrow> alarm" where
  "alarm_after t a None = a"
| "alarm_after t a (Some (Problem n)) = Alarming n t"
| "alarm_after t a (Some Recovered) = Quiet"

fun noticed :: "Event \<Rightarrow> notice \<Rightarrow> Event" where
  "noticed e (Problem n) = e\<lparr>ev_Status := ''PROBLEM'', ev_CurrentStep := n\<rparr>"
| "noticed e Recovered = e\<lparr>ev_Status := ''OK'', ev_CurrentStep := 1\<rparr>"

definition pushed :: "Judge_config \<Rightarrow> Event \<Rightarrow> (string \<times> Event) list" where
  "pushed cfg e = (if event_marshals e
     then (case Event_Priority e of None \<Rightarrow> [] | Some p \<Rightarrow> [(jc_QueuePattern cfg p, e)]) else [])"

definition notified :: "Judge_config \<Rightarrow> Event \<Rightarrow> notice option \<Rightarrow> Judge_state \<Rightarrow> Judge_state" where
  "notified cfg e no st = (case no of
     None \<Rightarrow> st
   | Some n \<Rightarrow> st\<lparr>js_LastEvents := SafeEventMap_Set (ev_Id e) (noticed e n) (js_LastEvents st),
                  js_redis := js_redis st @ pushed cfg (noticed e n)\<rparr>)"

definition ruled :: "Event \<Rightarrow> bool" where
  "ruled e \<longleftrightarrow> ev_Strategy e \<noteq> None \<or> ev_Expression e \<noteq> None"

lemma sendEvent_notified:
  assumes "ruled e" "sendEvent cfg (noticed e n) st = r"
  shows "r = Some (notified cfg e (Some n) st)"
proof -
  have "ruled (noticed e n)" "ev_Id (noticed e n) = ev_Id e" using assms(1) by (cases n; simp add: ruled_def)+
  moreover from event_field_Some [of "noticed e n" st_Priority ex_Priority] this(1)
  obtain p where "Event_Priority (noticed e n) = Some p" by (auto simp: Event_Priority_def ruled_def)
  ultimately show ?thesis
    using assms(2) by (auto simp: sendEvent_def notified_def pushed_def Let_def)
qed

lemma sendEventIfNeed_notified:
  assumes "events_ok st" "hs \<noteq> []" "ruled e"
  shows "sendEventIfNeed cfg hs trig now e maxStep st =
    Some (notified cfg e (alarm_next (jc_MinInterval cfg) maxStep (hd_Timestamp (last hs)) trig now
            (alarm_of st (ev_Id e))) st)"
proof -
  have send: "sendEvent cfg (e\<lparr>ev_Status := ''PROBLEM'', ev_CurrentStep := n\<rparr>) st =
      Some (notified cfg e (Some (Problem n)) st)"
    "sendEvent cfg (e\<lparr>ev_Status := ''OK'', ev_CurrentStep := 1\<rparr>) st =
      Some (notified cfg e (Some Recovered) st)" for n
    using sendEvent_notified [OF assms(3), of cfg "Problem n" st] sendEvent_notified [OF assms(3), of cfg Recovered st]
    by simp_all
  have last: "slice_get hs (int (length hs) - 1) = Some (last hs)"
    using assms(2) by (cases hs rule: rev_cases) (auto simp: slice_get_def nth_append)
  show ?thesis
  proof (cases "SafeEventMap_Get (js_LastEvents st) (ev_Id e)")
    case None
    then show ?thesis by (auto simp: sendEventIfNeed_def Let_def alarm_of_def notified_def [of _ _ None] send)
  next
    case (Some le)
    from events_okD [OF assms(1) Some] have "ev_Status le = ''OK'' \<or> ev_Status le = ''PROBLEM''"
      by (auto simp: event_ok_def)
    with Some last show ?thesis
      by (auto simp: sendEventIfNeed_def Let_def alarm_of_def notified_def [of _ _ None] send)
  qed
qed

lemma alarm_of_notified:
  assumes "events_ok st"
  shows "alarm_of (notified cfg e no st) i =
    (if i = ev_Id e then alarm_after (ev_EventTime e) (alarm_of st i) no else alarm_of st i)"
proof (cases no)
  case None
  then show ?thesis by (simp add: notified_def)
next
  case (Some n)
  have "gomap_ok (js_LastEvents st)" using assms by (simp add: events_ok_def sem.holds_def)
  with Some show ?thesis by (cases n) (auto simp: notified_def alarm_of_def sem.get_put)
qed

lemma events_ok_alarming: "events_ok st \<Longrightarrow> alarm_of st i = Alarming n t \<Longrightarrow> 1 \<le> n"
  by (auto simp: alarm_of_def event_ok_def split: option.splits if_splits dest!: events_okD)

section \<open>Episodes\<close>

text \<open>
  The events of one identifier in the order they are pushed, read as a sequence of
  episodes: the state is the number of alarms of the current episode.
\<close>

definition log_step :: "int \<Rightarrow> int \<Rightarrow> Event \<Rightarrow> int go" where
  "log_step maxStep c e =
     (if ev_Status e = ''PROBLEM''
      then (if ev_CurrentStep e = c + 1 \<and> c + 1 \<le> max 1 maxStep then Some (c + 1) else None)
      else if ev_Status e = ''OK'' \<and> 0 < c then Some 0 else None)"

definition id_log :: "Judge_state \<Rightarrow> string \<Rightarrow> Event list" where
  "id_log st i = filter (\<lambda>e. ev_Id e = i) (map snd (js_redis st))"

definition alarm_level :: "alarm \<Rightarrow> int" where
  "alarm_level a = (case a of Quiet \<Rightarrow> 0 | Alarming n t \<Rightarrow> n)"

text \<open>An observation: the window, whether the rule triggered, the time, and the event to send.\<close>

type_synonym observation = "HistoryData list \<times> bool \<times> int \<times> Event"

definition observe :: "Judge_config \<Rightarrow> int \<Rightarrow> Judge_state \<Rightarrow> observation \<Rightarrow> Judge_state go" where
  "observe cfg maxStep st = (\<lambda>(hs, trig, now, e). sendEventIfNeed cfg hs trig now e maxStep st)"

definition observable :: "string \<Rightarrow> observation \<Rightarrow> bool" where
  "observable i = (\<lambda>(hs, trig, now, e). hs \<noteq> [] \<and> ruled e \<and> event_marshals e \<and> ev_Id e = i)"

definition episode_inv :: "int \<Rightarrow> string \<Rightarrow> Judge_state \<Rightarrow> bool" where
  "episode_inv maxStep i st \<longleftrightarrow> events_ok st \<and>
     foldM (log_step maxStep) 0 (id_log st i) = Some (alarm_level (alarm_of st i))"

lemma id_log_notified:
  assumes "ruled e" "event_marshals e"
  shows "id_log (notified cfg e (Some n) st) (ev_Id e) = id_log st (ev_Id e) @ [noticed e n]"
proof -
  have "event_marshals (noticed e n)" "ev_Id (noticed e n) = ev_Id e" "ruled (noticed e n)"
    using assms by (cases n; simp add: event_marshals_def ruled_def)+
  moreover from event_field_Some [of "noticed e n" st_Priority ex_Priority] this(3)
  obtain p where "Event_Priority (noticed e n) = Some p" by (auto simp: Event_Priority_def ruled_def)
  ultimately show ?thesis by (simp add: notified_def id_log_def pushed_def)
qed

lemma events_ok_notified:
  fixes hs :: "HistoryData list"
  assumes "events_ok st" "ruled e" "hs \<noteq> []"
    and "no = alarm_next (jc_MinInterval cfg) maxStep (hd_Timestamp (last hs)) trig now (alarm_of st (ev_Id e))"
  shows "events_ok (notified cfg e no st)"
  using sendEventIfNeed_notified [OF assms(1,3,2)] sendEventIfNeed_safe assms(1,4)
  by (metis safe_events_okD)

lemma observe_episode:
  assumes "episode_inv maxStep i st" "observable i ob"
  shows "\<exists>st'. observe cfg maxStep st ob = Some st' \<and> episode_inv maxStep i st'"
proof -
  obtain hs trig now e where ob: "ob = (hs, trig, now, e)" by (cases ob) auto
  with assms(2) have o: "hs \<noteq> []" "ruled e" "event_marshals e" "ev_Id e = i" by (auto simp: observable_def)
  have ok: "events_ok st" and log: "foldM (log_step maxStep) 0 (id_log st i) = Some (alarm_level (alarm_of st i))"
    using assms(1) by (auto simp: episode_inv_def)
  define no where
    "no = alarm_next (jc_MinInterval cfg) maxStep (hd_Timestamp (last hs)) trig now (alarm_of st i)"
  have "observe cfg maxStep st ob = Some (notified cfg e no st)"
    using sendEventIfNeed_notified [OF ok o(1,2)] by (simp add: observe_def ob no_def o(4))
  moreover have "foldM (log_step maxStep) 0 (id_log (notified cfg e no st) i) =
      Some (alarm_level (alarm_of (notified cfg e no st) i))"
  proof (cases no)
    case None
    with log show ?thesis by (simp add: notified_def)
  next
    case (Some n)
    have snoc: "id_log (notified cfg e no st) i = id_log st i @ [noticed e n]"
      using id_log_notified [OF o(2,3)] o(4) Some by simp
    from Some show ?thesis
      unfolding snoc foldM_append log alarm_of_notified [OF ok]
      using events_ok_alarming [OF ok, of i] o(4)
      by (cases "alarm_of st i"; cases n)
        (auto simp: no_def log_step_def alarm_level_def split: if_splits)
  qed
  moreover have "events_ok (notified cfg e no st)"
    using events_ok_notified [OF ok o(2,1)] by (simp add: no_def o(4))
  ultimately show ?thesis by (auto simp: episode_inv_def)
qed

lemma observe_run_episode:
  assumes "episode_inv maxStep i st" "\<forall>ob \<in> set obs. observable i ob"
  shows "\<exists>st'. foldM (observe cfg maxStep) st obs = Some st' \<and> episode_inv maxStep i st'"
  using observe_episode assms
  by (intro foldM_invariant [where I = "episode_inv maxStep i"]) blast+

lemma episode_inv_start: "episode_inv maxStep i judge_start"
  using judge_start_inv [of undefined]
  by (simp add: episode_inv_def judge_inv_def id_log_def alarm_of_def judge_start_def InitHistoryBigMap_def
      SafeEventMap_Get_def alarm_level_def)

section \<open>Expressions\<close>

definition candidates :: "Judge_state \<Rightarrow> JudgeItem \<Rightarrow> Expression list" where
  "candidates st t = concat (map (\<lambda>key. case m_get (js_ExpressionMap st) key of
     None \<Rightarrow> [] | Some xs \<Rightarrow> filterRelatedExpressions xs t) (buildKeysFromMetricAndTags t))"

fun first_by_id :: "int list \<Rightarrow> Expression list \<Rightarrow> Expression list" where
  "first_by_id seen [] = []"
| "first_by_id seen (x # xs) =
     (if ex_Id x \<in> set seen then first_by_id seen xs else x # first_by_id (ex_Id x # seen) xs)"

lemma foldM_concat: "foldM (\<lambda>s x. foldM f s (g x)) s xs = foldM f s (concat (map g xs))"
  by (induction xs arbitrary: s) (auto simp: foldM_append split: option.splits)

lemma foldM_handle:
  "map_option snd (foldM (handle_expression cfg L t now) (seen, st) xs) =
     foldM (\<lambda>st x. judgeItemWithExpression cfg L x t now st) st (first_by_id seen xs)"
proof (induction xs arbitrary: seen st)
  case (Cons x xs)
  then show ?case
    by (cases "judgeItemWithExpression cfg L x t now st") (auto simp: handle_expression_def)
qed simp

lemma CheckExpression_candidates:
  "CheckExpression cfg L t now st =
     foldM (\<lambda>st x. judgeItemWithExpression cfg L x t now st) st (first_by_id [] (candidates st t))"
proof -
  have "(\<lambda>hs key. case m_get (js_ExpressionMap st) key of
        None \<Rightarrow> Some hs
      | Some xs \<Rightarrow> foldM (handle_expression cfg L t now) hs (filterRelatedExpressions xs t)) =
    (\<lambda>hs key. foldM (handle_expression cfg L t now) hs (case m_get (js_ExpressionMap st) key of
        None \<Rightarrow> [] | Some xs \<Rightarrow> filterRelatedExpressions xs t))"
    by (intro ext) (simp split: option.splits)
  moreover have "buildKeysFromMetricAndTags t \<noteq> []" by (simp add: buildKeysFromMetricAndTags_def)
  ultimately have "CheckExpression cfg L t now st =
      map_option snd (foldM (handle_expression cfg L t now) ([], st) (candidates st t))"
    unfolding CheckExpression_def Let_def candidates_def
    by (simp only: foldM_concat if_False)
      (cases "foldM (handle_expression cfg L t now) ([], st) (candidates st t)", auto simp: candidates_def)
  then show ?thesis by (simp add: foldM_handle)
qed

lemma first_by_id_distinct: "distinct (map ex_Id (first_by_id seen xs))"
  and first_by_id_seen: "x \<in> set (first_by_id seen xs) \<Longrightarrow> ex_Id x \<notin> set seen"
proof -
  have *: "x \<in> set (first_by_id seen xs) \<Longrightarrow> ex_Id x \<notin> set seen" for x seen xs
    by (induction seen xs rule: first_by_id.induct) (auto split: if_splits)
  show "distinct (map ex_Id (first_by_id seen xs))"
  proof (induction seen xs rule: first_by_id.induct)
    case (2 seen x xs)
    then show ?case using * [of _ "ex_Id x # seen" xs] by (auto dest: *)
  qed simp
  show "x \<in> set (first_by_id seen xs) \<Longrightarrow> ex_Id x \<notin> set seen" by (rule *)
qed

lemma first_by_id_ids: "ex_Id ` set (first_by_id seen xs) = ex_Id ` set xs - set seen"
  by (induction seen xs rule: first_by_id.induct) auto

lemma first_by_id_subset: "set (first_by_id seen xs) \<subseteq> set xs"
  by (induction seen xs rule: first_by_id.induct) auto

lemma filterRelated_filter: "filterRelatedExpressions xs t = filter (expression_related t) xs"
  by (simp add: filterRelatedExpressions_def)

lemma copyItemTags_get:
  assumes "gomap_ok (ji_Tags t)"
  shows "m_get (copyItemTags t) k =
    (case m_get (ji_Tags t) k of Some v \<Rightarrow> Some v
     | None \<Rightarrow> if k = ''endpoint'' then Some (ji_Endpoint t) else None)"
proof -
  have "map_of (rev (ji_Tags t)) = map_of (ji_Tags t)"
    using assms by (intro map_of_inject_set [THEN iffD2]) (auto simp: gomap_ok_def rev_map [symmetric])
  then show ?thesis
    using gm.get_puts [of "m_set ''endpoint'' (ji_Endpoint t) []" "ji_Tags t" k]
    by (cases "ji_Tags t") (auto simp: copyItemTags_def Let_def split: option.splits)
qed

lemma related_key:
  assumes "gomap_ok (ji_Tags t)" "expression_related t x" "(k, v) \<in> set (ex_Tags x)"
  shows "ji_Metric t @ ''/'' @ k @ ''='' @ v \<in> set (buildKeysFromMetricAndTags t)"
proof -
  let ?tags = "if m_get (ex_Tags x) ''endpoint'' \<noteq> None then copyItemTags t else ji_Tags t"
  from assms(2,3) have "m_get ?tags k = Some v"
    by (auto simp: expression_related_def tags_subset_iff)
  then have "m_get (ji_Tags t) k = Some v \<or> k = ''endpoint'' \<and> v = ji_Endpoint t"
    by (auto simp: copyItemTags_get [OF assms(1)] split: if_splits option.splits)
  then show ?thesis
    by (auto simp: buildKeysFromMetricAndTags_def dest: m_get_SomeD)
qed

lemma rebuilt_candidate:
  assumes "gomap_ok (ji_Tags t)" "x \<in> set xs" "ex_Metric x = ji_Metric t" "ex_Tags x \<noteq> []"
    and "expression_related t x"
  shows "x \<in> set (candidates (rebuildExpressionMap xs st) t)"
proof -
  from assms(4) obtain k v where kv: "(k, v) \<in> set (ex_Tags x)" by (cases "ex_Tags x") auto
  let ?key = "ji_Metric t @ ''/'' @ k @ ''='' @ v"
  have "(?key, x) \<in> set (expression_pairs xs)"
    using assms(2,3) kv by (force simp: expression_pairs_def)
  then have "x \<in> set (group_at (expression_pairs xs) ?key)" by (simp add: group_at_iff)
  then obtain ys where "m_get (js_ExpressionMap (rebuildExpressionMap xs st)) ?key = Some ys" "x \<in> set ys"
    by (cases "group_at (expression_pairs xs) ?key = []") (auto simp: rebuildExpressionMap_get)
  with related_key [OF assms(1,5) kv] assms(5) show ?thesis
    by (auto simp: candidates_def filterRelated_filter intro!: bexI [of _ ?key])
qed

end
