(* ===== verification/JudgeProps.thy ===== *)
theory JudgeProps
  imports JudgeAlarm
begin

text \<open>
  The properties of the judge module, with a small deployment on which their hypotheses
  hold: one strategy \<open>max(#1) > 1\<close> on the metric \<open>m\<close> of the host \<open>h\<close>, one expression, and the
  points of one counter.
\<close>

section \<open>A deployment\<close>

definition demo_strategy :: Strategy where
  "demo_strategy = \<lparr> st_Id = 7, st_Metric = ''m'', st_Tags = [], st_Func = ''max(#1)'',
     st_Operator = ''>'', st_RightValue = Num 1, st_MaxStep = 3, st_Priority = 0, st_Note = [],
     st_Tpl = None \<rparr>"

definition demo_expression :: Expression where
  "demo_expression = \<lparr> ex_Id = 9, ex_Metric = ''m'', ex_Tags = [(''endpoint'', ''h'')],
     ex_Func = ''all(#1)'', ex_Operator = ''>'', ex_RightValue = Num 1, ex_MaxStep = 3,
     ex_Priority = 0, ex_Note = [], ex_ActionId = 0 \<rparr>"

definition demo_item :: "int \<Rightarrow> f64 \<Rightarrow> JudgeItem" where
  "demo_item t v = \<lparr> ji_Endpoint = ''h'', ji_Metric = ''m'', ji_Value = v, ji_Timestamp = t,
     ji_JudgeType = ''GAUGE'', ji_Tags = [] \<rparr>"

definition demo_config :: Judge_config where
  "demo_config = \<lparr> jc_Remain = 5, jc_MinInterval = 300, jc_QueuePattern = (\<lambda>p. ''event:p'' @ Itoa p) \<rparr>"

definition demo_state :: Judge_state where
  "demo_state = syncFilter (syncExpression (Inr [demo_expression])
     (syncStrategies (Inr [\<lparr> hs_Hostname = ''h'', hs_Strategies = [demo_strategy] \<rparr>]) judge_start))"

lemma judge_reachable_start: "judge_reachable cfg judge_start"
  by (simp add: judge_reachable_def)

lemma judge_reachable_step: "judge_reachable cfg st \<Longrightarrow> judge_step cfg st st' \<Longrightarrow> judge_reachable cfg st'"
  unfolding judge_reachable_def by (rule rtranclp.rtrancl_into_rtrancl)

lemma demo_reachable: "judge_reachable cfg demo_state"
  unfolding demo_state_def
  by (rule judge_reachable_step [OF _ step_filter], rule judge_reachable_step [OF _ step_expressions],
      rule judge_reachable_step [OF _ step_strategies], rule judge_reachable_start)

lemma demo_maps:
  "js_StrategyMap demo_state = [(''h/m'', [demo_strategy])]"
  "js_ExpressionMap demo_state = [(''m/endpoint=h'', [demo_expression])]"
  "SafeFilterMap_Exists demo_state ''m''"
  by (simp_all add: demo_state_def syncStrategies_def syncExpression_def syncFilter_def
      SafeFilterMap_ReInit_def rebuildStrategyMap_def rebuildExpressionMap_def SafeStrategyMap_ReInit_def
      SafeExpressionMap_ReInit_def m_append_def SafeFilterMap_Exists_def demo_strategy_def
      demo_expression_def judge_start_def InitHistoryBigMap_def)

lemma Itoa_one: "Itoa 1 = ''1''"
  by code_simp

lemma demo_rules: "rules_ok demo_state"
proof -
  have "rule_ok ''max(#1)'' op rv" "rule_ok ''all(#1)'' op rv" for op rv
  proof -
    have "ParseFuncFromString ''max(#1)'' op rv = Some (Inr (MaxFunction 1 op rv))"
      using Parse_func_text [of "MaxFunction 1 op rv"] by (simp add: Itoa_one int64_range_def)
    then show "rule_ok ''max(#1)'' op rv" by (simp add: rule_ok_def func_ok_def)
    have "ParseFuncFromString ''all(#1)'' op rv = Some (Inr (AllFunction 1 op rv))"
      using Parse_func_text [of "AllFunction 1 op rv"] by (simp add: Itoa_one int64_range_def)
    then show "rule_ok ''all(#1)'' op rv" by (simp add: rule_ok_def func_ok_def)
  qed
  then show ?thesis by (auto simp: rules_ok_def demo_maps demo_strategy_def demo_expression_def)
qed

text \<open>A first point of a watched metric starts the list of its counter.\<close>

lemma Send_first:
  assumes "judge_inv cfg st" "SafeFilterMap_Exists st (ji_Metric v)"
    and "m_get (js_HistoryBigMap st) (take 2 (JudgeItem_PrimaryKey v)) = Some []"
    and "Send cfg now [Some v] st = Some st'"
  shows "m_get (js_HistoryBigMap st') (take 2 (JudgeItem_PrimaryKey v)) = Some [(JudgeItem_PrimaryKey v, [v])]"
proof -
  let ?p = "take 2 (JudgeItem_PrimaryKey v)"
  let ?st1 = "st\<lparr>js_HistoryBigMap := m_set ?p [(JudgeItem_PrimaryKey v, [v])] (js_HistoryBigMap st)\<rparr>"
  have "Judge cfg [v] v now ?st1 = Some st'"
    using assms(2-4) by (auto simp: Send_def Send_item_def PrimaryKey_shard(1) JudgeItemMap_Set_def
        JudgeItemMap_PushFrontAndMaintain_def JudgeItemMap_Get_def Let_def split: option.splits)
  from Judge_safe [OF this] show ?thesis by (auto simp: safe_events_def events_only_def)
qed

lemma demo_shard: "p \<in> set hex_pairs \<Longrightarrow> m_get (js_HistoryBigMap demo_state) p = Some []"
proof -
  have "m_get (foldl (\<lambda>m p. m_set p NewJudgeItemMap m) m ps) p =
      (if p \<in> set ps then Some [] else m_get m p)" for m :: "(string, JudgeItemMap) gomap" and ps
    by (induction ps arbitrary: m) (auto simp: NewJudgeItemMap_def)
  moreover assume "p \<in> set hex_pairs"
  ultimately show ?thesis
    by (simp add: demo_state_def syncStrategies_def syncExpression_def syncFilter_def
        SafeFilterMap_ReInit_def rebuildStrategyMap_def rebuildExpressionMap_def SafeStrategyMap_ReInit_def
        SafeExpressionMap_ReInit_def judge_start_def InitHistoryBigMap_def)
qed

lemma demo_sent:
  "\<exists>st. judge_reachable demo_config st
     \<and> m_get (js_HistoryBigMap st) (take 2 (JudgeItem_PrimaryKey (demo_item 60 (Num 2)))) =
         Some [(JudgeItem_PrimaryKey (demo_item 60 (Num 2)), [demo_item 60 (Num 2)])]"
proof -
  let ?v = "demo_item 60 (Num 2)"
  have inv: "judge_inv demo_config demo_state" by (rule judge_reachable_inv [OF demo_reachable])
  from Send_total [OF inv demo_rules, of "[Some ?v]" 60] obtain st where
    st: "Send demo_config 60 [Some ?v] demo_state = Some st"
    by (auto simp: demo_config_def good_item_def demo_item_def)
  from judge_reachable_step [OF demo_reachable step_send [OF st]] have "judge_reachable demo_config st" .
  moreover from demo_maps(3) have "SafeFilterMap_Exists demo_state (ji_Metric ?v)" by (simp add: demo_item_def)
  from Send_first [OF inv this demo_shard [OF PrimaryKey_shard(2)] st]
  have "m_get (js_HistoryBigMap st) (take 2 (JudgeItem_PrimaryKey ?v)) = Some [(JudgeItem_PrimaryKey ?v, [?v])]" .
  ultimately show ?thesis by blast
qed

section \<open>The history\<close>

text \<open>C1: in every reachable state of the judge, the list of a counter sits in the shard named by the first
  two digits of its key, holds points of that counter only, has strictly decreasing time stamps from
  front to back, and never more points than the configured number (at least one).\<close>

theorem reachable_history:
  assumes "judge_reachable cfg st"
    and "m_get (js_HistoryBigMap st) shard = Some m" and "JudgeItemMap_Get m key = Some L"
  shows "shard = take 2 key \<and> sorted_wrt (\<lambda>a b. ji_Timestamp b < ji_Timestamp a) L
    \<and> int (length L) \<le> max 1 (jc_Remain cfg) \<and> (\<forall>t \<in> set L. JudgeItem_PrimaryKey t = key)"
proof -
  from judge_reachable_inv [OF assms(1)] have "history_ok cfg st" by (simp add: judge_inv_def)
  from history_okD(1) [OF this assms(2)] have sh: "shard_ok cfg shard m" .
  then have "shard = take 2 key" using assms(3) by (auto simp: shard_ok_def dest: jim.holds_get)
  with shard_okD [OF sh assms(3)] show ?thesis by (simp add: list_ok_def newest_first_def)
qed

theorem reachable_history_witness:
  "\<exists>st m key. judge_reachable demo_config st \<and> m_get (js_HistoryBigMap st) (take 2 key) = Some m
     \<and> JudgeItemMap_Get m key = Some [demo_item 60 (Num 2)]
     \<and> (\<forall>t \<in> set [demo_item 60 (Num 2)]. JudgeItem_PrimaryKey t = key)"
proof -
  let ?v = "demo_item 60 (Num 2)"
  let ?k = "JudgeItem_PrimaryKey ?v"
  from demo_sent obtain st where r: "judge_reachable demo_config st"
    and m: "m_get (js_HistoryBigMap st) (take 2 ?k) = Some [(?k, [?v])]" by blast
  have g: "JudgeItemMap_Get [(?k, [?v])] ?k = Some [?v]" by (simp add: JudgeItemMap_Get_def)
  from r m g reachable_history [OF r m g] show ?thesis by blast
qed

text \<open>C4: \<open>Judge.Send\<close> does not panic in a reachable state: the shard is there, no index runs out of range and
  no \<open>nil\<close> is dereferenced, for every batch of points that carry a counter type, provided the rules
  parse and the history size is not negative.\<close>

theorem Send_never_panics:
  assumes "judge_reachable cfg st" "rules_ok st" "0 \<le> jc_Remain cfg" "\<forall>i \<in> set items. good_item i"
  shows "\<exists>st'. Send cfg now items st = Some st' \<and> judge_reachable cfg st'"
proof -
  from Send_total [OF judge_reachable_inv [OF assms(1)] assms(2-4)] obtain st'
    where "Send cfg now items st = Some st'" by blast
  with judge_reachable_step [OF assms(1) step_send [OF this]] show ?thesis by blast
qed

theorem Send_never_panics_witness:
  "judge_reachable demo_config demo_state \<and> rules_ok demo_state
   \<and> (\<exists>st'. Send demo_config 200 [Some (demo_item 60 (Num 2)), Some (demo_item 120 (Num 0))] demo_state = Some st'
        \<and> judge_reachable demo_config st')"
  using Send_never_panics [OF demo_reachable demo_rules, of demo_config
      "[Some (demo_item 60 (Num 2)), Some (demo_item 120 (Num 0))]" 200] demo_reachable demo_rules
  by (simp add: demo_config_def good_item_def demo_item_def)

text \<open>A new point is dropped exactly when it is not newer than the newest one (or has no positive time
  stamp while the list has points); otherwise it becomes the front and the list keeps its newest
  \<open>maxCount\<close> points.\<close>

theorem push_keeps_newest:
  assumes "0 \<le> maxCount"
  shows "SafeLinkedList_PushFrontAndMaintain L v maxCount =
    Some (if L \<noteq> [] \<and> (ji_Timestamp v \<le> ji_Timestamp (hd L) \<or> ji_Timestamp v \<le> 0) then (L, False)
          else (take (nat maxCount) (v # L), True))"
  using assms PushFrontAndMaintain_accept [of L v maxCount] PushFrontAndMaintain_stale [of L v maxCount]
  by (auto simp: stale_def)

theorem push_keeps_newest_witness:
  "SafeLinkedList_PushFrontAndMaintain [demo_item 60 (Num 1), demo_item 0 (Num 1)] (demo_item 120 (Num 3)) 2 =
     Some ([demo_item 120 (Num 3), demo_item 60 (Num 1)], True)"
  using push_keeps_newest [of 2 "[demo_item 60 (Num 1), demo_item 0 (Num 1)]" "demo_item 120 (Num 3)"]
  by (simp add: demo_item_def)

text \<open>C7: the history of a list is a prefix of its points: the items themselves for a gauge, the rates between
  neighbours otherwise; it is enough exactly when the list has that many points.\<close>

theorem HistoryData_correct:
  assumes "L \<noteq> []" "ji_JudgeType (hd L) \<noteq> []" "1 \<le> limit" "limit < 2 ^ 63 - 1"
  shows "SafeLinkedList_HistoryData L limit =
    (let ps = (if hd (ji_JudgeType (hd L)) \<in> {CHR ''G'', CHR ''g''} then map item_data L
               else map2 rate_data L (tl L))
     in Some (take (nat limit) ps, nat limit \<le> length ps))"
  using assms HistoryData_points [of L limit]
  by (auto simp: typed_def points_def is_gauge_def Let_def)

theorem HistoryData_correct_witness:
  "map_option (\<lambda>(vs, e). (map (\<lambda>p. (hd_Timestamp p, hd_Value p)) vs, e))
     (SafeLinkedList_HistoryData
       (map (\<lambda>t. t\<lparr>ji_JudgeType := ''COUNTER''\<rparr>) [demo_item 120 (Num 7), demo_item 60 (Num 1)]) 1) =
   Some ([(120, f_div (f_sub (Num 7) (Num 1)) (f_of_int 60))], True)"
  by (subst HistoryData_correct)
    (simp_all add: demo_item_def rate_data_def Let_def i64_id int64_range_def)

text \<open>With finite values and non-negative time stamps below 2 to the 53, the history of a list in the order
  that the judge keeps never contains NaN: the divisor of a rate is a positive number of seconds.\<close>

theorem history_not_nan:
  assumes "sorted_wrt (\<lambda>a b. ji_Timestamp b < ji_Timestamp a) L"
    and "\<forall>t \<in> set L. finite_f64 (ji_Value t) \<and> 0 \<le> ji_Timestamp t \<and> ji_Timestamp t < 2 ^ 53"
    and "typed L" "limit < 2 ^ 63 - 1"
    and "SafeLinkedList_HistoryData L limit = Some (vs, isEnough)" "p \<in> set vs"
  shows "\<not> is_nan (hd_Value p)"
proof (cases "1 \<le> limit")
  case True
  with assms(3-6) have "p \<in> set (points L)"
    by (auto simp: HistoryData_points dest: in_set_takeD)
  with points_not_nan [of L p] assms(1,2) show ?thesis
    by (auto simp: newest_first_def timed_def is_nan_def)
next
  case False
  with assms(5,6) show ?thesis by (simp add: HistoryData_bad_limit)
qed

theorem history_not_nan_witness:
  "\<not> is_nan (hd_Value (rate_data (demo_item 120 (Num 7)) (demo_item 60 (Num 1))))"
proof -
  let ?L = "[(demo_item 120 (Num 7))\<lparr>ji_JudgeType := ''COUNTER''\<rparr>, demo_item 60 (Num 1)]"
  have "SafeLinkedList_HistoryData ?L 1 = Some ([rate_data (hd ?L) (demo_item 60 (Num 1))], True)"
    by (subst HistoryData_points) (simp_all add: typed_def points_def is_gauge_def demo_item_def)
  from history_not_nan [OF _ _ _ _ this, of "rate_data (hd ?L) (demo_item 60 (Num 1))"] show ?thesis
    by (simp add: demo_item_def typed_def finite_f64_def is_nan_def is_inf_def rate_data_def)
qed

section \<open>The judge functions\<close>



text \<open>The left value of \<open>max\<close> is one of the values it looked at and not below any of them, and that of \<open>min\<close>
  is one of them and not above any of them, when none of them is NaN.\<close>

theorem max_min_correct:
  assumes "xs \<noteq> []" "NaN \<notin> set xs"
  shows "left_of (MaxFunction n op rv) xs \<in> set xs \<and> (\<forall>x \<in> set xs. f_le x (left_of (MaxFunction n op rv) xs))
    \<and> left_of (MinFunction n op rv) xs \<in> set xs \<and> (\<forall>x \<in> set xs. f_le (left_of (MinFunction n op rv) xs) x)"
  using f_max_list_greatest [OF assms] f_min_list_least [OF assms] by simp

theorem max_min_correct_witness:
  "left_of (MaxFunction 2 ''>'' (Num 2)) [Num 1, Num 3] \<in> {Num 1, Num 3}
   \<and> f_le (Num 3) (left_of (MaxFunction 2 ''>'' (Num 2)) [Num 1, Num 3])"
  using max_min_correct [of "[Num 1, Num 3]" 2 "''>''" "Num 2"] by simp

text \<open>C10: the text of a function, as users write it in a rule, parses back to the function.\<close>

theorem ParseFunc_roundtrip:
  assumes "\<forall>n \<in> set (func_ints f). int64_range n"
  shows "ParseFuncFromString (func_text f) (fn_Operator f) (fn_RightValue f) = Some (Inr f)"
  using assms by (rule Parse_func_text)

theorem ParseFunc_roundtrip_witness:
  "ParseFuncFromString ''kdiff(#3,1)'' ''>'' (Num 2) = Some (Inr (KDiffFunction 3 1 ''>'' (Num 2)))"
proof -
  have "Itoa 3 = ''3''" by code_simp
  then show ?thesis
    using ParseFunc_roundtrip [of "KDiffFunction 3 1 ''>'' (Num 2)"]
    by (simp add: Itoa_one int64_range_def)
qed

text \<open>The parser panics, instead of reporting an error, on a function text without the hash sign whose inside
  is a number, on one that starts with the hash sign, and on a two-argument function with one argument.\<close>

theorem ParseFunc_panics:
  "ParseFuncFromString ''123'' op rv = None \<and> ParseFuncFromString ''#3)'' op rv = None
   \<and> ParseFuncFromString ''lookup(#3)'' op rv = None"
  by (simp add: ParseFuncFromString_def str_index_def slice_sub_def atois_def ParseInt_def parse_nat_def
      digit_value_def func_by_name_def two_args_def slice_get_def Let_def)

section \<open>Alarms\<close>

text \<open>C3: \<open>sendEventIfNeed\<close> refines the alarm automaton: it returns, moves the automaton of the event's identifier by
  one step, leaves every other identifier alone, and pushes exactly the event of the step's notice.\<close>

theorem sendEventIfNeed_refines:
  assumes "events_ok st" "hs \<noteq> []" "ruled e"
  shows "\<exists>st'. sendEventIfNeed cfg hs trig now e maxStep st = Some st' \<and>
    (let no = alarm_next (jc_MinInterval cfg) maxStep (hd_Timestamp (last hs)) trig now (alarm_of st (ev_Id e)) in
       (\<forall>i. alarm_of st' i =
         (if i = ev_Id e then alarm_after (ev_EventTime e) (alarm_of st i) no else alarm_of st i))
       \<and> js_redis st' = js_redis st @ (case no of None \<Rightarrow> [] | Some n \<Rightarrow> pushed cfg (noticed e n)))"
  using sendEventIfNeed_notified [OF assms] alarm_of_notified [OF assms(1)]
  by (auto simp: notified_def Let_def split: option.split)

definition demo_event :: "int \<Rightarrow> f64 \<Rightarrow> Event" where
  "demo_event t v = strategy_event demo_strategy (demo_item t v) v"

theorem sendEventIfNeed_refines_witness:
  "\<exists>st'. sendEventIfNeed demo_config [item_data (demo_item 60 (Num 2))] True 60 (demo_event 60 (Num 2)) 3
       judge_start = Some st' \<and> alarm_of st' (ev_Id (demo_event 60 (Num 2))) = Alarming 1 60"
proof -
  have ok: "events_ok judge_start" using judge_start_inv [of demo_config] by (simp add: judge_inv_def)
  have "alarm_of judge_start i = Quiet" for i
    by (simp add: alarm_of_def judge_start_def InitHistoryBigMap_def SafeEventMap_Get_def)
  with sendEventIfNeed_refines [OF ok, of "[item_data (demo_item 60 (Num 2))]" "demo_event 60 (Num 2)"
      demo_config True 60 3]
  show ?thesis by (auto simp: ruled_def demo_event_def strategy_event_def demo_item_def)
qed




section \<open>Rule selection\<close>

text \<open>C6: an expression received from the heartbeat server whose metric and tags match a point is judged for that
  point, and no expression identifier is judged twice for one point, under whichever of its tags it was
  found.\<close>

theorem expressions_judged_once:
  assumes "gomap_ok (ji_Tags t)" "js_ExpressionMap st = js_ExpressionMap (rebuildExpressionMap xs st0)"
  shows "\<exists>ys. CheckExpression cfg L t now st =
      foldM (\<lambda>st x. judgeItemWithExpression cfg L x t now st) st ys
    \<and> distinct (map ex_Id ys)
    \<and> (\<forall>x \<in> set ys. expression_related t x)
    \<and> (\<forall>x \<in> set xs. ex_Metric x = ji_Metric t \<and> ex_Tags x \<noteq> [] \<and> expression_related t x
         \<longrightarrow> ex_Id x \<in> ex_Id ` set ys)"
proof -
  let ?ys = "first_by_id [] (candidates st t)"
  have cand: "candidates st t = candidates (rebuildExpressionMap xs st0) t"
    by (simp add: candidates_def assms(2))
  have rel: "\<forall>x \<in> set ?ys. expression_related t x"
    using first_by_id_subset [of "[]" "candidates st t"]
    by (auto simp: candidates_def filterRelated_filter split: option.splits)
  have "ex_Id x \<in> ex_Id ` set ?ys"
    if "x \<in> set xs" "ex_Metric x = ji_Metric t" "ex_Tags x \<noteq> []" "expression_related t x" for x
    using rebuilt_candidate [OF assms(1) that] first_by_id_ids [of "[]" "candidates st t"] cand by auto
  with rel show ?thesis
    by (intro exI [of _ ?ys]) (auto simp: CheckExpression_candidates first_by_id_distinct)
qed

theorem expressions_judged_once_witness:
  "\<exists>ys. CheckExpression demo_config [demo_item 60 (Num 2)] (demo_item 60 (Num 2)) 60
        (rebuildExpressionMap [demo_expression] judge_start) =
      foldM (\<lambda>st x. judgeItemWithExpression demo_config [demo_item 60 (Num 2)] x (demo_item 60 (Num 2)) 60 st)
        (rebuildExpressionMap [demo_expression] judge_start) ys
    \<and> 9 \<in> ex_Id ` set ys"
proof -
  have t: "ji_Tags (demo_item 60 (Num 2)) = []" "ji_Metric (demo_item 60 (Num 2)) = ''m''"
    "ji_Endpoint (demo_item 60 (Num 2)) = ''h''"
    by (simp_all add: demo_item_def)
  have "expression_related (demo_item 60 (Num 2)) demo_expression"
    by (simp add: expression_related_def demo_expression_def copyItemTags_def t Let_def)
  with expressions_judged_once [of "demo_item 60 (Num 2)" "rebuildExpressionMap [demo_expression] judge_start"
      "[demo_expression]" judge_start demo_config "[demo_item 60 (Num 2)]" 60] t
  show ?thesis by (fastforce simp: demo_expression_def)
qed

text \<open>C8: after a round of synchronisation the filter lets a point through exactly when some received strategy, or
  some received expression that has a tag, is about its metric.\<close>

theorem filter_matches_rules:
  assumes "judge_reachable cfg st"
  shows "SafeFilterMap_Exists (syncFilter (syncExpression (Inr xs) (syncStrategies (Inr hss) st))) metric \<longleftrightarrow>
    (\<exists>hs \<in> set hss. \<exists>s \<in> set (hs_Strategies hs). st_Metric s = metric)
    \<or> (\<exists>x \<in> set xs. ex_Tags x \<noteq> [] \<and> ex_Metric x = metric)"
proof -
  let ?st = "syncExpression (Inr xs) (syncStrategies (Inr hss) st)"
  have inv: "judge_inv cfg ?st"
    using sync_inv [OF sync_inv(1) [OF judge_reachable_inv [OF assms]]] by blast
  have sm: "js_StrategyMap ?st = js_StrategyMap (rebuildStrategyMap hss st)"
    and em: "js_ExpressionMap ?st = js_ExpressionMap (rebuildExpressionMap xs (rebuildStrategyMap hss st))"
    by (simp_all add: syncExpression_def syncStrategies_def rebuildExpressionMap_def SafeExpressionMap_ReInit_def)
  have "(\<exists>k ss s. m_get (js_StrategyMap ?st) k = Some ss \<and> s \<in> set ss \<and> st_Metric s = metric) \<longleftrightarrow>
      (\<exists>ks \<in> set (strategy_pairs hss). st_Metric (snd ks) = metric)"
    unfolding sm rebuildStrategyMap_pairs by (rule m_appends_values)
  moreover have "(\<exists>k ys x. m_get (js_ExpressionMap ?st) k = Some ys \<and> x \<in> set ys \<and> ex_Metric x = metric) \<longleftrightarrow>
      (\<exists>kx \<in> set (expression_pairs xs). ex_Metric (snd kx) = metric)"
    unfolding em rebuildExpressionMap_pairs by (rule m_appends_values)
  moreover have "(\<exists>ks \<in> set (strategy_pairs hss). st_Metric (snd ks) = metric) \<longleftrightarrow>
      (\<exists>hs \<in> set hss. \<exists>s \<in> set (hs_Strategies hs). st_Metric s = metric)"
    by (auto simp: strategy_pairs_def)
  moreover have "(\<exists>kx \<in> set (expression_pairs xs). ex_Metric (snd kx) = metric) \<longleftrightarrow>
      (\<exists>x \<in> set xs. ex_Tags x \<noteq> [] \<and> ex_Metric x = metric)"
  proof -
    have e: "snd ` set (expression_pairs xs) = {x \<in> set xs. ex_Tags x \<noteq> []}"
      by (auto simp: expression_pairs_def image_UN case_prod_unfold image_image image_constant_conv)
    have "(\<exists>kx \<in> set (expression_pairs xs). ex_Metric (snd kx) = metric) \<longleftrightarrow>
        (\<exists>x \<in> snd ` set (expression_pairs xs). ex_Metric x = metric)" by simp
    then show ?thesis unfolding e by auto
  qed
  ultimately show ?thesis by (simp only: syncFilter_Exists [OF inv])
qed

theorem filter_matches_rules_witness:
  "SafeFilterMap_Exists (syncFilter (syncExpression (Inr [demo_expression]) (syncStrategies (Inr []) judge_start))) ''m''"
  using filter_matches_rules [OF judge_reachable_start, of "[demo_expression]" "[]" "''m''"]
  by (simp add: demo_expression_def)

text \<open>C9: the weekly cleaner runs to its end in every reachable state and removes, from every shard, exactly the
  lists whose newest point is older than a week; the others keep all their points.\<close>

theorem cleaner_removes_stale:
  assumes "judge_reachable cfg st" "m_get (js_HistoryBigMap st) p = Some m"
  shows "\<exists>st' m'. cleanStale now st = Some st' \<and> m_get (js_HistoryBigMap st') p = Some m'
    \<and> (\<forall>k. JudgeItemMap_Get m' k =
        (case JudgeItemMap_Get m k of
           Some (t # L) \<Rightarrow> if ji_Timestamp t < i64 (now - 3600 * 24 * 7) then None else Some (t # L)
         | r \<Rightarrow> r))"
proof -
  have inv: "judge_inv cfg st" by (rule judge_reachable_inv [OF assms(1)])
  then have hist: "history_ok cfg st" by (simp add: judge_inv_def)
  then have "p \<in> set hex_pairs"
    using imageI [OF m_get_SomeD [OF assms(2)], of fst] by (simp add: history_ok_def)
  moreover from cleanStale_total [OF inv] obtain st' where st': "cleanStale now st = Some st'" by blast
  ultimately have "m_get (js_HistoryBigMap st') p =
      Some (JudgeItemMap_CleanStale (i64 (now - 3600 * 24 * 7)) m)"
    using cleanStale_get [OF st'] assms(2) by simp
  moreover have "gomap_ok m"
    using history_okD(1) [OF hist assms(2)] by (simp add: shard_ok_def jim.holds_def)
  ultimately show ?thesis using st' CleanStale_Get [of m] by blast
qed

theorem cleaner_removes_stale_witness:
  "\<exists>st st' m' k. judge_reachable demo_config st
     \<and> m_get (js_HistoryBigMap st) (take 2 k) = Some [(k, [demo_item 60 (Num 2)])]
     \<and> cleanStale 700000 st = Some st' \<and> m_get (js_HistoryBigMap st') (take 2 k) = Some m'
     \<and> JudgeItemMap_Get m' k = None"
proof -
  let ?v = "demo_item 60 (Num 2)"
  let ?k = "JudgeItem_PrimaryKey ?v"
  from demo_sent obtain st where r: "judge_reachable demo_config st"
    and m: "m_get (js_HistoryBigMap st) (take 2 ?k) = Some [(?k, [?v])]" by blast
  from cleaner_removes_stale [OF r m, of 700000] obtain st' m' where
    st': "cleanStale 700000 st = Some st'" "m_get (js_HistoryBigMap st') (take 2 ?k) = Some m'"
    and g: "\<forall>k. JudgeItemMap_Get m' k = (case JudgeItemMap_Get [(?k, [?v])] k of
         Some (t # L) \<Rightarrow> if ji_Timestamp t < i64 (700000 - 3600 * 24 * 7) then None else Some (t # L)
       | r \<Rightarrow> r)" by blast
  have "JudgeItemMap_Get m' ?k = None"
    by (subst g [rule_format]) (simp add: JudgeItemMap_Get_def demo_item_def i64_def)
  with r m st' show ?thesis by blast
qed

end
