(* ===== verification/TransferSender.thy ===== *)
theory TransferSender
  imports CommonModel Interfaces
begin

text \<open>
  The transfer module: configuration (\<open>modules/transfer/g/cfg.go\<close>), the RPC and telnet receivers
  (\<open>receiver/rpc/rpc_transfer.go\<close>, \<open>receiver/socket/socket_telnet.go\<close>), the conversion and
  routing of points to the send queues (\<open>sender/sender.go\<close>), the queues and connection tables
  (\<open>sender/send_queues.go\<close>, \<open>sender/conn_pools.go\<close>) and the send tasks (\<open>sender/send_tasks.go\<close>).

  Third-party code is an argument: the bounded lists of \<open>toolkits/container\<close> are the record
  \<open>queue_ops\<close>, the consistent-hash rings of \<open>toolkits/consistent\<close> are functions from a key to a
  node or an error, and the outcome of an RPC is given per attempt.
\<close>

section \<open>Configuration\<close>

record ClusterNode =
  cn_Addrs :: "string list"

record RouteConfig =
  rc_Enabled :: bool
  rc_Batch :: int
  rc_MaxConns :: int
  rc_Replicas :: int
  rc_Cluster :: "(string, string) gomap"
  rc_ClusterList :: "(string, ClusterNode) gomap"

record P8sRelayConfig = RouteConfig +
  rc_NotSyncMetrics :: "string list"

record TsdbConfig =
  tb_Enabled :: bool
  tb_Batch :: int
  tb_MaxConns :: int
  tb_MaxRetry :: int

record TransferConfig =
  tf_Enabled :: bool
  tf_Batch :: int
  tf_MaxConns :: int
  tf_MaxRetry :: int
  tf_Cluster :: "(string, string) gomap"

record InfluxdbConfig =
  ix_Enabled :: bool
  ix_Batch :: int
  ix_MaxRetry :: int
  ix_MaxConns :: int

record GlobalConfig =
  gc_MinStep :: int
  gc_Judge :: RouteConfig
  gc_Graph :: RouteConfig
  gc_Tsdb :: TsdbConfig
  gc_Transfer :: TransferConfig
  gc_Influxdb :: InfluxdbConfig
  gc_P8sRelay :: P8sRelayConfig

definition NewClusterNode :: "string list \<Rightarrow> ClusterNode" where
  "NewClusterNode addrs = \<lparr> cn_Addrs = addrs \<rparr>"

definition formatClusterItems :: "(string, string) gomap \<Rightarrow> (string, ClusterNode) gomap" where
  "formatClusterItems cluster =
     foldl (\<lambda>ret (node, clusterStr).
       m_set node (NewClusterNode (map str_trim_space (str_split comma clusterStr))) ret) [] cluster"

text \<open>The part of \<open>ParseConfig\<close> after the JSON text has been read.\<close>

definition split_clusters :: "GlobalConfig \<Rightarrow> GlobalConfig" where
  "split_clusters c = c\<lparr>
     gc_Judge := (gc_Judge c)\<lparr>rc_ClusterList := formatClusterItems (rc_Cluster (gc_Judge c))\<rparr>,
     gc_Graph := (gc_Graph c)\<lparr>rc_ClusterList := formatClusterItems (rc_Cluster (gc_Graph c))\<rparr>,
     gc_P8sRelay := (gc_P8sRelay c)\<lparr>rc_ClusterList := formatClusterItems (rc_Cluster (gc_P8sRelay c))\<rparr>\<rparr>"

text \<open>\<open>g.GAUGE\<close>, \<open>g.COUNTER\<close>, \<open>g.DERIVE\<close> and \<open>g.DEFAULT_STEP\<close>.\<close>

abbreviation GAUGE :: string where "GAUGE \<equiv> ''GAUGE''"
abbreviation COUNTER :: string where "COUNTER \<equiv> ''COUNTER''"
abbreviation DERIVE :: string where "DERIVE \<equiv> ''DERIVE''"
abbreviation DEFAULT_STEP :: int where "DEFAULT_STEP \<equiv> 60"
abbreviation DefaultSendQueueMaxSize :: int where "DefaultSendQueueMaxSize \<equiv> 102400"

section \<open>Queues, counters and state\<close>

text \<open>What a \<open>SafeListLimited\<close> holds: an \<open>interface{}\<close> with one of these dynamic types.\<close>

datatype qitem =
    QJudge JudgeItem | QGraph GraphItem | QTsdb TsdbItem | QMeta MetaData
  | QInflux InfluxdbItem | QP8s P8sItem

record 'q queue_ops =
  NewSafeListLimited :: "int \<Rightarrow> 'q"
  q_PushFront :: "qitem \<Rightarrow> 'q \<Rightarrow> bool \<times> 'q"
  q_PopBackBy :: "int \<Rightarrow> 'q \<Rightarrow> qitem list \<times> 'q"
  q_Len :: "'q \<Rightarrow> int"

datatype counter =
    RecvCnt | RpcRecvCnt | HttpRecvCnt | SocketRecvCnt
  | SendToJudgeCnt | SendToTsdbCnt | SendToGraphCnt | SendToTransferCnt | SendToInfluxdbCnt | SendToP8sRelayCnt
  | SendToJudgeDropCnt | SendToTsdbDropCnt | SendToGraphDropCnt | SendToTransferDropCnt
  | SendToInfluxdbDropCnt | SendToP8sRelayDropCnt
  | SendToJudgeFailCnt | SendToTsdbFailCnt | SendToGraphFailCnt | SendToTransferFailCnt
  | SendToInfluxdbFailCnt | SendToP8sRelayFailCnt
  | JudgeQueuesCnt | TsdbQueuesCnt | GraphQueuesCnt | TransferQueuesCnt | P8sRelayQueuesCnt

record 'q Transfer_state =
  MinStep :: int
  JudgeQueues :: "(string, 'q) gomap"
  GraphQueues :: "(string, 'q) gomap"
  P8sRelayQueues :: "(string, 'q) gomap"
  TsdbQueue :: "'q option"
  TransferQueue :: "'q option"
  InfluxdbQueue :: "'q option"
  TransferMap :: "(string, string) gomap"
  TransferHostnames :: "string list"
  counters :: "counter \<Rightarrow> int"

definition incr_by :: "counter \<Rightarrow> int \<Rightarrow> 'q Transfer_state \<Rightarrow> 'q Transfer_state" where
  "incr_by c n st = st\<lparr>counters := (counters st)(c := counters st c + n)\<rparr>"

definition set_cnt :: "counter \<Rightarrow> int \<Rightarrow> 'q Transfer_state \<Rightarrow> 'q Transfer_state" where
  "set_cnt c n st = st\<lparr>counters := (counters st)(c := n)\<rparr>"

text \<open>The rings: \<open>GetNode\<close> of the judge, graph and relay ring.\<close>

type_synonym ring = "string \<Rightarrow> goerror + string"

record rings =
  JudgeNodeRing :: ring
  GraphNodeRing :: ring
  P8sRelayNodeRing :: ring

definition initNodeRings :: "(int \<Rightarrow> string list \<Rightarrow> ring) \<Rightarrow> GlobalConfig \<Rightarrow> rings" where
  "initNodeRings NewConsistentHashNodesRing cfg =
     \<lparr> JudgeNodeRing = NewConsistentHashNodesRing (rc_Replicas (gc_Judge cfg)) (KeysOfMap (rc_Cluster (gc_Judge cfg))),
       GraphNodeRing = NewConsistentHashNodesRing (rc_Replicas (gc_Graph cfg)) (KeysOfMap (rc_Cluster (gc_Graph cfg))),
       P8sRelayNodeRing = NewConsistentHashNodesRing (rc_Replicas (gc_P8sRelay cfg)) (KeysOfMap (rc_Cluster (gc_P8sRelay cfg))) \<rparr>"

text \<open>One queue per node and address of a cluster list.\<close>

definition cluster_queues ::
  "'q queue_ops \<Rightarrow> (string, ClusterNode) gomap \<Rightarrow> (string, 'q) gomap \<Rightarrow> (string, 'q) gomap" where
  "cluster_queues ops cl qs =
     foldl (\<lambda>qs (node, nitem).
       foldl (\<lambda>qs addr. m_set (node @ addr) (NewSafeListLimited ops DefaultSendQueueMaxSize) qs) qs (cn_Addrs nitem))
       qs cl"

definition initSendQueues :: "'q queue_ops \<Rightarrow> GlobalConfig \<Rightarrow> 'q Transfer_state \<Rightarrow> 'q Transfer_state" where
  "initSendQueues ops cfg st =
     (let newQ = NewSafeListLimited ops DefaultSendQueueMaxSize in
      st\<lparr>JudgeQueues := foldl (\<lambda>qs (node, _). m_set node newQ qs) (JudgeQueues st) (rc_Cluster (gc_Judge cfg)),
         GraphQueues := cluster_queues ops (rc_ClusterList (gc_Graph cfg)) (GraphQueues st),
         P8sRelayQueues := (if rc_Enabled (gc_P8sRelay cfg)
            then cluster_queues ops (rc_ClusterList (gc_P8sRelay cfg)) (P8sRelayQueues st) else P8sRelayQueues st),
         TsdbQueue := (if tb_Enabled (gc_Tsdb cfg) then Some newQ else TsdbQueue st),
         TransferQueue := (if tf_Enabled (gc_Transfer cfg) then Some newQ else TransferQueue st),
         InfluxdbQueue := (if ix_Enabled (gc_Influxdb cfg) then Some newQ else InfluxdbQueue st)\<rparr>)"

text \<open>The tables \<open>initConnPools\<close> fills for the transfer cluster; the pools are third-party.\<close>

definition initTransferHosts :: "GlobalConfig \<Rightarrow> 'q Transfer_state \<Rightarrow> 'q Transfer_state" where
  "initTransferHosts cfg st =
     (if tf_Enabled (gc_Transfer cfg) then
        foldl (\<lambda>st (hn, inst).
          st\<lparr>TransferHostnames := TransferHostnames st @ [hn], TransferMap := m_set hn inst (TransferMap st)\<rparr>)
          st (tf_Cluster (gc_Transfer cfg))
      else st)"

definition Transfer_start :: "'q queue_ops \<Rightarrow> GlobalConfig \<Rightarrow> 'q Transfer_state \<Rightarrow> 'q Transfer_state" where
  "Transfer_start ops cfg st =
     (let m = gc_MinStep cfg;
          st1 = st\<lparr>MinStep := (if m < 1 then 30 else m)\<rparr>
      in initSendQueues ops cfg (initTransferHosts cfg st1))"

section \<open>Conversions\<close>

text \<open>\<open>ts % period\<close> panics when the period is zero.\<close>

definition alignTs :: "int \<Rightarrow> int \<Rightarrow> int go" where
  "alignTs ts period = (if period = 0 then None else Some (ts - ts smod period))"

definition min_step :: "int \<Rightarrow> int \<Rightarrow> int" where
  "min_step minStep step = (if step < minStep then minStep else step)"

definition convert2P8sRelayItem :: "int \<Rightarrow> MetaData \<Rightarrow> (goerror + P8sItem) go" where
  "convert2P8sRelayItem minStep d =
     (let step = min_step minStep (md_Step d);
          val = (case ParseFloat (FormatFloat 3 (md_Value d)) of Inr v \<Rightarrow> v | Inl _ \<Rightarrow> Zero False)
      in if md_CounterType d \<noteq> GAUGE \<and> md_CounterType d \<noteq> COUNTER
         then Some (Inl ''not_supported_counter_type'')
         else do {
           ts \<leftarrow> alignTs (md_Timestamp d) step;
           Some (Inr \<lparr> p8_Endpoint = md_Endpoint d, p8_Metric = md_Metric d, p8_Tags = md_Tags d,
             p8_Value = val, p8_Timestamp = ts, p8_MetricType = md_CounterType d, p8_Step = step \<rparr>) })"

definition convert2GraphItem :: "int \<Rightarrow> MetaData \<Rightarrow> (goerror + GraphItem) go" where
  "convert2GraphItem minStep d =
     (let step = min_step minStep (md_Step d);
          item = (\<lambda>dsType mn mx ts. \<lparr> gi_Endpoint = md_Endpoint d, gi_Metric = md_Metric d, gi_Tags = md_Tags d,
            gi_Value = md_Value d, gi_Timestamp = ts, gi_DsType = dsType, gi_Step = step,
            gi_Heartbeat = i64 (step * 2), gi_Min = mn, gi_Max = mx \<rparr>)
      in if md_CounterType d = GAUGE then do {
           ts \<leftarrow> alignTs (md_Timestamp d) step; Some (Inr (item GAUGE ''U'' ''U'' ts)) }
         else if md_CounterType d = COUNTER \<or> md_CounterType d = DERIVE then do {
           ts \<leftarrow> alignTs (md_Timestamp d) step; Some (Inr (item DERIVE ''0'' ''U'' ts)) }
         else Some (Inl ''not_supported_counter_type''))"

definition copy_tags :: "tags \<Rightarrow> tags" where
  "copy_tags m = foldl (\<lambda>t (k, v). m_set k v t) [] m"

definition convert2TsdbItem :: "MetaData \<Rightarrow> TsdbItem" where
  "convert2TsdbItem d =
     \<lparr> ts_Metric = md_Metric d, ts_Tags = m_set ''endpoint'' (md_Endpoint d) (copy_tags (md_Tags d)),
       ts_Value = md_Value d, ts_Timestamp = md_Timestamp d \<rparr>"

definition convert2InfluxdbItem :: "MetaData \<Rightarrow> InfluxdbItem" where
  "convert2InfluxdbItem d =
     \<lparr> in_Measurement = md_Metric d, in_Tags = m_set ''endpoint'' (md_Endpoint d) (copy_tags (md_Tags d)),
       in_Fileds = m_set ''value'' (VFloat (md_Value d)) [], in_Timestamp = md_Timestamp d \<rparr>"

text \<open>The point forwarded to another transfer.\<close>

definition convert :: "MetaData \<Rightarrow> MetricValue" where
  "convert v = \<lparr> mv_Endpoint = md_Endpoint v, mv_Metric = md_Metric v, mv_Value = VFloat (md_Value v),
     mv_Step = md_Step v, mv_Type = md_CounterType v, mv_Tags = SortedTags (md_Tags v),
     mv_Timestamp = md_Timestamp v \<rparr>"

section \<open>Pushing to the queues\<close>

text \<open>A queue that is not in the map is \<open>nil\<close>, and \<open>PushFront\<close> on it panics.\<close>

definition push_at ::
  "'q queue_ops \<Rightarrow> string \<Rightarrow> qitem \<Rightarrow> (string, 'q) gomap \<Rightarrow> (bool \<times> (string, 'q) gomap) go" where
  "push_at ops key x qs = do {
     q \<leftarrow> m_get qs key;
     let (ok, q') = q_PushFront ops x q in Some (ok, m_set key q' qs) }"

definition Push2Judge_item ::
  "'q queue_ops \<Rightarrow> rings \<Rightarrow> 'q Transfer_state \<Rightarrow> MetaData \<Rightarrow> 'q Transfer_state go" where
  "Push2Judge_item ops rs st item =
     (case JudgeNodeRing rs (MetaData_PK item) of
        Inl err \<Rightarrow> Some st
      | Inr node \<Rightarrow> do {
          ts \<leftarrow> alignTs (md_Timestamp item) (min_step (MinStep st) (md_Step item));
          let judgeItem = \<lparr> ji_Endpoint = md_Endpoint item, ji_Metric = md_Metric item,
                ji_Value = md_Value item, ji_Timestamp = ts, ji_JudgeType = md_CounterType item,
                ji_Tags = md_Tags item \<rparr> in do {
          (isSuccess, qs) \<leftarrow> push_at ops node (QJudge judgeItem) (JudgeQueues st);
          let st1 = st\<lparr>JudgeQueues := qs\<rparr> in
          Some (if isSuccess then st1 else incr_by SendToJudgeDropCnt 1 st1) } })"

definition Push2JudgeSendQueue ::
  "'q queue_ops \<Rightarrow> rings \<Rightarrow> MetaData list \<Rightarrow> 'q Transfer_state \<Rightarrow> 'q Transfer_state go" where
  "Push2JudgeSendQueue ops rs items st = foldM (Push2Judge_item ops rs) st items"

text \<open>One copy per address of the node; \<open>errCnt\<close> counts the full queues.\<close>

definition push_copies ::
  "'q queue_ops \<Rightarrow> string \<Rightarrow> qitem \<Rightarrow> int \<times> (string, 'q) gomap \<Rightarrow> string \<Rightarrow> (int \<times> (string, 'q) gomap) go" where
  "push_copies ops node x = (\<lambda>(errCnt, qs) addr. do {
     (ok, qs') \<leftarrow> push_at ops (node @ addr) x qs;
     Some (if ok then errCnt else errCnt + 1, qs') })"

definition Push2Graph_item ::
  "'q queue_ops \<Rightarrow> rings \<Rightarrow> GlobalConfig \<Rightarrow> 'q Transfer_state \<Rightarrow> MetaData \<Rightarrow> 'q Transfer_state go" where
  "Push2Graph_item ops rs cfg st item = do {
     r \<leftarrow> convert2GraphItem (MinStep st) item;
     case r of
       Inl err \<Rightarrow> Some st
     | Inr graphItem \<Rightarrow>
         (case GraphNodeRing rs (MetaData_PK item) of
            Inl err \<Rightarrow> Some st
          | Inr node \<Rightarrow> do {
              cnode \<leftarrow> m_get (rc_ClusterList (gc_Graph cfg)) node;
              (errCnt, qs) \<leftarrow> foldM (push_copies ops node (QGraph graphItem)) (0, GraphQueues st) (cn_Addrs cnode);
              let st1 = st\<lparr>GraphQueues := qs\<rparr> in
              Some (if errCnt > 0 then incr_by SendToGraphDropCnt 1 st1 else st1) }) }"

definition Push2GraphSendQueue ::
  "'q queue_ops \<Rightarrow> rings \<Rightarrow> GlobalConfig \<Rightarrow> MetaData list \<Rightarrow> 'q Transfer_state \<Rightarrow> 'q Transfer_state go" where
  "Push2GraphSendQueue ops rs cfg items st = foldM (Push2Graph_item ops rs cfg) st items"

definition Push2P8s_item ::
  "'q queue_ops \<Rightarrow> rings \<Rightarrow> GlobalConfig \<Rightarrow> 'q Transfer_state \<Rightarrow> MetaData \<Rightarrow> 'q Transfer_state go" where
  "Push2P8s_item ops rs cfg st item =
     (if \<exists>m \<in> set (rc_NotSyncMetrics (gc_P8sRelay cfg)). prefix m (md_Metric item) then Some st
      else do {
        r \<leftarrow> convert2P8sRelayItem (MinStep st) item;
        case r of
          Inl err \<Rightarrow> Some st
        | Inr p8sItem \<Rightarrow>
            (case P8sRelayNodeRing rs (MetaData_PK item) of
               Inl err \<Rightarrow> Some st
             | Inr node \<Rightarrow> do {
                 cnode \<leftarrow> m_get (rc_ClusterList (gc_P8sRelay cfg)) node;
                 (errCnt, qs) \<leftarrow> foldM (push_copies ops node (QP8s p8sItem)) (0, P8sRelayQueues st) (cn_Addrs cnode);
                 let st1 = st\<lparr>P8sRelayQueues := qs\<rparr> in
                 Some (if errCnt > 0 then incr_by SendToP8sRelayDropCnt 1 st1 else st1) }) })"

definition Push2P8sRelaySendQueue ::
  "'q queue_ops \<Rightarrow> rings \<Rightarrow> GlobalConfig \<Rightarrow> MetaData list \<Rightarrow> 'q Transfer_state \<Rightarrow> 'q Transfer_state go" where
  "Push2P8sRelaySendQueue ops rs cfg items st = foldM (Push2P8s_item ops rs cfg) st items"

text \<open>The single queues of the other sinks.\<close>

definition Push2TsdbSendQueue ::
  "'q queue_ops \<Rightarrow> MetaData list \<Rightarrow> 'q Transfer_state \<Rightarrow> 'q Transfer_state go" where
  "Push2TsdbSendQueue ops items st = foldM (\<lambda>st item. do {
     q \<leftarrow> TsdbQueue st;
     let (isSuccess, q') = q_PushFront ops (QTsdb (convert2TsdbItem item)) q; st1 = st\<lparr>TsdbQueue := Some q'\<rparr> in
     Some (if isSuccess then st1 else incr_by SendToTsdbDropCnt 1 st1) }) st items"

definition Push2TransferSendQueue ::
  "'q queue_ops \<Rightarrow> MetaData list \<Rightarrow> 'q Transfer_state \<Rightarrow> 'q Transfer_state go" where
  "Push2TransferSendQueue ops items st = foldM (\<lambda>st item. do {
     q \<leftarrow> TransferQueue st;
     let (isSuccess, q') = q_PushFront ops (QMeta item) q; st1 = st\<lparr>TransferQueue := Some q'\<rparr> in
     Some (if isSuccess then st1 else incr_by SendToTransferDropCnt 1 st1) }) st items"

definition Push2InfluxdbSendQueue ::
  "'q queue_ops \<Rightarrow> MetaData list \<Rightarrow> 'q Transfer_state \<Rightarrow> 'q Transfer_state go" where
  "Push2InfluxdbSendQueue ops items st = foldM (\<lambda>st item. do {
     q \<leftarrow> InfluxdbQueue st;
     let (isSuccess, q') = q_PushFront ops (QInflux (convert2InfluxdbItem item)) q; st1 = st\<lparr>InfluxdbQueue := Some q'\<rparr> in
     Some (if isSuccess then st1 else incr_by SendToInfluxdbDropCnt 1 st1) }) st items"

end
