(* ===== verification/TransferFlow.thy ===== *)
theory TransferFlow
  imports TransferSender
begin

text \<open>
  The two ends of the transfer module: the receivers that turn what agents send into points
  (\<open>receiver/rpc/rpc_transfer.go\<close>, \<open>receiver/socket/socket_telnet.go\<close>) and the send tasks that
  drain the queues (\<open>sender/send_tasks.go\<close>, \<open>sender/sender_cron.go\<close>).  The clock, the latency and
  the outcome of every RPC attempt are arguments.
\<close>

section \<open>The RPC receiver\<close>

text \<open>One metric value: \<open>None\<close> stands for the branches that count it as invalid and go on.\<close>

definition value_of :: "goval \<Rightarrow> f64 option" where
  "value_of v = (case v of
     VString cv \<Rightarrow> (case ParseFloat cv of Inl err \<Rightarrow> None | Inr x \<Rightarrow> Some x)
   | VFloat x \<Rightarrow> Some x
   | VInt64 n \<Rightarrow> Some (f_of_int n)
   | _ \<Rightarrow> None)"

definition recv_value :: "int \<Rightarrow> MetricValue option \<Rightarrow> MetaData option" where
  "recv_value now pv =
     (case pv of
        None \<Rightarrow> None
      | Some v \<Rightarrow>
          if mv_Metric v = ''kernel.hostname'' then None
          else if mv_Metric v = [] \<or> mv_Endpoint v = [] then None
          else if mv_Type v \<noteq> COUNTER \<and> mv_Type v \<noteq> GAUGE \<and> mv_Type v \<noteq> DERIVE then None
          else if mv_Value v = VString [] then None
          else if mv_Step v \<le> 0 then None
          else if int (length (mv_Metric v)) + int (length (mv_Tags v)) > 510 then None
          else
            let ts = (if mv_Timestamp v \<le> 0 \<or> mv_Timestamp v > i64 (now * 2) then now else mv_Timestamp v) in
            (case value_of (mv_Value v) of
               None \<Rightarrow> None
             | Some vv \<Rightarrow> Some \<lparr> md_Metric = mv_Metric v, md_Endpoint = mv_Endpoint v, md_Timestamp = ts,
                 md_Step = mv_Step v, md_Value = vv, md_CounterType = mv_Type v,
                 md_Tags = DictedTagstring (mv_Tags v) \<rparr>))"

fun recv_loop :: "int \<Rightarrow> int \<times> MetaData list \<Rightarrow> MetricValue option list \<Rightarrow> int \<times> MetaData list" where
  "recv_loop now (invalid, items) [] = (invalid, items)"
| "recv_loop now (invalid, items) (v # vs) =
     (case recv_value now v of
        None \<Rightarrow> recv_loop now (invalid + 1, items) vs
      | Some fv \<Rightarrow> recv_loop now (invalid, items @ [fv]) vs)"

definition if_do :: "bool \<Rightarrow> ('s \<Rightarrow> 's go) \<Rightarrow> 's \<Rightarrow> 's go" where
  "if_do b f s = (if b then f s else Some s)"

definition RecvMetricValues ::
  "'q queue_ops \<Rightarrow> rings \<Rightarrow> GlobalConfig \<Rightarrow> int \<Rightarrow> int \<Rightarrow> MetricValue option list \<Rightarrow> string
     \<Rightarrow> 'q Transfer_state \<Rightarrow> (TransferResponse \<times> 'q Transfer_state) go" where
  "RecvMetricValues ops rs cfg now latency args from st =
     (let (invalid, items) = recv_loop now (0, []) args;
          cnt = int (length items);
          st1 = incr_by RecvCnt cnt st;
          st2 = (if from = ''rpc'' then incr_by RpcRecvCnt cnt st1
                 else if from = ''http'' then incr_by HttpRecvCnt cnt st1 else st1)
      in do {
        st3 \<leftarrow> if_do (rc_Enabled (gc_Graph cfg)) (Push2GraphSendQueue ops rs cfg items) st2;
        st4 \<leftarrow> if_do (rc_Enabled (gc_Judge cfg)) (Push2JudgeSendQueue ops rs items) st3;
        st5 \<leftarrow> if_do (tb_Enabled (gc_Tsdb cfg)) (Push2TsdbSendQueue ops items) st4;
        st6 \<leftarrow> if_do (tf_Enabled (gc_Transfer cfg)) (Push2TransferSendQueue ops items) st5;
        st7 \<leftarrow> if_do (ix_Enabled (gc_Influxdb cfg)) (Push2InfluxdbSendQueue ops items) st6;
        st8 \<leftarrow> if_do (rc_Enabled (gc_P8sRelay cfg)) (Push2P8sRelaySendQueue ops rs cfg items) st7;
        Some (\<lparr> tr_Message = ''ok'', tr_Total = int (length args), tr_Invalid = invalid, tr_Latency = latency \<rparr>,
              st8) })"

definition Transfer_Update ::
  "'q queue_ops \<Rightarrow> rings \<Rightarrow> GlobalConfig \<Rightarrow> int \<Rightarrow> int \<Rightarrow> MetricValue option list
     \<Rightarrow> 'q Transfer_state \<Rightarrow> (TransferResponse \<times> 'q Transfer_state) go" where
  "Transfer_Update ops rs cfg now latency args st = RecvMetricValues ops rs cfg now latency args ''rpc'' st"

section \<open>The telnet receiver\<close>

text \<open>The index of every access is below the length just tested, so the fields are matched directly.\<close>

definition line_step :: "string list \<Rightarrow> goerror + int" where
  "line_step flds =
     (if length flds = 6 then
        let dst_args = str_split (CHR '':'') (flds ! 5) in
        if length dst_args = 1 then ParseInt 10 64 (dst_args ! 0)
        else if length dst_args = 4 then ParseInt 10 64 (dst_args ! 3)
        else Inl ''invalid_counter_step''
      else Inr DEFAULT_STEP)"

definition convertLine2MetaData :: "string list \<Rightarrow> goerror + MetaData" where
  "convertLine2MetaData flds =
     (if length flds \<noteq> 4 \<and> length flds \<noteq> 5 \<and> length flds \<noteq> 6 then Inl ''not_enough_fileds''
      else case ParseInt 10 64 (flds ! 2) of
        Inl err \<Rightarrow> Inl err
      | Inr ts \<Rightarrow> (case ParseFloat (flds ! 3) of
          Inl err \<Rightarrow> Inl err
        | Inr v \<Rightarrow>
            let typ = (if length flds \<ge> 5 then flds ! 4 else COUNTER) in
            if typ \<noteq> DERIVE \<and> typ \<noteq> GAUGE \<and> typ \<noteq> COUNTER then Inl ''invalid_counter_type''
            else (case line_step flds of
              Inl err \<Rightarrow> Inl err
            | Inr step \<Rightarrow> Inr \<lparr> md_Metric = flds ! 1, md_Endpoint = flds ! 0, md_Timestamp = ts,
                md_Step = step, md_Value = v, md_CounterType = typ, md_Tags = [] \<rparr>)))"

text \<open>\<open>ReadString\<close> hands out complete lines; what follows the last newline ends with an error.\<close>

definition telnet_lines :: "string \<Rightarrow> string list" where
  "telnet_lines input = butlast (str_split (CHR 0x0A) input)"

fun telnet_loop :: "MetaData list \<Rightarrow> string list \<Rightarrow> MetaData list" where
  "telnet_loop items [] = items"
| "telnet_loop items (line # lines) =
     (if line = ''quit'' then items
      else if line = [] then telnet_loop items lines
      else case str_fields line of
        cmd # f # fs \<Rightarrow>
          if cmd \<noteq> ''update'' then telnet_loop items lines
          else (case convertLine2MetaData (f # fs) of
                  Inl err \<Rightarrow> telnet_loop items lines
                | Inr item \<Rightarrow> telnet_loop (items @ [item]) lines)
      | _ \<Rightarrow> telnet_loop items lines)"

definition socketTelnetHandle ::
  "'q queue_ops \<Rightarrow> rings \<Rightarrow> GlobalConfig \<Rightarrow> string \<Rightarrow> 'q Transfer_state \<Rightarrow> 'q Transfer_state go" where
  "socketTelnetHandle ops rs cfg input st =
     (let items = telnet_loop [] (telnet_lines input);
          n = int (length items);
          st1 = incr_by RecvCnt n (incr_by SocketRecvCnt n st)
      in do {
        st2 \<leftarrow> if_do (rc_Enabled (gc_Graph cfg)) (Push2GraphSendQueue ops rs cfg items) st1;
        st3 \<leftarrow> if_do (rc_Enabled (gc_Judge cfg)) (Push2JudgeSendQueue ops rs items) st2;
        st4 \<leftarrow> if_do (tf_Enabled (gc_Transfer cfg)) (Push2TransferSendQueue ops items) st3;
        if_do (rc_Enabled (gc_P8sRelay cfg)) (Push2P8sRelaySendQueue ops rs cfg items) st4 })"

section \<open>Send tasks\<close>

text \<open>
  The retry loop: \<open>outcome k\<close> is whether the call number \<open>k\<close> succeeds; the result is whether one
  succeeded and how many calls were made.
\<close>

fun try_send :: "nat \<Rightarrow> nat \<Rightarrow> (nat \<Rightarrow> bool) \<Rightarrow> bool \<times> nat" where
  "try_send 0 k outcome = (False, k)"
| "try_send (Suc n) k outcome = (if outcome k then (True, Suc k) else try_send n (Suc k) outcome)"

definition as_judge :: "qitem \<Rightarrow> JudgeItem go" where
  "as_judge x = (case x of QJudge t \<Rightarrow> Some t | _ \<Rightarrow> None)"

definition as_graph :: "qitem \<Rightarrow> GraphItem go" where
  "as_graph x = (case x of QGraph t \<Rightarrow> Some t | _ \<Rightarrow> None)"

definition as_p8s :: "qitem \<Rightarrow> P8sItem go" where
  "as_p8s x = (case x of QP8s t \<Rightarrow> Some t | _ \<Rightarrow> None)"

definition as_meta :: "qitem \<Rightarrow> MetaData go" where
  "as_meta x = (case x of QMeta t \<Rightarrow> Some t | _ \<Rightarrow> None)"

definition as_tsdb :: "qitem \<Rightarrow> TsdbItem go" where
  "as_tsdb x = (case x of QTsdb t \<Rightarrow> Some t | _ \<Rightarrow> None)"

definition as_influxdb :: "qitem \<Rightarrow> InfluxdbItem go" where
  "as_influxdb x = (case x of QInflux t \<Rightarrow> Some t | _ \<Rightarrow> None)"

fun mapM :: "('a \<Rightarrow> 'b go) \<Rightarrow> 'a list \<Rightarrow> 'b list go" where
  "mapM f [] = Some []"
| "mapM f (x # xs) = do { y \<leftarrow> f x; ys \<leftarrow> mapM f xs; Some (y # ys) }"

text \<open>
  One round of a forwarding task on the queue of a node: at most \<open>batch\<close> items are taken, asserted
  to the item type, and sent in at most three attempts.  The result has the batch that was handed
  to the calls and whether it was sent; \<open>None\<close> in its first part means the task sleeps.
\<close>

definition forward_round ::
  "'q queue_ops \<Rightarrow> (qitem \<Rightarrow> 'a go) \<Rightarrow> int \<Rightarrow> (nat \<Rightarrow> bool) \<Rightarrow> 'q \<Rightarrow> (('a list \<times> bool) option \<times> 'q) go" where
  "forward_round ops cast batch outcome q =
     (let (items, q') = q_PopBackBy ops batch q in
      if length items = 0 then Some (None, q')
      else do {
        xs \<leftarrow> mapM cast items;
        Some (Some (xs, fst (try_send 3 0 outcome)), q') })"

definition forward2Judge_round ::
  "'q queue_ops \<Rightarrow> GlobalConfig \<Rightarrow> string \<Rightarrow> (nat \<Rightarrow> bool) \<Rightarrow> 'q Transfer_state
     \<Rightarrow> (JudgeItem list option \<times> 'q Transfer_state) go" where
  "forward2Judge_round ops cfg node outcome st = do {
     q \<leftarrow> m_get (JudgeQueues st) node;
     (r, q') \<leftarrow> forward_round ops as_judge (rc_Batch (gc_Judge cfg)) outcome q;
     let st1 = st\<lparr>JudgeQueues := m_set node q' (JudgeQueues st)\<rparr> in
     Some (case r of
       None \<Rightarrow> (None, st1)
     | Some (xs, sendOk) \<Rightarrow>
         if \<not> sendOk then (None, incr_by SendToJudgeFailCnt (int (length xs)) st1)
         else (Some xs, incr_by SendToJudgeCnt (int (length xs)) st1)) }"

definition forward2Graph_round ::
  "'q queue_ops \<Rightarrow> GlobalConfig \<Rightarrow> string \<Rightarrow> string \<Rightarrow> (nat \<Rightarrow> bool) \<Rightarrow> 'q Transfer_state
     \<Rightarrow> (GraphItem list option \<times> 'q Transfer_state) go" where
  "forward2Graph_round ops cfg node addr outcome st = do {
     q \<leftarrow> m_get (GraphQueues st) (node @ addr);
     (r, q') \<leftarrow> forward_round ops as_graph (rc_Batch (gc_Graph cfg)) outcome q;
     let st1 = st\<lparr>GraphQueues := m_set (node @ addr) q' (GraphQueues st)\<rparr> in
     Some (case r of
       None \<Rightarrow> (None, st1)
     | Some (xs, sendOk) \<Rightarrow>
         if \<not> sendOk then (None, incr_by SendToGraphFailCnt (int (length xs)) st1)
         else (Some xs, incr_by SendToGraphCnt (int (length xs)) st1)) }"

definition forward2P8sRelay_round ::
  "'q queue_ops \<Rightarrow> GlobalConfig \<Rightarrow> string \<Rightarrow> string \<Rightarrow> (nat \<Rightarrow> bool) \<Rightarrow> 'q Transfer_state
     \<Rightarrow> (P8sItem list option \<times> 'q Transfer_state) go" where
  "forward2P8sRelay_round ops cfg node addr outcome st = do {
     q \<leftarrow> m_get (P8sRelayQueues st) (node @ addr);
     (r, q') \<leftarrow> forward_round ops as_p8s (rc_Batch (gc_P8sRelay cfg)) outcome q;
     let st1 = st\<lparr>P8sRelayQueues := m_set (node @ addr) q' (P8sRelayQueues st)\<rparr> in
     Some (case r of
       None \<Rightarrow> (None, st1)
     | Some (xs, sendOk) \<Rightarrow>
         if \<not> sendOk then (None, incr_by SendToP8sRelayFailCnt (int (length xs)) st1)
         else (Some xs, incr_by SendToP8sRelayCnt (int (length xs)) st1)) }"

text \<open>
  Forwarding to another transfer: \<open>retry\<close> passes over the hosts, pass \<open>j\<close> starting at the random offset
  \<open>rint j\<close>.  The log has the calls made: the host and whether it succeeded.  \<open>busy j host\<close> is the
  connection count the performance counter reports, \<open>call j host\<close> the outcome of the call.
\<close>

fun transfer_pass ::
  "string list \<Rightarrow> int \<Rightarrow> int \<Rightarrow> (string \<Rightarrow> int) \<Rightarrow> (string \<Rightarrow> bool) \<Rightarrow> int list \<Rightarrow> (string \<times> bool) list go" where
  "transfer_pass hosts rint maxConns busy call [] = Some []"
| "transfer_pass hosts rint maxConns busy call (i # is) = do {
     host \<leftarrow> slice_get hosts (i64 (i + rint) smod int (length hosts));
     if busy host \<ge> maxConns then transfer_pass hosts rint maxConns busy call is
     else if call host then Some [(host, True)]
     else do { cs \<leftarrow> transfer_pass hosts rint maxConns busy call is; Some ((host, False) # cs) } }"

fun transfer_passes ::
  "string list \<Rightarrow> (nat \<Rightarrow> int) \<Rightarrow> int \<Rightarrow> (nat \<Rightarrow> string \<Rightarrow> int) \<Rightarrow> (nat \<Rightarrow> string \<Rightarrow> bool) \<Rightarrow> nat \<Rightarrow> nat
     \<Rightarrow> (string \<times> bool) list go" where
  "transfer_passes hosts rint maxConns busy call j 0 = Some []"
| "transfer_passes hosts rint maxConns busy call j (Suc n) = do {
     cs \<leftarrow> transfer_pass hosts (rint j) maxConns (busy j) (call j) [0..int (length hosts) - 1];
     if \<exists>c \<in> set cs. snd c then Some cs
     else do { cs' \<leftarrow> transfer_passes hosts rint maxConns busy call (Suc j) n; Some (cs @ cs') } }"

definition forward2Transfer_round ::
  "'q queue_ops \<Rightarrow> GlobalConfig \<Rightarrow> (nat \<Rightarrow> int) \<Rightarrow> (nat \<Rightarrow> string \<Rightarrow> int) \<Rightarrow> (nat \<Rightarrow> string \<Rightarrow> bool)
     \<Rightarrow> 'q Transfer_state
     \<Rightarrow> ((MetricValue list \<times> (string \<times> bool) list) option \<times> 'q Transfer_state) go" where
  "forward2Transfer_round ops cfg rint busy call st =
     (let retry = (if tf_MaxRetry (gc_Transfer cfg) < 1 then 1 else tf_MaxRetry (gc_Transfer cfg)) in do {
        q \<leftarrow> TransferQueue st;
        let (items, q') = q_PopBackBy ops (tf_Batch (gc_Transfer cfg)) q;
            st1 = st\<lparr>TransferQueue := Some q'\<rparr> in
        if length items = 0 then Some (None, st1)
        else do {
          mds \<leftarrow> mapM as_meta items;
          let transferItems = map convert mds; count = int (length items) in do {
          cs \<leftarrow> transfer_passes (TransferHostnames st) rint (tf_MaxConns (gc_Transfer cfg)) busy call 0 (nat retry);
          Some (Some (transferItems, cs),
            incr_by SendToTransferCnt (if \<exists>c \<in> set cs. snd c then count else 0)
              (incr_by SendToTransferFailCnt (count * int (length (filter (\<lambda>c. \<not> snd c) cs))) st1)) } } })"

text \<open>
  The rounds of the tsdb and influxdb tasks send the whole batch in up to \<open>retry\<close> attempts; without
  an attempt neither counter moves.  The influxdb round defers the closing of the client before
  it looks at the error of creating it, so a failed creation dereferences \<open>nil\<close>.
\<close>

definition count_batch ::
  "counter \<Rightarrow> counter \<Rightarrow> nat \<Rightarrow> (nat \<Rightarrow> bool) \<Rightarrow> int \<Rightarrow> 'q Transfer_state \<Rightarrow> 'q Transfer_state" where
  "count_batch ok fail retry outcome n st =
     (if fst (try_send retry 0 outcome) then incr_by ok n st
      else if retry = 0 then st else incr_by fail n st)"

definition forward2Tsdb_round ::
  "'q queue_ops \<Rightarrow> GlobalConfig \<Rightarrow> (nat \<Rightarrow> bool) \<Rightarrow> 'q Transfer_state \<Rightarrow> 'q Transfer_state go" where
  "forward2Tsdb_round ops cfg outcome st = do {
     q \<leftarrow> TsdbQueue st;
     let (items, q') = q_PopBackBy ops (tb_Batch (gc_Tsdb cfg)) q;
         st1 = st\<lparr>TsdbQueue := Some q'\<rparr> in
     if length items = 0 then Some st1
     else do {
       _ \<leftarrow> mapM as_tsdb items;
       Some (count_batch SendToTsdbCnt SendToTsdbFailCnt (nat (tb_MaxRetry (gc_Tsdb cfg))) outcome
               (int (length items)) st1) } }"

definition forward2Influxdb_round ::
  "'q queue_ops \<Rightarrow> GlobalConfig \<Rightarrow> bool \<Rightarrow> (nat \<Rightarrow> bool) \<Rightarrow> 'q Transfer_state \<Rightarrow> 'q Transfer_state go" where
  "forward2Influxdb_round ops cfg created outcome st = do {
     q \<leftarrow> InfluxdbQueue st;
     let (items, q') = q_PopBackBy ops (ix_Batch (gc_Influxdb cfg)) q;
         st1 = st\<lparr>InfluxdbQueue := Some q'\<rparr> in
     if length items = 0 then Some st1
     else if \<not> created then None
     else do {
       _ \<leftarrow> mapM as_influxdb items;
       Some (count_batch SendToInfluxdbCnt SendToInfluxdbFailCnt (nat (ix_MaxRetry (gc_Influxdb cfg))) outcome
               (int (length items)) st1) } }"

section \<open>Queue sizes\<close>

definition calcSendCacheSize :: "'q queue_ops \<Rightarrow> (string, 'q) gomap \<Rightarrow> int" where
  "calcSendCacheSize ops mapList = foldl (\<lambda>cnt (k, q). cnt + q_Len ops q) 0 mapList"

definition refreshSendingCacheSize ::
  "'q queue_ops \<Rightarrow> GlobalConfig \<Rightarrow> 'q Transfer_state \<Rightarrow> 'q Transfer_state go" where
  "refreshSendingCacheSize ops cfg st =
     (let st1 = set_cnt GraphQueuesCnt (calcSendCacheSize ops (GraphQueues st))
                  (set_cnt JudgeQueuesCnt (calcSendCacheSize ops (JudgeQueues st)) st)
      in do {
        st2 \<leftarrow> if_do (tb_Enabled (gc_Tsdb cfg))
          (\<lambda>s. do { q \<leftarrow> TsdbQueue s; Some (set_cnt TsdbQueuesCnt (q_Len ops q) s) }) st1;
        st3 \<leftarrow> if_do (tf_Enabled (gc_Transfer cfg))
          (\<lambda>s. do { q \<leftarrow> TransferQueue s; Some (set_cnt TransferQueuesCnt (q_Len ops q) s) }) st2;
        if_do (rc_Enabled (gc_P8sRelay cfg))
          (\<lambda>s. Some (set_cnt P8sRelayQueuesCnt (calcSendCacheSize ops (P8sRelayQueues s)) s)) st3 })"

end
