(* ===== verification/TransferInv.thy ===== *)
theory TransferInv
  imports TransferFlow
begin

text \<open>
  The invariant of the transfer module and that every handler keeps it: the queue maps have a queue
  for every node of the configuration, and every queue holds items of the type its send task asserts.

  The documented behaviour of the third-party code is stated by two predicates: \<open>limited_list\<close> for
  \<open>SafeListLimited\<close> (first in first out, refusing what exceeds its size) and \<open>ring_ok\<close> for the hash
  rings (a node that comes out was put in).
\<close>

section \<open>Third-party behaviour\<close>

definition limited_list :: "'q queue_ops \<Rightarrow> ('q \<Rightarrow> qitem list) \<Rightarrow> ('q \<Rightarrow> int) \<Rightarrow> bool" where
  "limited_list ops qc qmax \<longleftrightarrow>
     (\<forall>n. qc (NewSafeListLimited ops n) = [] \<and> qmax (NewSafeListLimited ops n) = n)
     \<and> (\<forall>x q. int (length (qc q)) \<ge> qmax q \<longrightarrow> q_PushFront ops x q = (False, q))
     \<and> (\<forall>x q. int (length (qc q)) < qmax q \<longrightarrow>
          (\<exists>q'. q_PushFront ops x q = (True, q') \<and> qc q' = qc q @ [x] \<and> qmax q' = qmax q))
     \<and> (\<forall>n q. \<exists>q'. q_PopBackBy ops n q = (take (nat n) (qc q), q') \<and> qc q' = drop (nat n) (qc q)
          \<and> qmax q' = qmax q)
     \<and> (\<forall>q. q_Len ops q = int (length (qc q)))"

text \<open>An instance: the content with its bound.\<close>

definition list_ops :: "(int \<times> qitem list) queue_ops" where
  "list_ops =
     \<lparr> NewSafeListLimited = (\<lambda>n. (n, [])),
       q_PushFront = (\<lambda>x (n, xs). if int (length xs) \<ge> n then (False, (n, xs)) else (True, (n, xs @ [x]))),
       q_PopBackBy = (\<lambda>k (n, xs). (take (nat k) xs, (n, drop (nat k) xs))),
       q_Len = (\<lambda>(n, xs). int (length xs)) \<rparr>"

lemma list_ops_limited: "limited_list list_ops snd fst"
  by (auto simp: limited_list_def list_ops_def)

definition ring_ok :: "(string, string) gomap \<Rightarrow> ring \<Rightarrow> bool" where
  "ring_ok cluster r \<longleftrightarrow> (\<forall>pk node. r pk = Inr node \<longrightarrow> node \<in> fst ` set cluster)"

definition rings_ok :: "GlobalConfig \<Rightarrow> rings \<Rightarrow> bool" where
  "rings_ok cfg rs \<longleftrightarrow> ring_ok (rc_Cluster (gc_Judge cfg)) (JudgeNodeRing rs)
     \<and> ring_ok (rc_Cluster (gc_Graph cfg)) (GraphNodeRing rs)
     \<and> ring_ok (rc_Cluster (gc_P8sRelay cfg)) (P8sRelayNodeRing rs)"

section \<open>What the RPC receiver accepts\<close>

definition accepted :: "int \<Rightarrow> MetricValue option list \<Rightarrow> MetaData list" where
  "accepted now args = List.map_filter (recv_value now) args"

lemma recv_loop_accepted:
  "recv_loop now (invalid, items) args =
     (invalid + int (length (filter (\<lambda>v. recv_value now v = None) args)), items @ accepted now args)"
  by (induction args arbitrary: invalid items)
    (auto simp: accepted_def map_filter_simps split: option.splits)

lemma accepted_count:
  "int (length (filter (\<lambda>v. recv_value now v = None) args)) + int (length (accepted now args)) = int (length args)"
  by (induction args) (auto simp: accepted_def map_filter_simps split: option.splits)

lemma set_accepted: "x \<in> set (accepted now args) \<longleftrightarrow> (\<exists>v \<in> set args. recv_value now v = Some x)"
  by (force simp: accepted_def map_filter_def)

definition good_point :: "MetaData \<Rightarrow> bool" where
  "good_point d \<longleftrightarrow> md_Metric d \<noteq> [] \<and> md_Endpoint d \<noteq> [] \<and> md_CounterType d \<in> {COUNTER, GAUGE, DERIVE}
     \<and> 0 < md_Step d \<and> gomap_ok (md_Tags d)"

lemma recv_value_good: "recv_value now v = Some d \<Longrightarrow> good_point d"
  by (auto simp: recv_value_def good_point_def Let_def split: option.splits if_splits)

lemma recv_value_time:
  "recv_value now v = Some d \<Longrightarrow> 0 < now \<Longrightarrow> now < 2 ^ 62 \<Longrightarrow> 0 < md_Timestamp d \<and> md_Timestamp d \<le> 2 * now"
  by (auto simp: recv_value_def Let_def i64_id int64_range_def split: option.splits if_splits)

section \<open>Frames and invariant of the pushes\<close>

text \<open>What a push changes: queues and drop counters; the keys of the queue maps stay.\<close>

definition drop_counters :: "counter set" where
  "drop_counters = {SendToJudgeDropCnt, SendToTsdbDropCnt, SendToGraphDropCnt, SendToTransferDropCnt,
     SendToInfluxdbDropCnt, SendToP8sRelayDropCnt}"

definition same_keys :: "'q Transfer_state \<Rightarrow> 'q Transfer_state \<Rightarrow> bool" where
  "same_keys st st' \<longleftrightarrow> MinStep st' = MinStep st
     \<and> fst ` set (JudgeQueues st') = fst ` set (JudgeQueues st)
     \<and> fst ` set (GraphQueues st') = fst ` set (GraphQueues st)
     \<and> fst ` set (P8sRelayQueues st') = fst ` set (P8sRelayQueues st)
     \<and> (TsdbQueue st' = None \<longleftrightarrow> TsdbQueue st = None)
     \<and> (TransferQueue st' = None \<longleftrightarrow> TransferQueue st = None)
     \<and> (InfluxdbQueue st' = None \<longleftrightarrow> InfluxdbQueue st = None)
     \<and> (\<forall>c. c \<notin> drop_counters \<longrightarrow> counters st' c = counters st c)"

lemma same_keys_refl [simp]: "same_keys st st"
  by (simp add: same_keys_def)

lemma same_keys_trans [trans]: "same_keys a b \<Longrightarrow> same_keys b c \<Longrightarrow> same_keys a c"
  by (simp add: same_keys_def)

definition ready :: "GlobalConfig \<Rightarrow> 'q Transfer_state \<Rightarrow> bool" where
  "ready cfg st \<longleftrightarrow> 1 \<le> MinStep st
     \<and> fst ` set (rc_Cluster (gc_Judge cfg)) \<subseteq> fst ` set (JudgeQueues st)
     \<and> (\<forall>node \<in> fst ` set (rc_Cluster (gc_Graph cfg)). \<exists>cn. m_get (rc_ClusterList (gc_Graph cfg)) node = Some cn
          \<and> (\<forall>addr \<in> set (cn_Addrs cn). node @ addr \<in> fst ` set (GraphQueues st)))
     \<and> (rc_Enabled (gc_P8sRelay cfg) \<longrightarrow>
          (\<forall>node \<in> fst ` set (rc_Cluster (gc_P8sRelay cfg)). \<exists>cn. m_get (rc_ClusterList (gc_P8sRelay cfg)) node = Some cn
            \<and> (\<forall>addr \<in> set (cn_Addrs cn). node @ addr \<in> fst ` set (P8sRelayQueues st))))
     \<and> (tb_Enabled (gc_Tsdb cfg) \<longrightarrow> TsdbQueue st \<noteq> None)
     \<and> (tf_Enabled (gc_Transfer cfg) \<longrightarrow> TransferQueue st \<noteq> None)
     \<and> (ix_Enabled (gc_Influxdb cfg) \<longrightarrow> InfluxdbQueue st \<noteq> None)"

lemma ready_same_keys: "ready cfg st \<Longrightarrow> same_keys st st' \<Longrightarrow> ready cfg st'"
  by (auto simp: ready_def same_keys_def)

lemma min_step_ge: "1 \<le> m \<Longrightarrow> 1 \<le> min_step m s \<and> m \<le> min_step m s \<and> s \<le> min_step m s"
  by (auto simp: min_step_def)

lemma alignTs_some: "1 \<le> p \<Longrightarrow> alignTs ts p = Some (ts - ts smod p)"
  by (simp add: alignTs_def)

lemma push_at_total:
  assumes "key \<in> fst ` set qs"
  shows "\<exists>ok qs'. push_at ops key x qs = Some (ok, qs') \<and> fst ` set qs' = fst ` set qs"
proof -
  from assms obtain q where "m_get qs key = Some q"
    using m_get_None_iff [of qs key] by (cases "m_get qs key") auto
  with assms show ?thesis
    by (cases "q_PushFront ops x q") (auto simp: push_at_def insert_absorb)
qed

lemma push_copies_total:
  fixes qs :: "(string, 'q) gomap"
  assumes "\<forall>addr \<in> set addrs. node @ addr \<in> fst ` set qs"
  shows "\<exists>e qs'. foldM (push_copies ops node x) (n, qs) addrs = Some (e, qs') \<and> fst ` set qs' = fst ` set qs"
proof -
  have "\<exists>r. foldM (push_copies ops node x) (n, qs) addrs = Some r \<and> fst ` set (snd r) = fst ` set qs"
  proof (rule foldM_invariant [where I = "\<lambda>r. fst ` set (snd r) = fst ` set qs"])
    fix r :: "int \<times> (string, 'q) gomap" and addr
    assume r: "fst ` set (snd r) = fst ` set qs" and "addr \<in> set addrs"
    then have "node @ addr \<in> fst ` set (snd r)" using assms by simp
    from push_at_total [OF this, of ops x] r
    show "\<exists>r'. push_copies ops node x r addr = Some r' \<and> fst ` set (snd r') = fst ` set qs"
      by (cases r) (auto simp: push_copies_def)
  qed simp
  then show ?thesis by auto
qed

lemma same_keys_queue:
  "fst ` set qs = fst ` set (JudgeQueues st) \<Longrightarrow> same_keys st (st\<lparr>JudgeQueues := qs\<rparr>)"
  "fst ` set qs = fst ` set (GraphQueues st) \<Longrightarrow> same_keys st (st\<lparr>GraphQueues := qs\<rparr>)"
  "fst ` set qs = fst ` set (P8sRelayQueues st) \<Longrightarrow> same_keys st (st\<lparr>P8sRelayQueues := qs\<rparr>)"
  by (simp_all add: same_keys_def)

lemma same_keys_drop: "c \<in> drop_counters \<Longrightarrow> same_keys st (incr_by c n st)"
  by (auto simp: same_keys_def incr_by_def)

lemma Push2Judge_item_total:
  assumes "ready cfg st" "rings_ok cfg rs"
  shows "\<exists>st'. Push2Judge_item ops rs st d = Some st' \<and> same_keys st st'"
proof (cases "JudgeNodeRing rs (MetaData_PK d)")
  case (Inr node)
  with assms have "node \<in> fst ` set (JudgeQueues st)" by (auto simp: ready_def rings_ok_def ring_ok_def)
  from push_at_total [OF this] have p: "\<exists>ok qs. push_at ops node x (JudgeQueues st) = Some (ok, qs) \<and>
    fst ` set qs = fst ` set (JudgeQueues st)" for x by blast
  have "1 \<le> min_step (MinStep st) (md_Step d)" using assms(1) min_step_ge by (auto simp: ready_def)
  from alignTs_some [OF this] obtain ts where ts: "alignTs (md_Timestamp d) (min_step (MinStep st) (md_Step d)) = Some ts"
    by blast
  let ?x = "QJudge \<lparr> ji_Endpoint = md_Endpoint d, ji_Metric = md_Metric d,
                ji_Value = md_Value d, ji_Timestamp = ts, ji_JudgeType = md_CounterType d, ji_Tags = md_Tags d \<rparr>"
  from p [of ?x] obtain ok qs where "push_at ops node ?x (JudgeQueues st) = Some (ok, qs)"
    "fst ` set qs = fst ` set (JudgeQueues st)" by blast
  with Inr ts show ?thesis
    using same_keys_queue(1) [of qs st] same_keys_drop [of SendToJudgeDropCnt "st\<lparr>JudgeQueues := qs\<rparr>" 1]
    by (auto simp: Push2Judge_item_def Let_def drop_counters_def intro: same_keys_trans)
qed (simp add: Push2Judge_item_def)

lemma convert2GraphItem_total: "1 \<le> m \<Longrightarrow> \<exists>r. convert2GraphItem m d = Some r"
  using alignTs_some [of "min_step m (md_Step d)"] min_step_ge [of m "md_Step d"]
  by (auto simp: convert2GraphItem_def Let_def)

lemma convert2P8sRelayItem_total: "1 \<le> m \<Longrightarrow> \<exists>r. convert2P8sRelayItem m d = Some r"
  using alignTs_some [of "min_step m (md_Step d)"] min_step_ge [of m "md_Step d"]
  by (auto simp: convert2P8sRelayItem_def Let_def)

lemma Push2Graph_item_total:
  assumes "ready cfg st" "rings_ok cfg rs"
  shows "\<exists>st'. Push2Graph_item ops rs cfg st d = Some st' \<and> same_keys st st'"
proof -
  from assms(1) have "1 \<le> MinStep st" by (simp add: ready_def)
  from convert2GraphItem_total [OF this] obtain r where r: "convert2GraphItem (MinStep st) d = Some r" by blast
  show ?thesis
  proof (cases "(\<exists>e. r = Inl e) \<or> (\<exists>e. GraphNodeRing rs (MetaData_PK d) = Inl e)")
    case True
    with r show ?thesis by (cases r) (auto simp: Push2Graph_item_def)
  next
    case False
    then obtain g node where g: "r = Inr g" "GraphNodeRing rs (MetaData_PK d) = Inr node"
      by (meson old.sum.exhaust)
    with assms obtain cn where cn: "m_get (rc_ClusterList (gc_Graph cfg)) node = Some cn"
      "\<forall>addr \<in> set (cn_Addrs cn). node @ addr \<in> fst ` set (GraphQueues st)"
      unfolding ready_def rings_ok_def ring_ok_def by meson
    from push_copies_total [OF cn(2)] obtain e qs where
      "foldM (push_copies ops node (QGraph g)) (0, GraphQueues st) (cn_Addrs cn) = Some (e, qs)"
      "fst ` set qs = fst ` set (GraphQueues st)" by blast
    with r g cn(1) show ?thesis
      using same_keys_queue(2) [of qs st] same_keys_drop [of SendToGraphDropCnt "st\<lparr>GraphQueues := qs\<rparr>" 1]
      by (auto simp: Push2Graph_item_def Let_def drop_counters_def intro: same_keys_trans)
  qed
qed

lemma Push2P8s_item_total:
  assumes "ready cfg st" "rings_ok cfg rs" "rc_Enabled (gc_P8sRelay cfg)"
  shows "\<exists>st'. Push2P8s_item ops rs cfg st d = Some st' \<and> same_keys st st'"
proof -
  from assms(1) have "1 \<le> MinStep st" by (simp add: ready_def)
  from convert2P8sRelayItem_total [OF this] obtain r where r: "convert2P8sRelayItem (MinStep st) d = Some r" by blast
  show ?thesis
  proof (cases "(\<exists>m \<in> set (rc_NotSyncMetrics (gc_P8sRelay cfg)). prefix m (md_Metric d)) \<or>
      (\<exists>e. r = Inl e) \<or> (\<exists>e. P8sRelayNodeRing rs (MetaData_PK d) = Inl e)")
    case True
    with r show ?thesis by (cases r) (auto simp: Push2P8s_item_def)
  next
    case False
    then obtain g node where g: "r = Inr g" "P8sRelayNodeRing rs (MetaData_PK d) = Inr node"
      by (meson old.sum.exhaust)
    with assms obtain cn where cn: "m_get (rc_ClusterList (gc_P8sRelay cfg)) node = Some cn"
      "\<forall>addr \<in> set (cn_Addrs cn). node @ addr \<in> fst ` set (P8sRelayQueues st)"
      unfolding ready_def rings_ok_def ring_ok_def by meson
    from push_copies_total [OF cn(2)] obtain e qs where
      "foldM (push_copies ops node (QP8s g)) (0, P8sRelayQueues st) (cn_Addrs cn) = Some (e, qs)"
      "fst ` set qs = fst ` set (P8sRelayQueues st)" by blast
    with r g cn(1) False show ?thesis
      using same_keys_queue(3) [of qs st] same_keys_drop [of SendToP8sRelayDropCnt "st\<lparr>P8sRelayQueues := qs\<rparr>" 1]
      by (auto simp: Push2P8s_item_def Let_def drop_counters_def intro: same_keys_trans)
  qed
qed

text \<open>A loop of such steps, from a state that is ready.\<close>

lemma foldM_ready:
  assumes "\<And>s d. ready cfg s \<Longrightarrow> \<exists>s'. f s d = Some s' \<and> same_keys s s'" "ready cfg st"
  shows "\<exists>st'. foldM f st ds = Some st' \<and> same_keys st st'"
proof (rule foldM_invariant [where I = "same_keys st"])
  fix s d
  assume "same_keys st s"
  then show "\<exists>s'. f s d = Some s' \<and> same_keys st s'"
    using assms(1) [OF ready_same_keys [OF assms(2)], of s d] same_keys_trans by blast
qed simp

lemma Push2Judge_total:
  assumes "ready cfg st" "rings_ok cfg rs"
  shows "\<exists>st'. Push2JudgeSendQueue ops rs ds st = Some st' \<and> same_keys st st'"
  unfolding Push2JudgeSendQueue_def
  by (rule foldM_ready [OF _ assms(1)]) (rule Push2Judge_item_total [OF _ assms(2)])

lemma Push2Graph_total:
  assumes "ready cfg st" "rings_ok cfg rs"
  shows "\<exists>st'. Push2GraphSendQueue ops rs cfg ds st = Some st' \<and> same_keys st st'"
  unfolding Push2GraphSendQueue_def
  by (rule foldM_ready [OF _ assms(1)]) (rule Push2Graph_item_total [OF _ assms(2)])

lemma Push2P8s_total:
  assumes "ready cfg st" "rings_ok cfg rs" "rc_Enabled (gc_P8sRelay cfg)"
  shows "\<exists>st'. Push2P8sRelaySendQueue ops rs cfg ds st = Some st' \<and> same_keys st st'"
  unfolding Push2P8sRelaySendQueue_def
  by (rule foldM_ready [OF _ assms(1)]) (rule Push2P8s_item_total [OF _ assms(2,3)])

lemma Push2Tsdb_total:
  assumes "ready cfg st" "tb_Enabled (gc_Tsdb cfg)"
  shows "\<exists>st'. Push2TsdbSendQueue ops ds st = Some st' \<and> same_keys st st'"
  unfolding Push2TsdbSendQueue_def
  by (rule foldM_ready [OF _ assms(1)]) (use assms(2) in \<open>auto simp: ready_def same_keys_def incr_by_def drop_counters_def Let_def case_prod_beta\<close>)

lemma Push2Transfer_total:
  assumes "ready cfg st" "tf_Enabled (gc_Transfer cfg)"
  shows "\<exists>st'. Push2TransferSendQueue ops ds st = Some st' \<and> same_keys st st'"
  unfolding Push2TransferSendQueue_def
  by (rule foldM_ready [OF _ assms(1)]) (use assms(2) in \<open>auto simp: ready_def same_keys_def incr_by_def drop_counters_def Let_def case_prod_beta\<close>)

lemma Push2Influxdb_total:
  assumes "ready cfg st" "ix_Enabled (gc_Influxdb cfg)"
  shows "\<exists>st'. Push2InfluxdbSendQueue ops ds st = Some st' \<and> same_keys st st'"
  unfolding Push2InfluxdbSendQueue_def
  by (rule foldM_ready [OF _ assms(1)]) (use assms(2) in \<open>auto simp: ready_def same_keys_def incr_by_def drop_counters_def Let_def case_prod_beta\<close>)


section \<open>Types of the queued items\<close>

definition all_items :: "('q \<Rightarrow> qitem list) \<Rightarrow> (qitem \<Rightarrow> 'a go) \<Rightarrow> (string, 'q) gomap \<Rightarrow> bool" where
  "all_items qc cast qs \<longleftrightarrow> (\<forall>q \<in> snd ` set qs. \<forall>x \<in> set (qc q). cast x \<noteq> None)"

definition all_in :: "('q \<Rightarrow> qitem list) \<Rightarrow> (qitem \<Rightarrow> 'a go) \<Rightarrow> 'q option \<Rightarrow> bool" where
  "all_in qc cast oq \<longleftrightarrow> (\<forall>q. oq = Some q \<longrightarrow> (\<forall>x \<in> set (qc q). cast x \<noteq> None))"

definition typed :: "('q \<Rightarrow> qitem list) \<Rightarrow> 'q Transfer_state \<Rightarrow> bool" where
  "typed qc st \<longleftrightarrow> all_items qc as_judge (JudgeQueues st) \<and> all_items qc as_graph (GraphQueues st)
     \<and> all_items qc as_p8s (P8sRelayQueues st) \<and> all_in qc as_tsdb (TsdbQueue st)
     \<and> all_in qc as_meta (TransferQueue st) \<and> all_in qc as_influxdb (InfluxdbQueue st)"

lemma typed_counters [simp]:
  "typed qc (incr_by c n st) = typed qc st" "typed qc (set_cnt c n st) = typed qc st"
  "ready cfg (incr_by c n st) = ready cfg st" "ready cfg (set_cnt c n st) = ready cfg st"
  by (simp_all add: typed_def ready_def incr_by_def set_cnt_def)

lemma limited_push:
  assumes "limited_list ops qc qmax" "q_PushFront ops x q = (ok, q')"
  shows "qc q' = (if ok then qc q @ [x] else qc q) \<and> qmax q' = qmax q \<and> (ok \<longleftrightarrow> int (length (qc q)) < qmax q)"
proof (cases "int (length (qc q)) < qmax q")
  case True
  then obtain q2 where "q_PushFront ops x q = (True, q2) \<and> qc q2 = qc q @ [x] \<and> qmax q2 = qmax q"
    using assms(1) unfolding limited_list_def by blast
  with True assms(2) show ?thesis by simp
next
  case False
  then have "q_PushFront ops x q = (False, q)" using assms(1) by (auto simp: limited_list_def)
  with False assms(2) show ?thesis by simp
qed

lemma limited_pop:
  assumes "limited_list ops qc qmax" "q_PopBackBy ops n q = (items, q')"
  shows "items = take (nat n) (qc q)" "qc q' = drop (nat n) (qc q)" "qmax q' = qmax q"
proof -
  from assms(1) obtain q2 where "q_PopBackBy ops n q = (take (nat n) (qc q), q2) \<and> qc q2 = drop (nat n) (qc q)
      \<and> qmax q2 = qmax q"
    unfolding limited_list_def by blast
  with assms(2) show "items = take (nat n) (qc q)" "qc q' = drop (nat n) (qc q)" "qmax q' = qmax q" by auto
qed

lemma snd_set_m_set: "snd ` set (m_set k v m) \<subseteq> insert v (snd ` set m)"
  by (induction m) auto

lemma all_items_m_set:
  "all_items qc cast qs \<Longrightarrow> \<forall>x \<in> set (qc q). cast x \<noteq> None \<Longrightarrow> all_items qc cast (m_set k q qs)"
  using snd_set_m_set [of k q qs] by (auto 0 3 simp: all_items_def)

lemma all_items_get: "all_items qc cast qs \<Longrightarrow> m_get qs k = Some q \<Longrightarrow> x \<in> set (qc q) \<Longrightarrow> cast x \<noteq> None"
  by (drule m_get_SomeD) (force simp: all_items_def)

lemma push_at_iff:
  "push_at ops k x qs = Some (ok, qs') \<longleftrightarrow>
     (\<exists>q q'. m_get qs k = Some q \<and> q_PushFront ops x q = (ok, q') \<and> qs' = m_set k q' qs)"
proof (cases "m_get qs k")
  case (Some q)
  then show ?thesis by (cases "q_PushFront ops x q") (auto simp: push_at_def)
qed (simp add: push_at_def)

lemma push_at_typed:
  assumes "limited_list ops qc qmax" "all_items qc cast qs" "cast x \<noteq> None" "push_at ops k x qs = Some (ok, qs')"
  shows "all_items qc cast qs'"
proof -
  from assms(4) obtain q q' where q: "m_get qs k = Some q" "q_PushFront ops x q = (ok, q')" "qs' = m_set k q' qs"
    by (auto simp: push_at_iff)
  have "\<forall>y \<in> set (qc q'). cast y \<noteq> None"
    using limited_push [OF assms(1) q(2)] all_items_get [OF assms(2) q(1)] assms(3) by auto
  then show ?thesis unfolding q(3) by (rule all_items_m_set [OF assms(2)])
qed

lemma push_copies_typed:
  assumes "limited_list ops qc qmax" "cast x \<noteq> None"
    and "foldM (push_copies ops node x) (n, qs) addrs = Some (e, qs')" "all_items qc cast qs"
  shows "all_items qc cast qs'"
proof -
  have "all_items qc cast (snd (e, qs'))"
  proof (rule foldM_preserves [where I = "\<lambda>r. all_items qc cast (snd r)", OF _ _ assms(3)])
    fix r a r'
    assume r: "all_items qc cast (snd r)" "push_copies ops node x r a = Some r'"
    then obtain ok qs2 where "push_at ops (node @ a) x (snd r) = Some (ok, qs2)" "snd r' = qs2"
      by (cases r) (auto simp: push_copies_def bind_eq_Some_conv)
    with push_at_typed [where cast = cast, OF assms(1) r(1) assms(2)] show "all_items qc cast (snd r')" by simp
  qed (simp add: assms(4))
  then show ?thesis by simp
qed

lemma typed_update:
  "typed qc st \<Longrightarrow> all_items qc as_judge qs \<Longrightarrow> typed qc (st\<lparr>JudgeQueues := qs\<rparr>)"
  "typed qc st \<Longrightarrow> all_items qc as_graph qs \<Longrightarrow> typed qc (st\<lparr>GraphQueues := qs\<rparr>)"
  "typed qc st \<Longrightarrow> all_items qc as_p8s qs \<Longrightarrow> typed qc (st\<lparr>P8sRelayQueues := qs\<rparr>)"
  "typed qc st \<Longrightarrow> all_in qc as_tsdb oq \<Longrightarrow> typed qc (st\<lparr>TsdbQueue := oq\<rparr>)"
  "typed qc st \<Longrightarrow> all_in qc as_meta oq \<Longrightarrow> typed qc (st\<lparr>TransferQueue := oq\<rparr>)"
  "typed qc st \<Longrightarrow> all_in qc as_influxdb oq \<Longrightarrow> typed qc (st\<lparr>InfluxdbQueue := oq\<rparr>)"
  by (simp_all add: typed_def)

lemma Push2Judge_item_typed:
  assumes lim: "limited_list ops qc qmax" and st: "typed qc st" and r: "Push2Judge_item ops rs st d = Some st'"
  shows "typed qc st'"
proof (cases "JudgeNodeRing rs (MetaData_PK d)")
  case (Inr node)
  with r obtain t ok qs where p: "push_at ops node (QJudge t) (JudgeQueues st) = Some (ok, qs)"
    "st' = st\<lparr>JudgeQueues := qs\<rparr> \<or> st' = incr_by SendToJudgeDropCnt 1 (st\<lparr>JudgeQueues := qs\<rparr>)"
    by (auto simp: Push2Judge_item_def Let_def bind_eq_Some_conv split: if_splits)
  have "all_items qc as_judge qs"
    by (rule push_at_typed [OF lim _ _ p(1)]) (use st in \<open>simp_all add: as_judge_def typed_def\<close>)
  with typed_update(1) [OF st] p(2) show ?thesis by auto
qed (use r st in \<open>simp add: Push2Judge_item_def\<close>)

lemma Push2Graph_item_typed:
  assumes lim: "limited_list ops qc qmax" and st: "typed qc st" and r: "Push2Graph_item ops rs cfg st d = Some st'"
  shows "typed qc st'"
proof (cases "st' = st")
  case False
  with r obtain g node addrs e qs where
    p: "foldM (push_copies ops node (QGraph g)) (0, GraphQueues st) addrs = Some (e, qs)"
    "st' = st\<lparr>GraphQueues := qs\<rparr> \<or> st' = incr_by SendToGraphDropCnt 1 (st\<lparr>GraphQueues := qs\<rparr>)"
    by (cases "the (convert2GraphItem (MinStep st) d)"; cases "GraphNodeRing rs (MetaData_PK d)")
      (auto simp: Push2Graph_item_def Let_def bind_eq_Some_conv split: if_splits)
  have "all_items qc as_graph qs"
    by (rule push_copies_typed [OF lim _ p(1)]) (use st in \<open>simp_all add: as_graph_def typed_def\<close>)
  with typed_update(2) [OF st] p(2) show ?thesis by auto
qed (simp add: st)

lemma Push2P8s_item_typed:
  assumes lim: "limited_list ops qc qmax" and st: "typed qc st" and r: "Push2P8s_item ops rs cfg st d = Some st'"
  shows "typed qc st'"
proof (cases "st' = st")
  case False
  with r obtain g node addrs e qs where
    p: "foldM (push_copies ops node (QP8s g)) (0, P8sRelayQueues st) addrs = Some (e, qs)"
    "st' = st\<lparr>P8sRelayQueues := qs\<rparr> \<or> st' = incr_by SendToP8sRelayDropCnt 1 (st\<lparr>P8sRelayQueues := qs\<rparr>)"
    by (cases "the (convert2P8sRelayItem (MinStep st) d)"; cases "P8sRelayNodeRing rs (MetaData_PK d)")
      (auto simp: Push2P8s_item_def Let_def bind_eq_Some_conv split: if_splits)
  have "all_items qc as_p8s qs"
    by (rule push_copies_typed [OF lim _ p(1)]) (use st in \<open>simp_all add: as_p8s_def typed_def\<close>)
  with typed_update(3) [OF st] p(2) show ?thesis by auto
qed (simp add: st)

lemma all_in_push:
  assumes "limited_list ops qc qmax" "all_in qc cast (Some q)" "cast x \<noteq> None"
  shows "all_in qc cast (Some (snd (q_PushFront ops x q)))"
  using limited_push [OF assms(1), of x q "fst (q_PushFront ops x q)" "snd (q_PushFront ops x q)"] assms(2,3)
  by (auto simp: all_in_def split: if_splits)

lemma all_in_pop:
  assumes "limited_list ops qc qmax" "all_in qc cast (Some q)" "q_PopBackBy ops n q = (items, q')"
  shows "all_in qc cast (Some q')" "\<forall>x \<in> set items. cast x \<noteq> None"
  using limited_pop [OF assms(1,3)] assms(2) by (auto simp: all_in_def dest: in_set_dropD in_set_takeD)

lemma Push2Tsdb_typed:
  assumes lim: "limited_list ops qc qmax" and st: "typed qc st" and r: "Push2TsdbSendQueue ops ds st = Some st'"
  shows "typed qc st'"
proof (rule foldM_preserves [where I = "typed qc", OF _ st r [unfolded Push2TsdbSendQueue_def]])
  fix s :: "'a Transfer_state" and d s'
  assume s: "typed qc s" and "(do { q \<leftarrow> TsdbQueue s;
     let (isSuccess, q') = q_PushFront ops (QTsdb (convert2TsdbItem d)) q; st1 = s\<lparr>TsdbQueue := Some q'\<rparr> in
     Some (if isSuccess then st1 else incr_by SendToTsdbDropCnt 1 st1) }) = Some s'"
  then show "typed qc s'"
    using typed_update(4) [OF s all_in_push [OF lim, of as_tsdb _ "QTsdb (convert2TsdbItem d)"]]
    by (auto simp: bind_eq_Some_conv Let_def case_prod_beta as_tsdb_def typed_def incr_by_def split: if_splits)
qed

lemma Push2Transfer_typed:
  assumes lim: "limited_list ops qc qmax" and st: "typed qc st" and r: "Push2TransferSendQueue ops ds st = Some st'"
  shows "typed qc st'"
proof (rule foldM_preserves [where I = "typed qc", OF _ st r [unfolded Push2TransferSendQueue_def]])
  fix s :: "'a Transfer_state" and d s'
  assume s: "typed qc s" and "(do { q \<leftarrow> TransferQueue s;
     let (isSuccess, q') = q_PushFront ops (QMeta d) q; st1 = s\<lparr>TransferQueue := Some q'\<rparr> in
     Some (if isSuccess then st1 else incr_by SendToTransferDropCnt 1 st1) }) = Some s'"
  then show "typed qc s'"
    using typed_update(5) [OF s all_in_push [OF lim, of as_meta _ "QMeta d"]]
    by (auto simp: bind_eq_Some_conv Let_def case_prod_beta as_meta_def typed_def incr_by_def split: if_splits)
qed

lemma Push2Influxdb_typed:
  assumes lim: "limited_list ops qc qmax" and st: "typed qc st" and r: "Push2InfluxdbSendQueue ops ds st = Some st'"
  shows "typed qc st'"
proof (rule foldM_preserves [where I = "typed qc", OF _ st r [unfolded Push2InfluxdbSendQueue_def]])
  fix s :: "'a Transfer_state" and d s'
  assume s: "typed qc s" and "(do { q \<leftarrow> InfluxdbQueue s;
     let (isSuccess, q') = q_PushFront ops (QInflux (convert2InfluxdbItem d)) q; st1 = s\<lparr>InfluxdbQueue := Some q'\<rparr> in
     Some (if isSuccess then st1 else incr_by SendToInfluxdbDropCnt 1 st1) }) = Some s'"
  then show "typed qc s'"
    using typed_update(6) [OF s all_in_push [OF lim, of as_influxdb _ "QInflux (convert2InfluxdbItem d)"]]
    by (auto simp: bind_eq_Some_conv Let_def case_prod_beta as_influxdb_def typed_def incr_by_def split: if_splits)
qed

section \<open>The invariant and every handler\<close>

definition Transfer_ok :: "GlobalConfig \<Rightarrow> ('q \<Rightarrow> qitem list) \<Rightarrow> 'q Transfer_state \<Rightarrow> bool" where
  "Transfer_ok cfg qc st \<longleftrightarrow> ready cfg st \<and> typed qc st"

text \<open>What a handler does from a state in which the invariant holds: it returns, and keeps the invariant.\<close>

definition runs :: "GlobalConfig \<Rightarrow> ('q \<Rightarrow> qitem list) \<Rightarrow> 'q Transfer_state \<Rightarrow> 'q Transfer_state go \<Rightarrow> bool" where
  "runs cfg qc st r \<longleftrightarrow> (\<exists>st'. r = Some st' \<and> Transfer_ok cfg qc st' \<and> (\<forall>c. c \<notin> drop_counters \<longrightarrow> counters st' c = counters st c))"

lemma runs_push:
  assumes "Transfer_ok cfg qc st" "\<exists>st'. r = Some st' \<and> same_keys st st'"
    and "\<And>st'. r = Some st' \<Longrightarrow> typed qc st'"
  shows "runs cfg qc st r"
proof -
  from assms(2) obtain st' where st': "r = Some st'" "same_keys st st'" by blast
  then have "ready cfg st'" using assms(1) ready_same_keys by (auto simp: Transfer_ok_def)
  moreover have "\<forall>c. c \<notin> drop_counters \<longrightarrow> counters st' c = counters st c"
    using st'(2) by (simp add: same_keys_def)
  ultimately show ?thesis using st'(1) assms(3) by (auto simp: runs_def Transfer_ok_def)
qed

lemma runs_Judge:
  assumes "limited_list ops qc qmax" "rings_ok cfg rs" "Transfer_ok cfg qc st"
  shows "runs cfg qc st (Push2JudgeSendQueue ops rs ds st)"
proof (rule runs_push [OF assms(3)])
  show "\<exists>st'. Push2JudgeSendQueue ops rs ds st = Some st' \<and> same_keys st st'"
    using assms by (intro Push2Judge_total) (auto simp: Transfer_ok_def)
  show "typed qc st'" if "Push2JudgeSendQueue ops rs ds st = Some st'" for st'
    by (rule foldM_preserves [OF _ _ that [unfolded Push2JudgeSendQueue_def]])
      (use assms(3) in \<open>auto simp: Transfer_ok_def intro: Push2Judge_item_typed [OF assms(1)]\<close>)
qed

lemma runs_Graph:
  assumes "limited_list ops qc qmax" "rings_ok cfg rs" "Transfer_ok cfg qc st"
  shows "runs cfg qc st (Push2GraphSendQueue ops rs cfg ds st)"
proof (rule runs_push [OF assms(3)])
  show "\<exists>st'. Push2GraphSendQueue ops rs cfg ds st = Some st' \<and> same_keys st st'"
    using assms by (intro Push2Graph_total) (auto simp: Transfer_ok_def)
  show "typed qc st'" if "Push2GraphSendQueue ops rs cfg ds st = Some st'" for st'
    by (rule foldM_preserves [OF _ _ that [unfolded Push2GraphSendQueue_def]])
      (use assms(3) in \<open>auto simp: Transfer_ok_def intro: Push2Graph_item_typed [OF assms(1)]\<close>)
qed

lemma runs_P8s:
  assumes "limited_list ops qc qmax" "rings_ok cfg rs" "Transfer_ok cfg qc st" "rc_Enabled (gc_P8sRelay cfg)"
  shows "runs cfg qc st (Push2P8sRelaySendQueue ops rs cfg ds st)"
proof (rule runs_push [OF assms(3)])
  show "\<exists>st'. Push2P8sRelaySendQueue ops rs cfg ds st = Some st' \<and> same_keys st st'"
    using assms by (intro Push2P8s_total) (auto simp: Transfer_ok_def)
  show "typed qc st'" if "Push2P8sRelaySendQueue ops rs cfg ds st = Some st'" for st'
    by (rule foldM_preserves [OF _ _ that [unfolded Push2P8sRelaySendQueue_def]])
      (use assms(3) in \<open>auto simp: Transfer_ok_def intro: Push2P8s_item_typed [OF assms(1)]\<close>)
qed

lemma runs_single:
  assumes "limited_list ops qc qmax" "Transfer_ok cfg qc st"
  shows "tb_Enabled (gc_Tsdb cfg) \<Longrightarrow> runs cfg qc st (Push2TsdbSendQueue ops ds st)"
    "tf_Enabled (gc_Transfer cfg) \<Longrightarrow> runs cfg qc st (Push2TransferSendQueue ops ds st)"
    "ix_Enabled (gc_Influxdb cfg) \<Longrightarrow> runs cfg qc st (Push2InfluxdbSendQueue ops ds st)"
proof -
  from assms(2) have st: "ready cfg st" "typed qc st" by (simp_all add: Transfer_ok_def)
  show "runs cfg qc st (Push2TsdbSendQueue ops ds st)" if "tb_Enabled (gc_Tsdb cfg)"
    by (rule runs_push [OF assms(2) Push2Tsdb_total [OF st(1) that] Push2Tsdb_typed [OF assms(1) st(2)]])
  show "runs cfg qc st (Push2TransferSendQueue ops ds st)" if "tf_Enabled (gc_Transfer cfg)"
    by (rule runs_push [OF assms(2) Push2Transfer_total [OF st(1) that] Push2Transfer_typed [OF assms(1) st(2)]])
  show "runs cfg qc st (Push2InfluxdbSendQueue ops ds st)" if "ix_Enabled (gc_Influxdb cfg)"
    by (rule runs_push [OF assms(2) Push2Influxdb_total [OF st(1) that] Push2Influxdb_typed [OF assms(1) st(2)]])
qed

lemma runs_if_do: "Transfer_ok cfg qc st \<Longrightarrow> (b \<Longrightarrow> runs cfg qc st (f st)) \<Longrightarrow> runs cfg qc st (if_do b f st)"
  by (simp add: if_do_def runs_def)

lemma runs_bind:
  assumes "runs cfg qc st r" "\<And>st'. Transfer_ok cfg qc st' \<Longrightarrow> runs cfg qc st' (f st')"
  shows "runs cfg qc st (r \<bind> f)"
proof -
  from assms(1) obtain st1 where 1: "r = Some st1" "Transfer_ok cfg qc st1"
    "\<forall>c. c \<notin> drop_counters \<longrightarrow> counters st1 c = counters st c" by (auto simp: runs_def)
  from assms(2) [OF 1(2)] 1 show ?thesis by (auto simp: runs_def)
qed

end
