(* ===== verification/TransferProps.thy ===== *)
theory TransferProps
  imports TransferInv
begin

text \<open>
  The transfer module at work: the step relation of its goroutines, that no handler panics once
  the module has started, what a receiver accepts and counts, what the queues of the judges receive,
  how points are aligned for graph, that forwarding a point to another transfer loses nothing, and
  what the send tasks deliver.
\<close>

section \<open>The handlers from a state of the invariant\<close>

lemma Transfer_ok_incr [simp]: "Transfer_ok cfg qc (incr_by c n st) = Transfer_ok cfg qc st"
  by (simp add: Transfer_ok_def)

lemma Transfer_ok_set_cnt [simp]: "Transfer_ok cfg qc (set_cnt c n st) = Transfer_ok cfg qc st"
  by (simp add: Transfer_ok_def)

text \<open>The six pushes in the order of the RPC receiver, and the four of the telnet receiver.\<close>

lemma runs_pushes:
  assumes "limited_list ops qc qmax" "rings_ok cfg rs" "Transfer_ok cfg qc st"
  shows "runs cfg qc st (do {
        st3 \<leftarrow> if_do (rc_Enabled (gc_Graph cfg)) (Push2GraphSendQueue ops rs cfg items) st;
        st4 \<leftarrow> if_do (rc_Enabled (gc_Judge cfg)) (Push2JudgeSendQueue ops rs items) st3;
        st5 \<leftarrow> if_do (tb_Enabled (gc_Tsdb cfg)) (Push2TsdbSendQueue ops items) st4;
        st6 \<leftarrow> if_do (tf_Enabled (gc_Transfer cfg)) (Push2TransferSendQueue ops items) st5;
        st7 \<leftarrow> if_do (ix_Enabled (gc_Influxdb cfg)) (Push2InfluxdbSendQueue ops items) st6;
        if_do (rc_Enabled (gc_P8sRelay cfg)) (Push2P8sRelaySendQueue ops rs cfg items) st7 })"
  by (intro runs_bind runs_if_do runs_Graph [OF assms(1,2)] runs_Judge [OF assms(1,2)] runs_single [OF assms(1)]
      runs_P8s [OF assms(1,2)] assms(3))

lemma runs_telnet_pushes:
  assumes "limited_list ops qc qmax" "rings_ok cfg rs" "Transfer_ok cfg qc st"
  shows "runs cfg qc st (do {
        st2 \<leftarrow> if_do (rc_Enabled (gc_Graph cfg)) (Push2GraphSendQueue ops rs cfg items) st;
        st3 \<leftarrow> if_do (rc_Enabled (gc_Judge cfg)) (Push2JudgeSendQueue ops rs items) st2;
        st4 \<leftarrow> if_do (tf_Enabled (gc_Transfer cfg)) (Push2TransferSendQueue ops items) st3;
        if_do (rc_Enabled (gc_P8sRelay cfg)) (Push2P8sRelaySendQueue ops rs cfg items) st4 })"
  by (intro runs_bind runs_if_do runs_Graph [OF assms(1,2)] runs_Judge [OF assms(1,2)] runs_single [OF assms(1)]
      runs_P8s [OF assms(1,2)] assms(3))

lemma RecvMetricValues_ok:
  assumes "limited_list ops qc qmax" "rings_ok cfg rs" "Transfer_ok cfg qc st"
  shows "\<exists>st'. RecvMetricValues ops rs cfg now latency args from st =
      Some (\<lparr> tr_Message = ''ok'', tr_Total = int (length args),
               tr_Invalid = int (length (filter (\<lambda>v. recv_value now v = None) args)), tr_Latency = latency \<rparr>, st')
    \<and> Transfer_ok cfg qc st' \<and> counters st' RecvCnt = counters st RecvCnt + int (length (accepted now args))"
proof -
  let ?n = "int (length (accepted now args))"
  let ?st = "(if from = ''rpc'' then incr_by RpcRecvCnt ?n (incr_by RecvCnt ?n st)
     else if from = ''http'' then incr_by HttpRecvCnt ?n (incr_by RecvCnt ?n st) else incr_by RecvCnt ?n st)"
  have ok: "Transfer_ok cfg qc ?st" using assms(3) by simp
  have "counters ?st RecvCnt = counters st RecvCnt + ?n" by (simp add: incr_by_def)
  with runs_pushes [OF assms(1,2) ok, of "accepted now args"] show ?thesis
    by (auto simp: RecvMetricValues_def recv_loop_accepted runs_def drop_counters_def Let_def
        bind_eq_Some_conv simp flip: Option.bind_assoc)
qed

lemma socketTelnetHandle_ok:
  assumes "limited_list ops qc qmax" "rings_ok cfg rs" "Transfer_ok cfg qc st"
  shows "\<exists>st'. socketTelnetHandle ops rs cfg input st = Some st' \<and> Transfer_ok cfg qc st'"
proof -
  let ?n = "int (length (telnet_loop [] (telnet_lines input)))"
  have "Transfer_ok cfg qc (incr_by RecvCnt ?n (incr_by SocketRecvCnt ?n st))" using assms(3) by simp
  from runs_telnet_pushes [OF assms(1,2) this, of "telnet_loop [] (telnet_lines input)"] show ?thesis
    by (auto simp: socketTelnetHandle_def runs_def Let_def)
qed

text \<open>The rounds of the send tasks.\<close>

lemma mapM_total: "\<forall>x \<in> set xs. f x \<noteq> None \<Longrightarrow> \<exists>ys. mapM f xs = Some ys \<and> length ys = length xs"
  by (induction xs) auto

lemma forward_round_total:
  assumes "limited_list ops qc qmax" "all_in qc cast (Some q)"
  shows "\<exists>r q'. forward_round ops cast batch outcome q = Some (r, q') \<and> all_in qc cast (Some q')"
proof -
  obtain items q' where p: "q_PopBackBy ops batch q = (items, q')" by (cases "q_PopBackBy ops batch q")
  from mapM_total [OF all_in_pop(2) [OF assms p]] obtain ys where "mapM cast items = Some ys" by blast
  with p all_in_pop(1) [OF assms p] show ?thesis by (auto simp: forward_round_def)
qed

lemma all_items_all_in: "all_items qc cast qs \<Longrightarrow> m_get qs k = Some q \<Longrightarrow> all_in qc cast (Some q)"
  by (auto simp: all_in_def dest: all_items_get)

lemma ready_queue:
  "ready cfg st \<Longrightarrow> k \<in> fst ` set (JudgeQueues st) \<Longrightarrow> ready cfg (st\<lparr>JudgeQueues := m_set k q (JudgeQueues st)\<rparr>)"
  "ready cfg st \<Longrightarrow> k \<in> fst ` set (GraphQueues st) \<Longrightarrow> ready cfg (st\<lparr>GraphQueues := m_set k q (GraphQueues st)\<rparr>)"
  "ready cfg st \<Longrightarrow> k \<in> fst ` set (P8sRelayQueues st) \<Longrightarrow> ready cfg (st\<lparr>P8sRelayQueues := m_set k q (P8sRelayQueues st)\<rparr>)"
  "ready cfg st \<Longrightarrow> ready cfg (st\<lparr>TsdbQueue := Some q\<rparr>)"
  "ready cfg st \<Longrightarrow> ready cfg (st\<lparr>TransferQueue := Some q\<rparr>)"
  "ready cfg st \<Longrightarrow> ready cfg (st\<lparr>InfluxdbQueue := Some q\<rparr>)"
  by (simp_all add: ready_def insert_absorb)

lemma all_items_set_all_in: "all_items qc cast qs \<Longrightarrow> all_in qc cast (Some q) \<Longrightarrow> all_items qc cast (m_set k q qs)"
  by (rule all_items_m_set) (auto simp: all_in_def)

lemma Transfer_ok_queue:
  assumes "Transfer_ok cfg qc st"
  shows "k \<in> fst ` set (JudgeQueues st) \<Longrightarrow> all_in qc as_judge (Some q)
      \<Longrightarrow> Transfer_ok cfg qc (st\<lparr>JudgeQueues := m_set k q (JudgeQueues st)\<rparr>)"
    "k \<in> fst ` set (GraphQueues st) \<Longrightarrow> all_in qc as_graph (Some q)
      \<Longrightarrow> Transfer_ok cfg qc (st\<lparr>GraphQueues := m_set k q (GraphQueues st)\<rparr>)"
    "k \<in> fst ` set (P8sRelayQueues st) \<Longrightarrow> all_in qc as_p8s (Some q)
      \<Longrightarrow> Transfer_ok cfg qc (st\<lparr>P8sRelayQueues := m_set k q (P8sRelayQueues st)\<rparr>)"
    "all_in qc as_tsdb (Some q) \<Longrightarrow> Transfer_ok cfg qc (st\<lparr>TsdbQueue := Some q\<rparr>)"
    "all_in qc as_meta (Some q) \<Longrightarrow> Transfer_ok cfg qc (st\<lparr>TransferQueue := Some q\<rparr>)"
    "all_in qc as_influxdb (Some q) \<Longrightarrow> Transfer_ok cfg qc (st\<lparr>InfluxdbQueue := Some q\<rparr>)"
  using assms unfolding Transfer_ok_def
  by (auto intro!: ready_queue simp: typed_def intro: all_items_set_all_in)

lemma m_get_of_key: "k \<in> fst ` set qs \<Longrightarrow> \<exists>q. m_get qs k = Some q"
  using m_get_None_iff [of qs k] by (cases "m_get qs k") auto

lemma forward2Judge_ok:
  assumes "limited_list ops qc qmax" "Transfer_ok cfg qc st" "node \<in> fst ` set (rc_Cluster (gc_Judge cfg))"
  shows "\<exists>r st'. forward2Judge_round ops cfg node outcome st = Some (r, st') \<and> Transfer_ok cfg qc st'"
proof -
  from assms have k: "node \<in> fst ` set (JudgeQueues st)" and t: "all_items qc as_judge (JudgeQueues st)"
    by (auto simp: Transfer_ok_def ready_def typed_def)
  from m_get_of_key [OF k] obtain q where q: "m_get (JudgeQueues st) node = Some q" ..
  from forward_round_total [OF assms(1) all_items_all_in [OF t q]] obtain r q' where
    r: "forward_round ops as_judge (rc_Batch (gc_Judge cfg)) outcome q = Some (r, q')" "all_in qc as_judge (Some q')" by blast
  have "Transfer_ok cfg qc (st\<lparr>JudgeQueues := m_set node q' (JudgeQueues st)\<rparr>)"
    by (rule Transfer_ok_queue(1) [OF assms(2) k r(2)])
  with q r(1) show ?thesis
    by (auto simp: forward2Judge_round_def Let_def split: option.split)
qed

lemma forward2Graph_ok:
  assumes "limited_list ops qc qmax" "Transfer_ok cfg qc st" "node \<in> fst ` set (rc_Cluster (gc_Graph cfg))"
    and "m_get (rc_ClusterList (gc_Graph cfg)) node = Some cn" "addr \<in> set (cn_Addrs cn)"
  shows "\<exists>r st'. forward2Graph_round ops cfg node addr outcome st = Some (r, st') \<and> Transfer_ok cfg qc st'"
proof -
  from assms have k: "node @ addr \<in> fst ` set (GraphQueues st)" and t: "all_items qc as_graph (GraphQueues st)"
    by (auto simp: Transfer_ok_def ready_def typed_def)
  from m_get_of_key [OF k] obtain q where q: "m_get (GraphQueues st) (node @ addr) = Some q" ..
  from forward_round_total [OF assms(1) all_items_all_in [OF t q]] obtain r q' where
    r: "forward_round ops as_graph (rc_Batch (gc_Graph cfg)) outcome q = Some (r, q')" "all_in qc as_graph (Some q')" by blast
  have "Transfer_ok cfg qc (st\<lparr>GraphQueues := m_set (node @ addr) q' (GraphQueues st)\<rparr>)"
    by (rule Transfer_ok_queue(2) [OF assms(2) k r(2)])
  with q r(1) show ?thesis
    by (auto simp: forward2Graph_round_def Let_def split: option.split)
qed

lemma forward2P8s_ok:
  assumes "limited_list ops qc qmax" "Transfer_ok cfg qc st" "rc_Enabled (gc_P8sRelay cfg)"
    and "node \<in> fst ` set (rc_Cluster (gc_P8sRelay cfg))"
    and "m_get (rc_ClusterList (gc_P8sRelay cfg)) node = Some cn" "addr \<in> set (cn_Addrs cn)"
  shows "\<exists>r st'. forward2P8sRelay_round ops cfg node addr outcome st = Some (r, st') \<and> Transfer_ok cfg qc st'"
proof -
  from assms have k: "node @ addr \<in> fst ` set (P8sRelayQueues st)" and t: "all_items qc as_p8s (P8sRelayQueues st)"
    by (auto simp: Transfer_ok_def ready_def typed_def)
  from m_get_of_key [OF k] obtain q where q: "m_get (P8sRelayQueues st) (node @ addr) = Some q" ..
  from forward_round_total [OF assms(1) all_items_all_in [OF t q]] obtain r q' where
    r: "forward_round ops as_p8s (rc_Batch (gc_P8sRelay cfg)) outcome q = Some (r, q')" "all_in qc as_p8s (Some q')" by blast
  have "Transfer_ok cfg qc (st\<lparr>P8sRelayQueues := m_set (node @ addr) q' (P8sRelayQueues st)\<rparr>)"
    by (rule Transfer_ok_queue(3) [OF assms(2) k r(2)])
  with q r(1) show ?thesis
    by (auto simp: forward2P8sRelay_round_def Let_def split: option.split)
qed

lemma Transfer_ok_count_batch [simp]:
  "Transfer_ok cfg qc (count_batch c d n outcome k st) = Transfer_ok cfg qc st"
  by (simp add: count_batch_def)

lemma forward2Tsdb_ok:
  assumes "limited_list ops qc qmax" "Transfer_ok cfg qc st" "tb_Enabled (gc_Tsdb cfg)"
  shows "\<exists>st'. forward2Tsdb_round ops cfg outcome st = Some st' \<and> Transfer_ok cfg qc st'"
proof -
  from assms(2,3) obtain q where q: "TsdbQueue st = Some q" "all_in qc as_tsdb (Some q)"
    by (cases "TsdbQueue st") (auto simp: Transfer_ok_def ready_def typed_def)
  obtain items q' where p: "q_PopBackBy ops (tb_Batch (gc_Tsdb cfg)) q = (items, q')" by fastforce
  note pop = all_in_pop [OF assms(1) q(2) p]
  from mapM_total [OF pop(2)] obtain ys where "mapM as_tsdb items = Some ys" by blast
  moreover have "Transfer_ok cfg qc (st\<lparr>TsdbQueue := Some q'\<rparr>)"
    by (rule Transfer_ok_queue(4) [OF assms(2) pop(1)])
  ultimately show ?thesis using q(1) p by (simp add: forward2Tsdb_round_def Let_def)
qed

lemma forward2Influxdb_ok:
  assumes "limited_list ops qc qmax" "Transfer_ok cfg qc st" "ix_Enabled (gc_Influxdb cfg)"
  shows "\<exists>st'. forward2Influxdb_round ops cfg True outcome st = Some st' \<and> Transfer_ok cfg qc st'"
proof -
  from assms(2,3) obtain q where q: "InfluxdbQueue st = Some q" "all_in qc as_influxdb (Some q)"
    by (cases "InfluxdbQueue st") (auto simp: Transfer_ok_def ready_def typed_def)
  obtain items q' where p: "q_PopBackBy ops (ix_Batch (gc_Influxdb cfg)) q = (items, q')" by fastforce
  note pop = all_in_pop [OF assms(1) q(2) p]
  from mapM_total [OF pop(2)] obtain ys where "mapM as_influxdb items = Some ys" by blast
  moreover have "Transfer_ok cfg qc (st\<lparr>InfluxdbQueue := Some q'\<rparr>)"
    by (rule Transfer_ok_queue(6) [OF assms(2) pop(1)])
  ultimately show ?thesis using q(1) p by (simp add: forward2Influxdb_round_def Let_def)
qed

text \<open>The passes over the hosts: the random offset must not push the index over the 64 bits.\<close>

definition rint_ok :: "string list \<Rightarrow> int \<Rightarrow> bool" where
  "rint_ok hosts r \<longleftrightarrow> 0 \<le> r \<and> r + int (length hosts) \<le> 2 ^ 63"

definition host_at :: "string list \<Rightarrow> int \<Rightarrow> int \<Rightarrow> string" where
  "host_at hosts r i = hosts ! nat ((i + r) mod int (length hosts))"

lemma host_index:
  assumes "rint_ok hosts r" "0 \<le> i" "i < int (length hosts)"
  shows "slice_get hosts (i64 (i + r) smod int (length hosts)) = Some (host_at hosts r i)"
proof -
  have "i64 (i + r) = i + r" using assms by (intro i64_id) (auto simp: rint_ok_def int64_range_def)
  moreover have "(i + r) smod int (length hosts) = (i + r) mod int (length hosts)"
    using assms by (intro smod_eq_mod) (auto simp: rint_ok_def)
  moreover have "0 < int (length hosts)" using assms(2,3) by linarith
  ultimately show ?thesis
    using pos_mod_sign [of "int (length hosts)" "i + r"] pos_mod_bound [of "int (length hosts)" "i + r"]
    by (simp add: slice_get_def host_at_def)
qed

lemma transfer_pass_total:
  assumes "rint_ok hosts r" "\<forall>i \<in> set is. 0 \<le> i \<and> i < int (length hosts)"
  shows "\<exists>cs. transfer_pass hosts r maxConns busy call is = Some cs"
  using assms(2) by (induction "is") (auto simp: host_index [OF assms(1)])

lemma transfer_passes_total:
  assumes "\<And>j. rint_ok hosts (rint j)"
  shows "\<exists>cs. transfer_passes hosts rint maxConns busy call j n = Some cs"
proof (induction n arbitrary: j)
  case (Suc n)
  obtain cs where "transfer_pass hosts (rint j) maxConns (busy j) (call j) [0..int (length hosts) - 1] = Some cs"
    using transfer_pass_total [OF assms, of "[0..int (length hosts) - 1]" j] by fastforce
  with Suc [of "Suc j"] show ?case by auto
qed simp

lemma forward2Transfer_ok:
  assumes "limited_list ops qc qmax" "Transfer_ok cfg qc st" "tf_Enabled (gc_Transfer cfg)"
    and "\<And>j. rint_ok (TransferHostnames st) (rint j)"
  shows "\<exists>r st'. forward2Transfer_round ops cfg rint busy call st = Some (r, st') \<and> Transfer_ok cfg qc st'"
proof -
  from assms(2,3) obtain q where q: "TransferQueue st = Some q" "all_in qc as_meta (Some q)"
    by (cases "TransferQueue st") (auto simp: Transfer_ok_def ready_def typed_def)
  obtain items q' where p: "q_PopBackBy ops (tf_Batch (gc_Transfer cfg)) q = (items, q')" by fastforce
  note pop = all_in_pop [OF assms(1) q(2) p]
  from mapM_total [OF pop(2)] obtain ys where "mapM as_meta items = Some ys" by blast
  moreover have "Transfer_ok cfg qc (st\<lparr>TransferQueue := Some q'\<rparr>)"
    by (rule Transfer_ok_queue(5) [OF assms(2) pop(1)])
  moreover from transfer_passes_total [where rint = rint, OF assms(4)] obtain cs where
    "transfer_passes (TransferHostnames st) rint (tf_MaxConns (gc_Transfer cfg)) busy call 0
      (nat (if tf_MaxRetry (gc_Transfer cfg) < 1 then 1 else tf_MaxRetry (gc_Transfer cfg))) = Some cs" by blast
  ultimately show ?thesis using q(1) p
    by (simp add: forward2Transfer_round_def Let_def del: transfer_passes.simps)
qed

lemma refresh_ok:
  assumes "Transfer_ok cfg qc st"
  shows "\<exists>st'. refreshSendingCacheSize ops cfg st = Some st' \<and> Transfer_ok cfg qc st'"
  using assms by (cases "TsdbQueue st"; cases "TransferQueue st")
    (auto simp: refreshSendingCacheSize_def if_do_def Transfer_ok_def ready_def typed_def set_cnt_def Let_def)

section \<open>Start and reachable states\<close>

definition Transfer_zero :: "'q Transfer_state" where
  "Transfer_zero = \<lparr> MinStep = 0, JudgeQueues = [], GraphQueues = [], P8sRelayQueues = [], TsdbQueue = None,
     TransferQueue = None, InfluxdbQueue = None, TransferMap = [], TransferHostnames = [], counters = (\<lambda>_. 0) \<rparr>"

lemma formatClusterItems_get:
  assumes "node \<in> fst ` set cluster"
  shows "\<exists>cn. m_get (formatClusterItems cluster) node = Some cn"
proof -
  have "fst ` set (foldl (\<lambda>ret (node, clusterStr).
       m_set node (NewClusterNode (map str_trim_space (str_split comma clusterStr))) ret) m cluster)
     = fst ` set m \<union> fst ` set cluster" for m
    by (induction cluster arbitrary: m) (simp_all add: case_prod_beta)
  then show ?thesis using assms by (intro m_get_of_key) (auto simp: formatClusterItems_def)
qed

lemma cluster_queues_keys:
  "fst ` set (cluster_queues ops cl qs) =
     fst ` set qs \<union> (\<Union>(node, cn) \<in> set cl. (@) node ` set (cn_Addrs cn))"
proof -
  have addrs: "fst ` set (foldl (\<lambda>qs addr. m_set (node @ addr) (NewSafeListLimited ops DefaultSendQueueMaxSize) qs) qs as)
      = fst ` set qs \<union> (@) node ` set as" for qs as and node :: string
    by (induction as arbitrary: qs) simp_all
  show ?thesis
    unfolding cluster_queues_def
    by (induction cl arbitrary: qs) (simp_all add: addrs case_prod_beta Un_assoc)
qed

lemma cluster_queues_values:
  "snd ` set (cluster_queues ops cl qs) \<subseteq> insert (NewSafeListLimited ops DefaultSendQueueMaxSize) (snd ` set qs)"
proof -
  let ?q = "NewSafeListLimited ops DefaultSendQueueMaxSize"
  have addrs: "snd ` set (foldl (\<lambda>qs addr. m_set (node @ addr) ?q qs) qs as) \<subseteq> insert ?q (snd ` set qs)"
    for qs as and node :: string
  proof (induction as arbitrary: qs)
    case (Cons a as)
    have "snd ` set (m_set (node @ a) ?q qs) \<subseteq> insert ?q (snd ` set qs)" by (rule snd_set_m_set)
    with Cons [of "m_set (node @ a) ?q qs"] show ?case by auto
  qed auto
  show ?thesis unfolding cluster_queues_def
  proof (induction cl arbitrary: qs)
    case (Cons x cl)
    obtain node cn where x: "x = (node, cn)" by (cases x)
    show ?case
      using Cons [of "foldl (\<lambda>qs addr. m_set (node @ addr) ?q qs) qs (cn_Addrs cn)"] addrs [of node qs "cn_Addrs cn"] x
      by auto
  qed auto
qed

lemma initTransferHosts_eq:
  "initTransferHosts cfg st = (if tf_Enabled (gc_Transfer cfg) then
     st\<lparr>TransferHostnames := TransferHostnames st @ map fst (tf_Cluster (gc_Transfer cfg)),
        TransferMap := foldl (\<lambda>m (hn, inst). m_set hn inst m) (TransferMap st) (tf_Cluster (gc_Transfer cfg))\<rparr> else st)"
proof -
  have "foldl (\<lambda>st (hn, inst). st\<lparr>TransferHostnames := TransferHostnames st @ [hn],
      TransferMap := m_set hn inst (TransferMap st)\<rparr>) st ks = st\<lparr>TransferHostnames := TransferHostnames st @ map fst ks,
      TransferMap := foldl (\<lambda>m (hn, inst). m_set hn inst m) (TransferMap st) ks\<rparr>" for ks
    by (induction ks arbitrary: st) auto
  then show ?thesis by (simp add: initTransferHosts_def)
qed

lemma Transfer_start_fields:
  fixes ops :: "'q queue_ops"
  assumes "cfg = split_clusters cfg0"
  defines "q \<equiv> NewSafeListLimited ops DefaultSendQueueMaxSize" and "st \<equiv> Transfer_start ops cfg Transfer_zero"
  shows "JudgeQueues st = foldl (\<lambda>qs (node, _). m_set node q qs) [] (rc_Cluster (gc_Judge cfg))"
    "GraphQueues st = cluster_queues ops (rc_ClusterList (gc_Graph cfg)) []"
    "P8sRelayQueues st = (if rc_Enabled (gc_P8sRelay cfg)
        then cluster_queues ops (rc_ClusterList (gc_P8sRelay cfg)) [] else [])"
    "TsdbQueue st = (if tb_Enabled (gc_Tsdb cfg) then Some q else None)"
    "TransferQueue st = (if tf_Enabled (gc_Transfer cfg) then Some q else None)"
    "InfluxdbQueue st = (if ix_Enabled (gc_Influxdb cfg) then Some q else None)"
    "MinStep st = (if gc_MinStep cfg < 1 then 30 else gc_MinStep cfg)"
    "TransferHostnames st = (if tf_Enabled (gc_Transfer cfg) then map fst (tf_Cluster (gc_Transfer cfg)) else [])"
  unfolding q_def st_def
  by (simp_all add: Transfer_start_def initSendQueues_def initTransferHosts_eq Transfer_zero_def assms(1)
      split_clusters_def Let_def)

lemma split_clusters_lists:
  assumes "cfg = split_clusters cfg0"
  shows "rc_ClusterList (gc_Graph cfg) = formatClusterItems (rc_Cluster (gc_Graph cfg))"
    "rc_ClusterList (gc_P8sRelay cfg) = formatClusterItems (rc_Cluster (gc_P8sRelay cfg))"
  by (simp_all add: assms split_clusters_def)

lemma judge_queues_foldl:
  "fst ` set (foldl (\<lambda>qs (node, _). m_set node q qs) qs cluster) = fst ` set qs \<union> fst ` set cluster"
  "snd ` set (foldl (\<lambda>qs (node, _). m_set node q qs) qs cluster) \<subseteq> insert q (snd ` set qs)"
proof -
  show "fst ` set (foldl (\<lambda>qs (node, _). m_set node q qs) qs cluster) = fst ` set qs \<union> fst ` set cluster"
    by (induction cluster arbitrary: qs) (simp_all add: case_prod_beta)
  show "snd ` set (foldl (\<lambda>qs (node, _). m_set node q qs) qs cluster) \<subseteq> insert q (snd ` set qs)"
  proof (induction cluster arbitrary: qs)
    case (Cons x cluster)
    have "snd ` set (m_set (fst x) q qs) \<subseteq> insert q (snd ` set qs)" by (rule snd_set_m_set)
    with Cons [of "m_set (fst x) q qs"] show ?case by (auto simp: case_prod_beta)
  qed auto
qed

lemma all_items_new: "snd ` set qs \<subseteq> {q} \<Longrightarrow> qc q = [] \<Longrightarrow> all_items qc cast qs"
  by (auto simp: all_items_def)

lemma Transfer_start_ok:
  assumes "limited_list ops qc qmax" "cfg = split_clusters cfg0"
  shows "Transfer_ok cfg qc (Transfer_start ops cfg Transfer_zero)"
proof -
  let ?q = "NewSafeListLimited ops DefaultSendQueueMaxSize"
  note fs = Transfer_start_fields [OF assms(2), of ops] and cl = split_clusters_lists [OF assms(2)]
  have empty: "qc ?q = []" using assms(1) by (simp add: limited_list_def)
  have nodes: "\<exists>cn. m_get cl node = Some cn \<and> (\<forall>addr \<in> set (cn_Addrs cn). node @ addr \<in> fst ` set (cluster_queues ops cl []))"
    if "cl = formatClusterItems cluster" "node \<in> fst ` set cluster" for cl cluster node
  proof -
    from formatClusterItems_get [OF that(2)] that(1) obtain cn where cn: "m_get cl node = Some cn" by auto
    from m_get_SomeD [OF this] show ?thesis using cn by (force simp: cluster_queues_keys)
  qed
  have "ready cfg (Transfer_start ops cfg Transfer_zero)"
    using nodes [OF cl(1)] nodes [OF cl(2)] unfolding ready_def fs(1-7) judge_queues_foldl(1) by simp
  moreover have "typed qc (Transfer_start ops cfg Transfer_zero)"
    unfolding typed_def fs(1-6)
    using all_items_new [where qc = qc and cast = as_judge, OF judge_queues_foldl(2) [of ?q "[]", simplified] empty]
      all_items_new [where qc = qc and cast = as_graph, OF cluster_queues_values [of ops _ "[]", simplified] empty]
      all_items_new [where qc = qc and cast = as_p8s, OF cluster_queues_values [of ops _ "[]", simplified] empty]
      empty
    by (simp add: all_in_def all_items_def [of qc as_p8s "[]"])
  ultimately show ?thesis by (simp add: Transfer_ok_def)
qed

text \<open>
  The goroutines interleave handler by handler: a receiver takes a request, a send task makes a round
  on a queue of its own node, or the sizes are refreshed.
\<close>

inductive transfer_step ::
  "'q queue_ops \<Rightarrow> rings \<Rightarrow> GlobalConfig \<Rightarrow> 'q Transfer_state \<Rightarrow> 'q Transfer_state \<Rightarrow> bool"
  for ops rs cfg where
  recv: "RecvMetricValues ops rs cfg now latency args from st = Some (resp, st') \<Longrightarrow> transfer_step ops rs cfg st st'"
| telnet: "socketTelnetHandle ops rs cfg input st = Some st' \<Longrightarrow> transfer_step ops rs cfg st st'"
| judge: "node \<in> fst ` set (rc_Cluster (gc_Judge cfg)) \<Longrightarrow>
    forward2Judge_round ops cfg node outcome st = Some (sent, st') \<Longrightarrow> transfer_step ops rs cfg st st'"
| graph: "node \<in> fst ` set (rc_Cluster (gc_Graph cfg)) \<Longrightarrow> m_get (rc_ClusterList (gc_Graph cfg)) node = Some cn
    \<Longrightarrow> addr \<in> set (cn_Addrs cn)
    \<Longrightarrow> forward2Graph_round ops cfg node addr outcome st = Some (sent2, st') \<Longrightarrow> transfer_step ops rs cfg st st'"
| p8s: "rc_Enabled (gc_P8sRelay cfg) \<Longrightarrow> node \<in> fst ` set (rc_Cluster (gc_P8sRelay cfg))
    \<Longrightarrow> m_get (rc_ClusterList (gc_P8sRelay cfg)) node = Some cn \<Longrightarrow> addr \<in> set (cn_Addrs cn)
    \<Longrightarrow> forward2P8sRelay_round ops cfg node addr outcome st = Some (sent3, st') \<Longrightarrow> transfer_step ops rs cfg st st'"
| transfer: "tf_Enabled (gc_Transfer cfg) \<Longrightarrow> (\<And>j. rint_ok (TransferHostnames st) (rint j))
    \<Longrightarrow> forward2Transfer_round ops cfg rint busy call st = Some (calls, st') \<Longrightarrow> transfer_step ops rs cfg st st'"
| tsdb: "tb_Enabled (gc_Tsdb cfg) \<Longrightarrow> forward2Tsdb_round ops cfg outcome st = Some st' \<Longrightarrow> transfer_step ops rs cfg st st'"
| influxdb: "ix_Enabled (gc_Influxdb cfg) \<Longrightarrow> forward2Influxdb_round ops cfg True outcome st = Some st'
    \<Longrightarrow> transfer_step ops rs cfg st st'"
| refresh: "refreshSendingCacheSize ops cfg st = Some st' \<Longrightarrow> transfer_step ops rs cfg st st'"

lemma transfer_step_ok:
  assumes "transfer_step ops rs cfg st st'" "limited_list ops qc qmax" "rings_ok cfg rs" "Transfer_ok cfg qc st"
  shows "Transfer_ok cfg qc st'"
  using assms(1)
proof cases
  case (recv now latency args "from" resp)
  with RecvMetricValues_ok [OF assms(2-4), of now latency args "from"] show ?thesis by auto
next
  case (telnet input)
  with socketTelnetHandle_ok [OF assms(2-4), of input] show ?thesis by auto
next
  case (judge node outcome sent)
  with forward2Judge_ok [OF assms(2,4) judge(1), of outcome] show ?thesis by auto
next
  case (graph node cn addr outcome sent2)
  with forward2Graph_ok [OF assms(2,4) graph(1-3), of outcome] show ?thesis by auto
next
  case (p8s node cn addr outcome sent3)
  with forward2P8s_ok [OF assms(2,4) p8s(1-4), of outcome] show ?thesis by auto
next
  case (transfer rint busy call calls)
  with forward2Transfer_ok [where rint = rint and busy = busy and call = call, OF assms(2,4) transfer(1,2)] show ?thesis by auto
next
  case (tsdb outcome)
  with forward2Tsdb_ok [OF assms(2,4) tsdb(1), of outcome] show ?thesis by auto
next
  case (influxdb outcome)
  with forward2Influxdb_ok [OF assms(2,4) influxdb(1), of outcome] show ?thesis by auto
next
  case refresh
  with refresh_ok [OF assms(4), of ops] show ?thesis by auto
qed

lemma transfer_reach_ok:
  assumes "(transfer_step ops rs cfg)\<^sup>*\<^sup>* (Transfer_start ops cfg Transfer_zero) st"
    and "limited_list ops qc qmax" "rings_ok cfg rs" "cfg = split_clusters cfg0"
  shows "Transfer_ok cfg qc st"
  using assms(1)
proof induction
  case base
  show ?case by (rule Transfer_start_ok [OF assms(2,4)])
next
  case (step st st')
  from transfer_step_ok [OF step(2) assms(2,3) step(3)] show ?case .
qed

text \<open>A configuration, rings and a point on which the properties are exercised.\<close>

definition demo_cfg0 :: GlobalConfig where
  "demo_cfg0 = \<lparr> gc_MinStep = 30,
     gc_Judge = \<lparr> rc_Enabled = True, rc_Batch = 2, rc_MaxConns = 32, rc_Replicas = 500,
       rc_Cluster = [(''j0'', ''h:6080'')], rc_ClusterList = [] \<rparr>,
     gc_Graph = \<lparr> rc_Enabled = True, rc_Batch = 200, rc_MaxConns = 32, rc_Replicas = 500,
       rc_Cluster = [(''g0'', ''h:6070,k:6070'')], rc_ClusterList = [] \<rparr>,
     gc_Tsdb = \<lparr> tb_Enabled = True, tb_Batch = 200, tb_MaxConns = 32, tb_MaxRetry = 3 \<rparr>,
     gc_Transfer = \<lparr> tf_Enabled = True, tf_Batch = 200, tf_MaxConns = 32, tf_MaxRetry = 3,
       tf_Cluster = [(''t0'', ''h:8433''), (''t1'', ''k:8433'')] \<rparr>,
     gc_Influxdb = \<lparr> ix_Enabled = True, ix_Batch = 200, ix_MaxRetry = 3, ix_MaxConns = 32 \<rparr>,
     gc_P8sRelay = \<lparr> rc_Enabled = True, rc_Batch = 200, rc_MaxConns = 32, rc_Replicas = 500,
       rc_Cluster = [(''p0'', ''h:9000'')], rc_ClusterList = [], rc_NotSyncMetrics = [''net.''] \<rparr> \<rparr>"

definition demo_cfg :: GlobalConfig where
  "demo_cfg = split_clusters demo_cfg0"

definition demo_rings :: rings where
  "demo_rings = \<lparr> JudgeNodeRing = (\<lambda>_. Inr ''j0''), GraphNodeRing = (\<lambda>_. Inr ''g0''),
     P8sRelayNodeRing = (\<lambda>_. Inr ''p0'') \<rparr>"

definition demo_start :: "(int \<times> qitem list) Transfer_state" where
  "demo_start = Transfer_start list_ops demo_cfg Transfer_zero"

definition demo_value :: MetricValue where
  "demo_value = \<lparr> mv_Endpoint = ''h'', mv_Metric = ''cpu.idle'', mv_Value = VInt64 7, mv_Step = 60,
     mv_Type = GAUGE, mv_Tags = ''dc=a'', mv_Timestamp = 1500000061 \<rparr>"

lemma demo_rings_ok: "rings_ok demo_cfg demo_rings"
  by (simp add: rings_ok_def ring_ok_def demo_cfg_def demo_cfg0_def split_clusters_def demo_rings_def)

lemma demo_reach: "(transfer_step list_ops demo_rings demo_cfg)\<^sup>*\<^sup>* demo_start demo_start"
  by simp

section \<open>What reaches a judge\<close>

definition judge_item :: "int \<Rightarrow> MetaData \<Rightarrow> JudgeItem" where
  "judge_item m d = (let p = min_step m (md_Step d) in
     \<lparr> ji_Endpoint = md_Endpoint d, ji_Metric = md_Metric d, ji_Value = md_Value d,
       ji_Timestamp = md_Timestamp d - md_Timestamp d smod p, ji_JudgeType = md_CounterType d, ji_Tags = md_Tags d \<rparr>)"

definition routed :: "rings \<Rightarrow> string \<Rightarrow> MetaData list \<Rightarrow> MetaData list" where
  "routed rs node ds = filter (\<lambda>d. JudgeNodeRing rs (MetaData_PK d) = Inr node) ds"

lemma Push2Judge_item_queue:
  assumes lim: "limited_list ops qc qmax" and m: "1 \<le> MinStep st"
    and r: "Push2Judge_item ops rs st d = Some st'" and q: "m_get (JudgeQueues st) node = Some q"
    and room: "int (length (qc q)) < qmax q"
  shows "\<exists>q'. m_get (JudgeQueues st') node = Some q' \<and> qmax q' = qmax q
    \<and> qc q' = qc q @ map (\<lambda>d. QJudge (judge_item (MinStep st) d)) (routed rs node [d]) \<and> MinStep st' = MinStep st"
proof (cases "JudgeNodeRing rs (MetaData_PK d)")
  case (Inl e)
  with r q show ?thesis by (simp add: Push2Judge_item_def routed_def)
next
  case (Inr node')
  have ts: "alignTs (md_Timestamp d) (min_step (MinStep st) (md_Step d)) =
      Some (md_Timestamp d - md_Timestamp d smod min_step (MinStep st) (md_Step d))"
    using min_step_ge [OF m] by (intro alignTs_some) simp
  from r Inr ts obtain ok qs where p: "push_at ops node' (QJudge (judge_item (MinStep st) d)) (JudgeQueues st) = Some (ok, qs)"
    "JudgeQueues st' = qs" "MinStep st' = MinStep st"
    by (auto simp: Push2Judge_item_def Let_def judge_item_def bind_eq_Some_conv incr_by_def split: if_splits)
  from p(1) obtain q0 q1 where q1: "m_get (JudgeQueues st) node' = Some q0"
    "q_PushFront ops (QJudge (judge_item (MinStep st) d)) q0 = (ok, q1)" "qs = m_set node' q1 (JudgeQueues st)"
    by (auto simp: push_at_iff)
  show ?thesis
  proof (cases "node' = node")
    case True
    with q q1(1) have "q0 = q" by simp
    with limited_push [OF lim q1(2)] room True p(2,3) q1(3) Inr show ?thesis
      by (auto simp: routed_def split: if_splits)
  next
    case False
    with q p(2,3) q1(3) Inr show ?thesis by (simp add: routed_def)
  qed
qed

lemma Push2Judge_queue:
  assumes lim: "limited_list ops qc qmax" and m: "1 \<le> MinStep st"
    and r: "Push2JudgeSendQueue ops rs ds st = Some st'" and q: "m_get (JudgeQueues st) node = Some q"
    and room: "int (length (qc q)) + int (length ds) \<le> qmax q"
  shows "\<exists>q'. m_get (JudgeQueues st') node = Some q' \<and> qmax q' = qmax q
    \<and> qc q' = qc q @ map (\<lambda>d. QJudge (judge_item (MinStep st) d)) (routed rs node ds)"
  using m r q room unfolding Push2JudgeSendQueue_def
proof (induction ds arbitrary: st q)
  case Nil
  then show ?case by (simp add: routed_def)
next
  case (Cons d ds)
  from Cons.prems(2) obtain st1 where st1: "Push2Judge_item ops rs st d = Some st1"
    "foldM (Push2Judge_item ops rs) st1 ds = Some st'" by (auto split: option.splits)
  have "int (length (qc q)) < qmax q" using Cons.prems(4) by simp
  from Push2Judge_item_queue [OF lim Cons.prems(1) st1(1) Cons.prems(3) this] obtain q1 where
    q1: "m_get (JudgeQueues st1) node = Some q1" "qmax q1 = qmax q" "MinStep st1 = MinStep st"
    "qc q1 = qc q @ map (\<lambda>d. QJudge (judge_item (MinStep st) d)) (routed rs node [d])" by blast
  have "int (length (qc q1)) + int (length ds) \<le> qmax q1"
    using Cons.prems(4) q1(2,4) by (simp add: routed_def)
  from Cons.IH [OF _ st1(2) q1(1) this] Cons.prems(1) q1(3) obtain q' where
    "m_get (JudgeQueues st') node = Some q' \<and> qmax q' = qmax q1
      \<and> qc q' = qc q1 @ map (\<lambda>d. QJudge (judge_item (MinStep st) d)) (routed rs node ds)" by auto
  with q1(2,4) show ?case by (simp add: routed_def)
qed

text \<open>A run of rounds of the task of one node: what was sent, in order; the round \<open>k\<close> has outcomes \<open>out k\<close>.\<close>

fun judge_rounds ::
  "'q queue_ops \<Rightarrow> GlobalConfig \<Rightarrow> string \<Rightarrow> (nat \<Rightarrow> nat \<Rightarrow> bool) \<Rightarrow> nat \<Rightarrow> nat \<Rightarrow> 'q Transfer_state
     \<Rightarrow> (JudgeItem list \<times> 'q Transfer_state) go" where
  "judge_rounds ops cfg node out k 0 st = Some ([], st)"
| "judge_rounds ops cfg node out k (Suc n) st = do {
     (r, st1) \<leftarrow> forward2Judge_round ops cfg node (out k) st;
     (ys, st2) \<leftarrow> judge_rounds ops cfg node out (Suc k) n st1;
     Some ((case r of None \<Rightarrow> [] | Some xs \<Rightarrow> xs) @ ys, st2) }"

lemma try_send_iff: "fst (try_send n k outcome) \<longleftrightarrow> (\<exists>i < n. outcome (k + i))"
proof (induction n k outcome rule: try_send.induct)
  case (2 n k outcome)
  have "(\<exists>i < Suc n. outcome (k + i)) \<longleftrightarrow> outcome k \<or> (\<exists>i < n. outcome (Suc k + i))"
    by (metis (no_types, lifting) add.right_neutral add_Suc_right add_Suc Suc_less_eq less_Suc_eq_0_disj zero_less_Suc)
  with 2 show ?case by simp
qed simp

lemma try_send_calls: "snd (try_send n k outcome) \<le> k + n"
  by (induction n k outcome rule: try_send.induct) auto

lemma mapM_as_judge: "mapM as_judge (map QJudge xs) = Some xs"
  by (induction xs) (simp_all add: as_judge_def)

lemma forward2Judge_round_some:
  assumes lim: "limited_list ops qc qmax" and q: "m_get (JudgeQueues st) node = Some q" "qc q = map QJudge xs"
    and out: "\<exists>i < 3. outcome i"
  shows "\<exists>r st' q'. forward2Judge_round ops cfg node outcome st = Some (r, st')
    \<and> (case r of None \<Rightarrow> [] | Some ys \<Rightarrow> ys) = take (nat (rc_Batch (gc_Judge cfg))) xs
    \<and> m_get (JudgeQueues st') node = Some q' \<and> qc q' = map QJudge (drop (nat (rc_Batch (gc_Judge cfg))) xs)"
proof -
  let ?b = "rc_Batch (gc_Judge cfg)"
  obtain items q' where p: "q_PopBackBy ops ?b q = (items, q')" by fastforce
  note pop = limited_pop [OF lim p]
  have ok: "fst (try_send 3 0 outcome)" using out by (simp add: try_send_iff)
  have items: "items = map QJudge (take (nat ?b) xs)" "qc q' = map QJudge (drop (nat ?b) xs)"
    using pop q(2) by (simp_all add: take_map drop_map)
  show ?thesis
    using q(1) p ok items mapM_as_judge [of "take (nat ?b) xs"]
    by (auto simp: forward2Judge_round_def forward_round_def Let_def incr_by_def simp del: try_send.simps)
qed

lemma judge_rounds_drain:
  assumes lim: "limited_list ops qc qmax" and b: "1 \<le> rc_Batch (gc_Judge cfg)"
    and out: "\<And>k. \<exists>i < 3. out k i"
    and "m_get (JudgeQueues st) node = Some q" "qc q = map QJudge xs" "length xs \<le> n"
  shows "\<exists>st' q'. judge_rounds ops cfg node out k n st = Some (xs, st')
    \<and> m_get (JudgeQueues st') node = Some q' \<and> qc q' = []"
  using assms(4-6)
proof (induction n arbitrary: k st q xs)
  case 0
  then show ?case by simp
next
  case (Suc n)
  let ?b = "nat (rc_Batch (gc_Judge cfg))"
  from forward2Judge_round_some [where cfg = cfg and outcome = "out k", OF lim Suc.prems(1,2) out] obtain r st1 q1 where
    r: "forward2Judge_round ops cfg node (out k) st = Some (r, st1)"
    "(case r of None \<Rightarrow> [] | Some ys \<Rightarrow> ys) = take ?b xs"
    "m_get (JudgeQueues st1) node = Some q1" "qc q1 = map QJudge (drop ?b xs)" by blast
  have "length (drop ?b xs) \<le> n" using Suc.prems(3) b by simp
  from Suc.IH [OF r(3,4) this, of "Suc k"] obtain st2 q2 where
    "judge_rounds ops cfg node out (Suc k) n st1 = Some (drop ?b xs, st2)"
    "m_get (JudgeQueues st2) node = Some q2" "qc q2 = []" by blast
  with r(1,2) show ?case by simp
qed

section \<open>The passes over the hosts\<close>

lemma transfer_pass_calls:
  assumes "rint_ok hosts r" "\<forall>i \<in> set is. 0 \<le> i \<and> i < int (length hosts)"
    and "\<forall>h \<in> set hosts. busy h < maxConns"
  shows "\<exists>cs. transfer_pass hosts r maxConns busy call is = Some cs
    \<and> map fst cs = take (length cs) (map (host_at hosts r) is)
    \<and> ((\<exists>c \<in> set cs. snd c) \<longleftrightarrow> (\<exists>i \<in> set is. call (host_at hosts r i)))
    \<and> (length cs = length is \<or> (\<exists>c \<in> set cs. snd c))"
  using assms(2)
proof (induction "is")
  case (Cons i js)
  then have i: "0 \<le> i" "i < int (length hosts)" by auto
  have "0 \<le> (i + r) mod int (length hosts)" "(i + r) mod int (length hosts) < int (length hosts)"
    using i pos_mod_sign [of "int (length hosts)" "i + r"] pos_mod_bound [of "int (length hosts)" "i + r"] by linarith+
  then have "host_at hosts r i \<in> set hosts" by (simp add: host_at_def nat_less_iff)
  with assms(3) have nb: "\<not> maxConns \<le> busy (host_at hosts r i)" by auto
  from Cons obtain cs where "transfer_pass hosts r maxConns busy call js = Some cs"
    "map fst cs = take (length cs) (map (host_at hosts r) js)"
    "(\<exists>c \<in> set cs. snd c) \<longleftrightarrow> (\<exists>i \<in> set js. call (host_at hosts r i))"
    "length cs = length js \<or> (\<exists>c \<in> set cs. snd c)" by auto
  with nb show ?case
    by (cases "call (host_at hosts r i)") (auto simp: host_index [OF assms(1) i])
qed simp

lemma rotate_hosts:
  assumes "rint_ok hosts r"
  shows "map (host_at hosts r) [0..int (length hosts) - 1] = rotate (nat (r mod int (length hosts))) hosts"
proof (cases "hosts = []")
  case False
  let ?n = "int (length hosts)"
  from False have pos: "0 < ?n" by simp
  have eq: "map (host_at hosts r) [0..?n - 1] ! k = rotate (nat (r mod ?n)) hosts ! k" if "k < length hosts" for k
  proof -
    have "nat ((int k + r) mod ?n) = (nat (r mod ?n) + k) mod length hosts"
      using pos assms by (simp add: rint_ok_def nat_mod_distrib nat_add_distrib mod_simps add.commute)
    with that False show ?thesis by (simp add: host_at_def nth_rotate add.commute)
  qed
  show ?thesis by (rule nth_equalityI) (use eq in \<open>simp_all\<close>)
qed simp

section \<open>Forwarding to another transfer\<close>

lemma recv_value_tags:
  "recv_value now v = Some d \<Longrightarrow> \<exists>s. md_Tags d = DictedTagstring s \<and> length (md_Metric d) + length s \<le> 510
     \<and> md_Metric d \<noteq> ''kernel.hostname''"
  by (auto simp: recv_value_def Let_def split: option.splits if_splits)

lemma recv_convert:
  assumes d: "recv_value now v = Some d" and now: "0 < now" "now \<le> now'" "now' < 2 ^ 62"
  shows "recv_value now' (Some (convert d)) = Some (d\<lparr>md_Tags := DictedTagstring (SortedTags (md_Tags d))\<rparr>)"
proof -
  from recv_value_tags [OF d] obtain s where s: "md_Tags d = DictedTagstring s" "length (md_Metric d) + length s \<le> 510"
    "md_Metric d \<noteq> ''kernel.hostname''" by blast
  have "int (length (md_Metric d)) + int (length (SortedTags (md_Tags d))) \<le> 510"
    using SortedTags_length [of s] s(1,2) by simp
  moreover have "0 < md_Timestamp d" "md_Timestamp d \<le> 2 * now" using recv_value_time [OF d now(1)] now by auto
  moreover have "i64 (now' * 2) = now' * 2" using now by (intro i64_id) (auto simp: int64_range_def)
  ultimately show ?thesis
    using recv_value_good [OF d] s(3) now
    by (auto simp: recv_value_def convert_def good_point_def value_of_def Let_def)
qed

section \<open>Properties\<close>



text \<open>C13: Every queue holds items of one type only, in every reachable state: judge items in the judge queues, graph
  items in the graph queues, and so on; the type assertions of the send tasks cannot fail.\<close>

theorem queues_typed:
  assumes "(transfer_step ops rs cfg)\<^sup>*\<^sup>* (Transfer_start ops cfg Transfer_zero) st"
    and "limited_list ops qc qmax" "rings_ok cfg rs" "cfg = split_clusters cfg0"
  shows "typed qc st"
  using transfer_reach_ok [OF assms] by (simp add: Transfer_ok_def)

theorem queues_typed_witness: "typed snd demo_start"
  unfolding demo_start_def
  by (rule queues_typed [OF demo_reach [unfolded demo_start_def] list_ops_limited demo_rings_ok demo_cfg_def])

text \<open>C14: A received batch is accounted for: the response counts every value, the invalid ones are exactly those the
  receiver cannot turn into a point, the rest is what the receive counter grows by, and every accepted
  point has a metric, an endpoint, a known type, a positive step and a timestamp after the epoch and at
  most twice the clock.\<close>

theorem recv_accounting:
  assumes "(transfer_step ops rs cfg)\<^sup>*\<^sup>* (Transfer_start ops cfg Transfer_zero) st"
    and "limited_list ops qc qmax" "rings_ok cfg rs" "cfg = split_clusters cfg0" "0 < now" "now < 2 ^ 62"
  shows "\<exists>resp st'. RecvMetricValues ops rs cfg now latency args from st = Some (resp, st')
    \<and> tr_Total resp = int (length args)
    \<and> tr_Invalid resp = int (length (filter (\<lambda>v. recv_value now v = None) args))
    \<and> tr_Invalid resp + (counters st' RecvCnt - counters st RecvCnt) = tr_Total resp
    \<and> (\<forall>d \<in> set (accepted now args). good_point d \<and> 0 < md_Timestamp d \<and> md_Timestamp d \<le> 2 * now)"
proof -
  have good: "\<forall>d \<in> set (accepted now args). good_point d \<and> 0 < md_Timestamp d \<and> md_Timestamp d \<le> 2 * now"
    using recv_value_good recv_value_time [OF _ assms(5,6)] by (auto simp: set_accepted)
  from RecvMetricValues_ok [OF assms(2,3) transfer_reach_ok [OF assms(1-4)], of now latency args "from"]
  obtain st' where "RecvMetricValues ops rs cfg now latency args from st =
      Some (\<lparr> tr_Message = ''ok'', tr_Total = int (length args),
               tr_Invalid = int (length (filter (\<lambda>v. recv_value now v = None) args)), tr_Latency = latency \<rparr>, st')"
    "counters st' RecvCnt = counters st RecvCnt + int (length (accepted now args))" by blast
  with good accepted_count [of now args] show ?thesis
    by (intro exI [of _ "\<lparr> tr_Message = ''ok'', tr_Total = int (length args),
               tr_Invalid = int (length (filter (\<lambda>v. recv_value now v = None) args)), tr_Latency = latency \<rparr>"]
        exI [of _ st']) simp
qed

theorem recv_accounting_witness:
  "\<exists>resp st'. RecvMetricValues list_ops demo_rings demo_cfg 1500000000 0 [Some demo_value, None] ''rpc'' demo_start
      = Some (resp, st') \<and> tr_Total resp = 2 \<and> tr_Invalid resp = 1
      \<and> counters st' RecvCnt = counters demo_start RecvCnt + 1"
proof -
  have "recv_value 1500000000 (Some demo_value) \<noteq> None"
    by (simp add: recv_value_def demo_value_def value_of_def Let_def)
  moreover have "recv_value 1500000000 None = None" by (simp add: recv_value_def)
  ultimately show ?thesis
    using recv_accounting [OF demo_reach [unfolded demo_start_def] list_ops_limited demo_rings_ok demo_cfg_def,
        of 1500000000 0 "[Some demo_value, None]" "''rpc''"]
    unfolding demo_start_def by force
qed


definition demo_point :: MetaData where
  "demo_point = \<lparr> md_Metric = ''cpu.idle'', md_Endpoint = ''h'', md_Timestamp = 1500000061, md_Step = 60,
     md_Value = Num 7, md_CounterType = GAUGE, md_Tags = [(''dc'', ''a'')] \<rparr>"

lemma demo_judge_queue: "m_get (JudgeQueues demo_start) ''j0'' = Some (102400, [])"
  by (simp add: demo_start_def Transfer_start_def initSendQueues_def initTransferHosts_def list_ops_def
      demo_cfg_def demo_cfg0_def split_clusters_def Transfer_zero_def Let_def)




text \<open>C17: A point the receiver accepted becomes a graph item without a panic: its step is the larger of its own and
  the minimal step, its timestamp is the largest multiple of that step not after the point, counters and
  derives are stored as DERIVE bounded below by zero, gauges as GAUGE without bounds.\<close>

theorem graph_item_aligned:
  assumes "recv_value now v = Some d" "1 \<le> minStep" "0 < now" "now < 2 ^ 62"
  shows "\<exists>g. convert2GraphItem minStep d = Some (Inr g)
    \<and> gi_Step g = max minStep (md_Step d)
    \<and> gi_Step g dvd gi_Timestamp g
    \<and> gi_Timestamp g \<le> md_Timestamp d \<and> md_Timestamp d < gi_Timestamp g + gi_Step g
    \<and> (gi_DsType g, gi_Min g) = (if md_CounterType d = GAUGE then (GAUGE, ''U'') else (DERIVE, ''0''))
    \<and> gi_Endpoint g = md_Endpoint d \<and> gi_Metric g = md_Metric d \<and> gi_Tags g = md_Tags d \<and> gi_Value g = md_Value d"
proof -
  let ?s = "min_step minStep (md_Step d)" and ?t = "md_Timestamp d"
  have s: "1 \<le> ?s" "?s = max minStep (md_Step d)" using assms(2) by (auto simp: min_step_def)
  note ts = alignTs_some [OF s(1), of ?t]
  have "0 \<le> ?t" using recv_value_time [OF assms(1,3,4)] by simp
  with s(1) have "0 \<le> ?t smod ?s" "?t smod ?s < ?s" using smod_bounds_nonneg [of ?t ?s] by auto
  with s ts smod_dvd [of ?s ?t] recv_value_good [OF assms(1)] show ?thesis
    by (auto simp: convert2GraphItem_def Let_def good_point_def)
qed

theorem graph_item_aligned_witness:
  "\<exists>d g. recv_value 1500000000 (Some demo_value) = Some d \<and> convert2GraphItem 30 d = Some (Inr g)
    \<and> gi_Step g = 60 \<and> gi_Step g dvd gi_Timestamp g"
proof -
  obtain d where d: "recv_value 1500000000 (Some demo_value) = Some d" "md_Step d = 60"
    by (auto simp: recv_value_def demo_value_def value_of_def Let_def)
  from graph_item_aligned [OF d(1), of 30] d show ?thesis by auto
qed



text \<open>A pass over the hosts of the transfer cluster starts at a random host and goes round: where no host is at
  its connection limit, the hosts called are the first ones of the list rotated by the random offset, all of
  them, each once, if no call succeeds, and the batch is sent exactly if some host takes it.\<close>

theorem transfer_pass_rotates:
  assumes "rint_ok hosts r" "\<forall>h \<in> set hosts. busy h < maxConns"
  shows "\<exists>cs. transfer_pass hosts r maxConns busy call [0..int (length hosts) - 1] = Some cs
    \<and> map fst cs = take (length cs) (rotate (nat (r mod int (length hosts))) hosts)
    \<and> ((\<exists>c \<in> set cs. snd c) \<longleftrightarrow> (\<exists>h \<in> set hosts. call h))
    \<and> (length cs = length hosts \<or> (\<exists>c \<in> set cs. snd c))"
proof -
  let ?is = "[0..int (length hosts) - 1]"
  have "\<forall>i \<in> set ?is. 0 \<le> i \<and> i < int (length hosts)" by auto
  from transfer_pass_calls [OF assms(1) this assms(2), of call] obtain cs where
    cs: "transfer_pass hosts r maxConns busy call ?is = Some cs"
    "map fst cs = take (length cs) (map (host_at hosts r) ?is)"
    "(\<exists>c \<in> set cs. snd c) \<longleftrightarrow> (\<exists>i \<in> set ?is. call (host_at hosts r i))"
    "length cs = length ?is \<or> (\<exists>c \<in> set cs. snd c)" by blast
  note rot = rotate_hosts [OF assms(1)]
  have "(\<exists>i \<in> set ?is. call (host_at hosts r i)) \<longleftrightarrow> (\<exists>h \<in> set (map (host_at hosts r) ?is). call h)" by simp
  also have "\<dots> \<longleftrightarrow> (\<exists>h \<in> set hosts. call h)" unfolding rot by simp
  finally show ?thesis using cs unfolding rot by auto
qed

theorem transfer_pass_rotates_witness:
  "\<exists>cs. transfer_pass [''t0'', ''t1''] 5 32 (\<lambda>_. 0) (\<lambda>_. False) [0..int (length [''t0'', ''t1'']) - 1] = Some cs
    \<and> map fst cs = [''t1'', ''t0'']"
proof -
  have "rint_ok [''t0'', ''t1''] 5" "\<forall>h \<in> set [''t0'', ''t1'']. (\<lambda>_. 0) h < (32::int)"
    by (simp_all add: rint_ok_def)
  from transfer_pass_rotates [OF this, of "\<lambda>_. False"] show ?thesis by auto
qed

text \<open>With the largest random number the index of the second host wraps to a negative value: the task panics.\<close>

lemma transfer_pass_overflow:
  "transfer_pass [''t0'', ''t1'', ''t2''] (2 ^ 63 - 1) 32 (\<lambda>_. 0) (\<lambda>_. False) [0..2] = None"
  by code_simp

end
