(* ===== verification/GraphStore.thy ===== *)
theory GraphStore
  imports CommonModel Interfaces
begin

text \<open>
  The cache of the graph module: file names and cache keys (\<open>modules/graph/g/utils.go\<close>), the list
  of the unflushed points of one counter (\<open>store/linkedlist.go\<close>) and the sharded map of these lists
  (\<open>store/store.go\<close>).

  The map has a fixed number of shards, set by the package's \<open>init\<close>; the shard of a key is its CRC
  modulo that number, so the shard index is below the length of the shard array and the accesses
  are written with \<open>!\<close>.  Lists are kept front first, which is newest first.
\<close>

unbundle bit_operations_syntax

section \<open>Constants and keys\<close>

abbreviation CACHE_TIME :: int where "CACHE_TIME \<equiv> 1800000"
abbreviation FLUSH_DISK_STEP :: int where "FLUSH_DISK_STEP \<equiv> 1000"
abbreviation FLUSH_MIN_COUNT :: int where "FLUSH_MIN_COUNT \<equiv> 6"
abbreviation FLUSH_MAX_WAIT :: int where "FLUSH_MAX_WAIT \<equiv> 86400"

abbreviation GRAPH_F_MISS :: "32 word" where "GRAPH_F_MISS \<equiv> 1"
abbreviation GRAPH_F_ERR :: "32 word" where "GRAPH_F_ERR \<equiv> 2"
abbreviation GRAPH_F_SENDING :: "32 word" where "GRAPH_F_SENDING \<equiv> 4"
abbreviation GRAPH_F_FETCHING :: "32 word" where "GRAPH_F_FETCHING \<equiv> 8"

abbreviation underscore :: char where "underscore \<equiv> CHR ''_''"

text \<open>The slice \<open>md5[0:2]\<close> panics on a shorter string.\<close>

definition RrdFileName :: "string \<Rightarrow> string \<Rightarrow> string \<Rightarrow> int \<Rightarrow> string go" where
  "RrdFileName baseDir md5 dsType step = do {
     pre \<leftarrow> slice_sub md5 0 2;
     Some (baseDir @ [slash] @ pre @ [slash] @ md5 @ [underscore] @ dsType @ [underscore] @ Itoa step @ ''.rrd'') }"

definition FormRrdCacheKey :: "string \<Rightarrow> string \<Rightarrow> int \<Rightarrow> string" where
  "FormRrdCacheKey md5 dsType step = md5 @ [underscore] @ dsType @ [underscore] @ Itoa step"

definition SplitRrdCacheKey :: "string \<Rightarrow> goerror + string \<times> string \<times> int" where
  "SplitRrdCacheKey ckey =
     (case str_split underscore ckey of
        [md5, dsType, s] \<Rightarrow> (case ParseInt 10 32 s of Inl err \<Rightarrow> Inl err | Inr step \<Rightarrow> Inr (md5, dsType, step))
      | _ \<Rightarrow> Inl (''bad rrd cache key: '' @ ckey))"

text \<open>
  The runes of a string as the conversion \<open>[]rune(str)\<close> decodes them: a byte that starts no valid
  UTF-8 sequence becomes the replacement character.
\<close>

definition cont :: "nat \<Rightarrow> nat \<Rightarrow> nat \<Rightarrow> bool" where
  "cont lo hi b \<longleftrightarrow> lo \<le> b \<and> b \<le> hi"

definition byte_at :: "nat list \<Rightarrow> nat \<Rightarrow> nat" where
  "byte_at bs i = (if i < length bs then bs ! i else 0)"

definition decode_rune :: "nat list \<Rightarrow> nat \<times> nat" where
  "decode_rune bs =
     (let a = byte_at bs 0; b = byte_at bs 1; c = byte_at bs 2; d = byte_at bs 3 in
      if a < 0x80 then (a, 1)
      else if cont 0xC2 0xDF a \<and> cont 0x80 0xBF b then (64 * (a - 0xC0) + (b - 0x80), 2)
      else if cont 0xE0 0xEF a \<and> cont (if a = 0xE0 then 0xA0 else 0x80) (if a = 0xED then 0x9F else 0xBF) b
        \<and> cont 0x80 0xBF c
      then (4096 * (a - 0xE0) + 64 * (b - 0x80) + (c - 0x80), 3)
      else if cont 0xF0 0xF4 a \<and> cont (if a = 0xF0 then 0x90 else 0x80) (if a = 0xF4 then 0x8F else 0xBF) b
        \<and> cont 0x80 0xBF c \<and> cont 0x80 0xBF d
      then (262144 * (a - 0xF0) + 4096 * (b - 0x80) + 64 * (c - 0x80) + (d - 0x80), 4)
      else (0xFFFD, 1))"

lemma decode_rune_width: "1 \<le> snd (decode_rune bs)"
  by (simp add: decode_rune_def Let_def)

function runes_of :: "nat list \<Rightarrow> nat list" where
  "runes_of bs =
     (if bs = [] then [] else fst (decode_rune bs) # runes_of (drop (snd (decode_rune bs)) bs))"
  by pat_completeness auto

termination
proof (relation "measure length")
  fix bs :: "nat list"
  assume "bs \<noteq> []"
  then show "(drop (snd (decode_rune bs)) bs, bs) \<in> measure length"
    using decode_rune_width [of bs] by (cases bs) simp_all
qed simp

declare runes_of.simps [simp del]

text \<open>
  \<open>unicode.IsPrint\<close>: the printable ASCII characters; above them the tables of the Unicode
  standard, an argument.
\<close>

definition IsPrint :: "(nat \<Rightarrow> bool) \<Rightarrow> nat \<Rightarrow> bool" where
  "IsPrint tables r = (if r < 0x80 then 0x20 \<le> r \<and> r < 0x7F else tables r)"

definition IsValidString :: "(nat \<Rightarrow> bool) \<Rightarrow> string \<Rightarrow> bool" where
  "IsValidString tables str =
     list_all (\<lambda>t. t \<notin> {0x0D, 0x0A, 0x27, 0x22, 0x3E, 0x1A} \<and> IsPrint tables t) (runes_of (map of_char str))"

section \<open>The list of a counter\<close>

record GraphList =
  gl_Flag :: "32 word"
  gl_L :: "GraphItem list"

definition NewGraphList :: GraphList where
  "NewGraphList = \<lparr> gl_Flag = 0, gl_L = [] \<rparr>"

definition GraphList_PushFront :: "GraphItem \<Rightarrow> GraphList \<Rightarrow> GraphList" where
  "GraphList_PushFront v sl = sl\<lparr>gl_L := v # gl_L sl\<rparr>"

definition GraphList_Front :: "GraphList \<Rightarrow> GraphItem option" where
  "GraphList_Front sl = (case gl_L sl of [] \<Rightarrow> None | x # _ \<Rightarrow> Some x)"

definition GraphList_Back :: "GraphList \<Rightarrow> GraphItem option" where
  "GraphList_Back sl = (if gl_L sl = [] then None else Some (last (gl_L sl)))"

definition GraphList_PopBack :: "GraphList \<Rightarrow> GraphItem option \<times> GraphList" where
  "GraphList_PopBack sl =
     (case GraphList_Back sl of
        None \<Rightarrow> (None, sl)
      | Some back \<Rightarrow> (Some back, sl\<lparr>gl_L := butlast (gl_L sl)\<rparr>))"

definition GraphList_Len :: "GraphList \<Rightarrow> int" where
  "GraphList_Len sl = int (length (gl_L sl))"

text \<open>The loop of \<open>PopAll\<close>: as many elements as there were, from the back.\<close>

fun pop_loop :: "nat \<Rightarrow> GraphItem list \<Rightarrow> GraphItem list \<Rightarrow> GraphItem list \<times> GraphItem list" where
  "pop_loop 0 ret l = (ret, l)"
| "pop_loop (Suc n) ret l = pop_loop n (ret @ [last l]) (butlast l)"

definition GraphList_PopAll :: "GraphList \<Rightarrow> GraphItem list \<times> GraphList" where
  "GraphList_PopAll sl =
     (if GraphList_Len sl \<le> 0 then ([], sl)
      else let (ret, l) = pop_loop (length (gl_L sl)) [] (gl_L sl) in (ret, sl\<lparr>gl_L := l\<rparr>))"

text \<open>\<open>PushAll\<close> walks from the last item to the first and pushes each to the back.\<close>

definition GraphList_PushAll :: "GraphItem list \<Rightarrow> GraphList \<Rightarrow> GraphList" where
  "GraphList_PushAll items sl = sl\<lparr>gl_L := foldl (\<lambda>l x. l @ [x]) (gl_L sl) (rev items)\<rparr>"

definition GraphList_FetchAll :: "GraphList \<Rightarrow> GraphItem list \<times> 32 word" where
  "GraphList_FetchAll sl = (rev (gl_L sl), gl_Flag sl)"

lemma pop_loop_rev: "pop_loop (length l) ret l = (ret @ rev l, [])"
  by (induction l arbitrary: ret rule: rev_induct) simp_all

lemma GraphList_PopAll_eq: "GraphList_PopAll sl = (rev (gl_L sl), sl\<lparr>gl_L := []\<rparr>)"
  by (cases "gl_L sl = []") (auto simp: GraphList_PopAll_def GraphList_Len_def pop_loop_rev)

lemma GraphList_PushAll_eq: "GraphList_PushAll items sl = sl\<lparr>gl_L := gl_L sl @ rev items\<rparr>"
proof -
  have "foldl (\<lambda>l x. l @ [x]) l xs = l @ xs" for l xs :: "GraphItem list"
    by (induction xs arbitrary: l) auto
  then show ?thesis by (simp add: GraphList_PushAll_def)
qed

text \<open>A counter's list is a first-in-first-out buffer: points leave it in the order they came.\<close>

interpretation glist: fifo_buffer "\<lambda>sl. rev (gl_L sl)" GraphList_PushFront GraphList_PopBack
proof
  fix sl :: GraphList and x xs
  assume "rev (gl_L sl) = x # xs"
  then have "gl_L sl = rev xs @ [x]" by (simp add: rev_swap)
  then show "\<exists>q'. GraphList_PopBack sl = (Some x, q') \<and> rev (gl_L q') = xs"
    by (simp add: GraphList_PopBack_def GraphList_Back_def)
qed (simp_all add: GraphList_PushFront_def GraphList_PopBack_def GraphList_Back_def)

section \<open>The sharded map\<close>

record GraphItemMap =
  gm_A :: "(string, GraphList) gomap list"
  gm_Size :: int

definition hashKey :: "string \<Rightarrow> 32 word" where
  "hashKey key =
     (if length key < 64 then crc32 (take (length key) (key @ replicate (64 - length key) (CHR 0x00)))
      else crc32 key)"

definition graph_idx :: "GraphItemMap \<Rightarrow> string \<Rightarrow> nat" where
  "graph_idx m key = unat (hashKey key mod word_of_int (gm_Size m))"

abbreviation shard_of :: "GraphItemMap \<Rightarrow> string \<Rightarrow> (string, GraphList) gomap" where
  "shard_of m key \<equiv> gm_A m ! graph_idx m key"

definition GraphItemMap_Get :: "GraphItemMap \<Rightarrow> string \<Rightarrow> GraphList option" where
  "GraphItemMap_Get m key = m_get (shard_of m key) key"

definition GraphItemMap_Set :: "string \<Rightarrow> GraphList \<Rightarrow> GraphItemMap \<Rightarrow> GraphItemMap" where
  "GraphItemMap_Set key val m =
     m\<lparr>gm_A := (gm_A m)[graph_idx m key := m_set key val (shard_of m key)]\<rparr>"

definition GraphItemMap_Remove :: "string \<Rightarrow> GraphItemMap \<Rightarrow> bool \<times> GraphItemMap" where
  "GraphItemMap_Remove key m =
     (case m_get (shard_of m key) key of
        None \<Rightarrow> (False, m)
      | Some _ \<Rightarrow> (True, m\<lparr>gm_A := (gm_A m)[graph_idx m key := m_del key (shard_of m key)]\<rparr>))"

definition GraphItemMap_Getitems :: "nat \<Rightarrow> GraphItemMap \<Rightarrow> (string, GraphList) gomap \<times> GraphItemMap" where
  "GraphItemMap_Getitems idx m = (gm_A m ! idx, m\<lparr>gm_A := (gm_A m)[idx := []]\<rparr>)"

definition GraphItemMap_Len :: "GraphItemMap \<Rightarrow> int" where
  "GraphItemMap_Len m = foldl (\<lambda>l i. l + int (length (gm_A m ! i))) 0 [0..<nat (gm_Size m)]"

definition GraphItemMap_First :: "GraphItemMap \<Rightarrow> string \<Rightarrow> GraphItem option" where
  "GraphItemMap_First m key =
     (case m_get (shard_of m key) key of None \<Rightarrow> None | Some sl \<Rightarrow> GraphList_Front sl)"

definition GraphItemMap_PushAll :: "string \<Rightarrow> GraphItem list \<Rightarrow> GraphItemMap \<Rightarrow> goerror + GraphItemMap" where
  "GraphItemMap_PushAll key items m =
     (case m_get (shard_of m key) key of
        None \<Rightarrow> Inl ''not exist''
      | Some sl \<Rightarrow> Inr (GraphItemMap_Set key (GraphList_PushAll items sl) m))"

definition GraphItemMap_GetFlag :: "GraphItemMap \<Rightarrow> string \<Rightarrow> goerror + 32 word" where
  "GraphItemMap_GetFlag m key =
     (case m_get (shard_of m key) key of None \<Rightarrow> Inl ''not exist'' | Some sl \<Rightarrow> Inr (gl_Flag sl))"

definition GraphItemMap_SetFlag :: "string \<Rightarrow> 32 word \<Rightarrow> GraphItemMap \<Rightarrow> goerror + GraphItemMap" where
  "GraphItemMap_SetFlag key flag m =
     (case m_get (shard_of m key) key of
        None \<Rightarrow> Inl ''not exist''
      | Some sl \<Rightarrow> Inr (GraphItemMap_Set key (sl\<lparr>gl_Flag := flag\<rparr>) m))"

definition GraphItemMap_PopAll :: "string \<Rightarrow> GraphItemMap \<Rightarrow> GraphItem list \<times> GraphItemMap" where
  "GraphItemMap_PopAll key m =
     (case m_get (shard_of m key) key of
        None \<Rightarrow> ([], m)
      | Some sl \<Rightarrow> let (items, sl') = GraphList_PopAll sl in (items, GraphItemMap_Set key sl' m))"

definition GraphItemMap_FetchAll :: "GraphItemMap \<Rightarrow> string \<Rightarrow> GraphItem list \<times> 32 word" where
  "GraphItemMap_FetchAll m key =
     (case m_get (shard_of m key) key of None \<Rightarrow> ([], 0) | Some sl \<Rightarrow> GraphList_FetchAll sl)"

definition getWts :: "string \<Rightarrow> int \<Rightarrow> int" where
  "getWts key now = now + CACHE_TIME - uint (hashKey key) mod CACHE_TIME"

text \<open>\<open>missing\<close>: migration is enabled and the counter has no file on this node.\<close>

definition GraphItemMap_PushFront :: "string \<Rightarrow> GraphItem \<Rightarrow> bool \<Rightarrow> GraphItemMap \<Rightarrow> GraphItemMap" where
  "GraphItemMap_PushFront key item missing m =
     (case GraphItemMap_Get m key of
        Some linkedList \<Rightarrow> GraphItemMap_Set key (GraphList_PushFront item linkedList) m
      | None \<Rightarrow>
          let safeList = \<lparr> gl_Flag = (if missing then GRAPH_F_MISS else 0), gl_L = [item] \<rparr>
          in GraphItemMap_Set key safeList m)"

definition GraphItemMap_KeysByIndex :: "GraphItemMap \<Rightarrow> nat \<Rightarrow> string list" where
  "GraphItemMap_KeysByIndex m idx = map fst (gm_A m ! idx)"

definition GraphItemMap_Back :: "GraphItemMap \<Rightarrow> string \<Rightarrow> GraphItem option" where
  "GraphItemMap_Back m key =
     (case m_get (shard_of m key) key of None \<Rightarrow> None | Some L \<Rightarrow> GraphList_Back L)"

definition GraphItemMap_ItemCnt :: "GraphItemMap \<Rightarrow> string \<Rightarrow> int" where
  "GraphItemMap_ItemCnt m key =
     (case m_get (shard_of m key) key of None \<Rightarrow> 0 | Some L \<Rightarrow> GraphList_Len L)"

definition NewGraphItems :: GraphItemMap where
  "NewGraphItems = (let sz = CACHE_TIME div FLUSH_DISK_STEP
     in \<lparr> gm_A = replicate (nat sz) [], gm_Size = sz \<rparr>)"

section \<open>The map is a store\<close>

lemma hashKey_crc32: "hashKey key = crc32 key"
  by (simp add: hashKey_def)

definition graph_map_ok :: "GraphItemMap \<Rightarrow> bool" where
  "graph_map_ok m \<longleftrightarrow> gm_Size m = 1800 \<and> length (gm_A m) = 1800
     \<and> (\<forall>i < 1800. gomap_ok (gm_A m ! i) \<and> fst ` set (gm_A m ! i) \<subseteq> {k. graph_idx m k = i})"

lemma graph_idx_less: "gm_Size m = 1800 \<Longrightarrow> graph_idx m key < 1800"
proof -
  assume "gm_Size m = 1800"
  moreover have "unat (hashKey key mod 1800) < 1800"
    using word_mod_less_divisor [of "1800 :: 32 word" "hashKey key"] by (simp add: word_less_nat_alt)
  ultimately show ?thesis by (simp add: graph_idx_def)
qed

lemma graph_idx_cong: "gm_Size m = gm_Size n \<Longrightarrow> graph_idx m k = graph_idx n k"
  by (simp add: graph_idx_def)

lemma gm_Size_Set [simp]: "gm_Size (GraphItemMap_Set k v m) = gm_Size m"
  by (simp add: GraphItemMap_Set_def)

lemma GraphItemMap_Get_Set [simp]:
  assumes "graph_map_ok m"
  shows "GraphItemMap_Get (GraphItemMap_Set k v m) k' = (if k' = k then Some v else GraphItemMap_Get m k')"
proof -
  have idx: "graph_idx (GraphItemMap_Set k v m) k' = graph_idx m k'" by (rule graph_idx_cong) simp
  have "graph_idx m k < length (gm_A m)" using assms graph_idx_less [of m k] by (simp add: graph_map_ok_def)
  then show ?thesis unfolding GraphItemMap_Get_def idx
    by (cases "graph_idx m k' = graph_idx m k") (auto simp: GraphItemMap_Set_def)
qed

lemma GraphItemMap_Set_ok [intro]:
  assumes "graph_map_ok m"
  shows "graph_map_ok (GraphItemMap_Set k v m)"
proof -
  have idx: "graph_idx (GraphItemMap_Set k v m) k' = graph_idx m k'" for k' by (rule graph_idx_cong) simp
  note m = assms [unfolded graph_map_ok_def]
  have "gomap_ok (gm_A (GraphItemMap_Set k v m) ! i) \<and> fst ` set (gm_A (GraphItemMap_Set k v m) ! i) \<subseteq> {k. graph_idx m k = i}"
    if "i < 1800" for i
  proof (cases "i = graph_idx m k")
    case True
    with that m show ?thesis by (simp add: GraphItemMap_Set_def)
  next
    case False
    with that m show ?thesis by (simp add: GraphItemMap_Set_def)
  qed
  with m show ?thesis unfolding graph_map_ok_def idx by (simp add: GraphItemMap_Set_def)
qed

lemma gm_Size_Remove [simp]: "gm_Size (snd (GraphItemMap_Remove k m)) = gm_Size m"
  by (simp add: GraphItemMap_Remove_def split: option.split)

lemma GraphItemMap_Get_Remove [simp]:
  assumes "graph_map_ok m"
  shows "GraphItemMap_Get (snd (GraphItemMap_Remove k m)) k' = (if k' = k then None else GraphItemMap_Get m k')"
proof -
  have idx: "graph_idx (snd (GraphItemMap_Remove k m)) k' = graph_idx m k'" by (rule graph_idx_cong) simp
  have "graph_idx m k < length (gm_A m)" using assms graph_idx_less [of m k] by (simp add: graph_map_ok_def)
  then show ?thesis unfolding GraphItemMap_Get_def idx
    by (cases "graph_idx m k' = graph_idx m k"; cases "m_get (shard_of m k) k") (auto simp: GraphItemMap_Remove_def)
qed

lemma GraphItemMap_Remove_ok [intro]:
  assumes "graph_map_ok m"
  shows "graph_map_ok (snd (GraphItemMap_Remove k m))"
proof (cases "m_get (shard_of m k) k")
  case (Some sl)
  let ?m = "snd (GraphItemMap_Remove k m)"
  have A: "gm_A ?m = (gm_A m)[graph_idx m k := m_del k (shard_of m k)]" by (simp add: GraphItemMap_Remove_def Some)
  have idx: "graph_idx ?m k' = graph_idx m k'" for k' by (rule graph_idx_cong) simp
  note m = assms [unfolded graph_map_ok_def]
  have "gomap_ok (gm_A ?m ! i) \<and> fst ` set (gm_A ?m ! i) \<subseteq> {k. graph_idx m k = i}" if "i < 1800" for i
  proof (cases "i = graph_idx m k")
    case True
    with that m have "gomap_ok (shard_of m k) \<and> fst ` set (shard_of m k) \<subseteq> {k. graph_idx m k = i}" by simp
    with True that m show ?thesis unfolding A by (simp add: le_infI1 subset_insertI2 Diff_subset_conv)
  next
    case False
    with that m show ?thesis by (simp add: A)
  qed
  with m show ?thesis unfolding graph_map_ok_def idx by (simp add: A)
qed (use assms in \<open>simp add: GraphItemMap_Remove_def\<close>)

interpretation gim: kv_store_del GraphItemMap_Get GraphItemMap_Set graph_map_ok "\<lambda>k m. snd (GraphItemMap_Remove k m)"
  by unfold_locales auto

lemma NewGraphItems_ok: "graph_map_ok NewGraphItems"
  by (simp add: NewGraphItems_def graph_map_ok_def Let_def)

end
