(* ===== verification/GraphApi.thy ===== *)
theory GraphApi
  imports GraphStore
begin

text \<open>
  The operations of the graph module on its caches: receiving points (\<open>api/graph.go\<close>), the index caches
  and their synchronisation with the database (\<open>index/*.go\<close>), the history of the last points
  (\<open>store/history.go\<close>), flushing to the rrd files and migration (\<open>rrdtool/*.go\<close>) and the cache
  cleaner (\<open>cron/clean.go\<close>).

  The containers of \<open>toolkits\<close> behind the history are the record \<open>hist_ops\<close>; whether a file exists, what
  the database and the other nodes answer and the clock are arguments.  A file flush, a migration task, a
  file removal and an SQL statement are entries of logs in the state.
\<close>

record Graph_config =
  gg_Storage :: string
  gg_MigrateEnabled :: bool
  gg_IOWorkerNum :: int
  gg_FirstBytesSize :: int

record ('m, 'l) hist_ops =
  hm_Get :: "'m \<Rightarrow> string \<Rightarrow> 'l option"
  hm_Put :: "string \<Rightarrow> 'l \<Rightarrow> 'm \<Rightarrow> 'm"
  hm_Keys :: "'m \<Rightarrow> string list"
  hm_Remove :: "string \<Rightarrow> 'm \<Rightarrow> 'm"
  hl_New :: "int \<Rightarrow> 'l"
  hl_Front :: "'l \<Rightarrow> GraphItem option"
  hl_FrontAll :: "'l \<Rightarrow> GraphItem option list"
  hl_PushFrontViolently :: "GraphItem \<Rightarrow> 'l \<Rightarrow> 'l"

section \<open>The index cache container\<close>

record IndexCacheItem =
  ici_UUID :: string
  ici_Item :: GraphItem

record IndexCacheBase =
  ic_maxSize :: int
  ic_data :: "(string, IndexCacheItem) gomap"

definition NewIndexCacheItem :: "string \<Rightarrow> GraphItem \<Rightarrow> IndexCacheItem" where
  "NewIndexCacheItem uuid item = \<lparr> ici_UUID = uuid, ici_Item = item \<rparr>"

definition NewIndexCacheBase :: "int \<Rightarrow> IndexCacheBase" where
  "NewIndexCacheBase mx = \<lparr> ic_maxSize = mx, ic_data = [] \<rparr>"

definition IndexCacheBase_GetMaxSize :: "IndexCacheBase \<Rightarrow> int" where
  "IndexCacheBase_GetMaxSize c = ic_maxSize c"

definition IndexCacheBase_Put :: "string \<Rightarrow> IndexCacheItem \<Rightarrow> IndexCacheBase \<Rightarrow> IndexCacheBase" where
  "IndexCacheBase_Put key item c = c\<lparr>ic_data := m_set key item (ic_data c)\<rparr>"

definition IndexCacheBase_Remove :: "string \<Rightarrow> IndexCacheBase \<Rightarrow> IndexCacheBase" where
  "IndexCacheBase_Remove key c = c\<lparr>ic_data := m_del key (ic_data c)\<rparr>"

definition IndexCacheBase_Get :: "IndexCacheBase \<Rightarrow> string \<Rightarrow> IndexCacheItem option" where
  "IndexCacheBase_Get c key = m_get (ic_data c) key"

definition IndexCacheBase_ContainsKey :: "IndexCacheBase \<Rightarrow> string \<Rightarrow> bool" where
  "IndexCacheBase_ContainsKey c key \<longleftrightarrow> m_get (ic_data c) key \<noteq> None"

definition IndexCacheBase_Size :: "IndexCacheBase \<Rightarrow> int" where
  "IndexCacheBase_Size c = int (length (ic_data c))"

definition IndexCacheBase_Keys :: "IndexCacheBase \<Rightarrow> string list" where
  "IndexCacheBase_Keys c = map fst (ic_data c)"

interpretation icb: kv_store_del IndexCacheBase_Get IndexCacheBase_Put "\<lambda>c. gomap_ok (ic_data c)" IndexCacheBase_Remove
  by unfold_locales (auto simp: IndexCacheBase_Get_def IndexCacheBase_Put_def IndexCacheBase_Remove_def)

section \<open>State\<close>

text \<open>The statements \<open>updateIndexFromOneItem\<close> executes, with the values bound to their parameters.\<close>

datatype sql =
    InsEndpoint string int
  | InsTagEndpoint string int int
  | InsEndpointCounter int string int string int

record 'm Graph_state =
  GraphItems :: GraphItemMap
  IndexedItemCache :: IndexCacheBase
  unIndexedItemCache :: IndexCacheBase
  HistoryCache :: 'm
  flush_log :: "(string \<times> GraphItem list) list"
  pull_log :: "(string \<times> string) list"
  removed_files :: "string list"
  db_log :: "sql list"
  flushrrd_timeout :: bool
  GraphRpcRecvCnt :: int

section \<open>The history of the last points\<close>

abbreviation defaultHistorySize :: int where "defaultHistorySize \<equiv> 3"

text \<open>The zero value of \<open>GraphItem\<close>.\<close>

definition zero_GraphItem :: GraphItem where
  "zero_GraphItem = \<lparr> gi_Endpoint = [], gi_Metric = [], gi_Tags = [], gi_Value = Zero False, gi_Timestamp = 0,
     gi_DsType = [], gi_Step = 0, gi_Heartbeat = 0, gi_Min = [], gi_Max = [] \<rparr>"

definition GetLastItem :: "('m, 'l) hist_ops \<Rightarrow> 'm \<Rightarrow> string \<Rightarrow> GraphItem" where
  "GetLastItem h hc key =
     (case hm_Get h hc key of
        None \<Rightarrow> zero_GraphItem
      | Some itemlist \<Rightarrow> (case hl_Front h itemlist of None \<Rightarrow> zero_GraphItem | Some first \<Rightarrow> first))"

definition GetAllItems :: "('m, 'l) hist_ops \<Rightarrow> 'm \<Rightarrow> string \<Rightarrow> GraphItem list" where
  "GetAllItems h hc key =
     (case hm_Get h hc key of
        None \<Rightarrow> []
      | Some itemlist \<Rightarrow> List.map_filter (\<lambda>item. item) (hl_FrontAll h itemlist))"

definition AddItem :: "('m, 'l) hist_ops \<Rightarrow> string \<Rightarrow> GraphItem \<Rightarrow> 'm \<Rightarrow> 'm" where
  "AddItem h key val hc =
     (let (slist, hc1) = (case hm_Get h hc key of
            None \<Rightarrow> (let l = hl_New h defaultHistorySize in (l, hm_Put h key l hc))
          | Some itemlist \<Rightarrow> (itemlist, hc))
      in case hl_Front h slist of
           None \<Rightarrow> hm_Put h key (hl_PushFrontViolently h val slist) hc1
         | Some first \<Rightarrow>
             if gi_Timestamp first < gi_Timestamp val
             then hm_Put h key (hl_PushFrontViolently h val slist) hc1 else hc1)"

section \<open>Receiving points\<close>

definition ReceiveItem ::
  "Graph_config \<Rightarrow> (string \<Rightarrow> bool) \<Rightarrow> GraphItem \<Rightarrow> string \<Rightarrow> 'm Graph_state \<Rightarrow> 'm Graph_state go" where
  "ReceiveItem cfg exist item md5 st =
     (let uuid = GraphItem_UUID item in
      case IndexCacheBase_Get (IndexedItemCache st) md5 of
        Some old \<Rightarrow>
          Some (if uuid = ici_UUID old
                then st\<lparr>IndexedItemCache := IndexCacheBase_Put md5 (NewIndexCacheItem uuid item) (IndexedItemCache st)\<rparr>
                else st\<lparr>unIndexedItemCache := IndexCacheBase_Put md5 (NewIndexCacheItem uuid item) (unIndexedItemCache st)\<rparr>)
      | None \<Rightarrow> do {
          rrdFileName \<leftarrow> RrdFileName (gg_Storage cfg) md5 (gi_DsType item) (gi_Step item);
          Some (if exist rrdFileName
                then st\<lparr>IndexedItemCache := IndexCacheBase_Put md5 (NewIndexCacheItem uuid item) (IndexedItemCache st)\<rparr>
                else st\<lparr>unIndexedItemCache := IndexCacheBase_Put md5 (NewIndexCacheItem uuid item) (unIndexedItemCache st)\<rparr>) })"

definition handle_graph_item ::
  "('m, 'l) hist_ops \<Rightarrow> Graph_config \<Rightarrow> (nat \<Rightarrow> bool) \<Rightarrow> (string \<Rightarrow> bool) \<Rightarrow> 'm Graph_state \<Rightarrow> GraphItem option
     \<Rightarrow> 'm Graph_state go" where
  "handle_graph_item h cfg tables exist st oitem =
     (case oitem of
        None \<Rightarrow> Some st
      | Some item \<Rightarrow>
          let endpoint = gi_Endpoint item; counter = Counter (gi_Metric item) (gi_Tags item) in
          if \<not> IsValidString tables endpoint then Some st
          else if \<not> IsValidString tables counter then Some st
          else
            let checksum = GraphItem_Checksum item;
                key = FormRrdCacheKey checksum (gi_DsType item) (gi_Step item);
                st1 = st\<lparr>GraphRpcRecvCnt := GraphRpcRecvCnt st + 1\<rparr> in
            (if (case GraphItemMap_First (GraphItems st1) key of
                   None \<Rightarrow> False | Some first \<Rightarrow> gi_Timestamp item \<le> gi_Timestamp first)
             then Some st1
             else do {
               fn \<leftarrow> RrdFileName (gg_Storage cfg) checksum (gi_DsType item) (gi_Step item);
               st2 \<leftarrow> ReceiveItem cfg exist item checksum
                 (st1\<lparr>GraphItems := GraphItemMap_PushFront key item (gg_MigrateEnabled cfg \<and> \<not> exist fn) (GraphItems st1)\<rparr>);
               Some (st2\<lparr>HistoryCache := AddItem h checksum item (HistoryCache st2)\<rparr>) }))"

definition handleItems ::
  "('m, 'l) hist_ops \<Rightarrow> Graph_config \<Rightarrow> (nat \<Rightarrow> bool) \<Rightarrow> (string \<Rightarrow> bool) \<Rightarrow> GraphItem option list \<Rightarrow> 'm Graph_state
     \<Rightarrow> 'm Graph_state go" where
  "handleItems h cfg tables exist items st = foldM (handle_graph_item h cfg tables exist) st items"

text \<open>\<open>file.Remove\<close> is an entry of the log.\<close>

definition RemoveItem :: "Graph_config \<Rightarrow> GraphItem \<Rightarrow> 'm Graph_state \<Rightarrow> 'm Graph_state go" where
  "RemoveItem cfg item st =
     (let md5 = GraphItem_Checksum item;
          st1 = st\<lparr>IndexedItemCache := IndexCacheBase_Remove md5 (IndexedItemCache st),
                   unIndexedItemCache := IndexCacheBase_Remove md5 (unIndexedItemCache st)\<rparr>;
          key = FormRrdCacheKey md5 (gi_DsType item) (gi_Step item);
          (poped_items, gi) = GraphItemMap_PopAll key (GraphItems st1)
      in do {
        rrdFileName \<leftarrow> RrdFileName (gg_Storage cfg) md5 (gi_DsType item) (gi_Step item);
        Some (st1\<lparr>GraphItems := gi, removed_files := removed_files st1 @ [rrdFileName]\<rparr>) })"

record GraphDeleteParam =
  dp_Endpoint :: string
  dp_Metric :: string
  dp_Step :: int
  dp_DsType :: string
  dp_Tags :: string

definition Graph_Delete :: "Graph_config \<Rightarrow> GraphDeleteParam list \<Rightarrow> 'm Graph_state \<Rightarrow> 'm Graph_state go" where
  "Graph_Delete cfg params st = foldM (\<lambda>st param.
     case SplitTagsString (dp_Tags param) of
       (Some err, _) \<Rightarrow> Some st
     | (None, tags) \<Rightarrow> RemoveItem cfg (zero_GraphItem\<lparr>gi_Endpoint := dp_Endpoint param, gi_Metric := dp_Metric param,
         gi_Tags := tags, gi_DsType := dp_DsType param, gi_Step := dp_Step param\<rparr>) st) st params"

section \<open>Synchronising the index\<close>

text \<open>
  The statements of one item in order, until one fails; \<open>exec\<close> says whether a statement succeeds and
  \<open>endpoint_id\<close> is the result of looking the endpoint up.
\<close>

fun exec_until :: "(sql \<Rightarrow> bool) \<Rightarrow> sql list \<Rightarrow> sql list \<times> bool" where
  "exec_until exec [] = ([], True)"
| "exec_until exec (s # ss) =
     (if exec s then (let (done, ok) = exec_until exec ss in (s # done, ok)) else ([s], False))"

definition updateIndexFromOneItem ::
  "(sql \<Rightarrow> bool) \<Rightarrow> (string \<Rightarrow> goerror + int) \<Rightarrow> GraphItem \<Rightarrow> sql list \<times> bool" where
  "updateIndexFromOneItem exec endpoint_id item =
     (let ts = gi_Timestamp item; s1 = InsEndpoint (gi_Endpoint item) ts in
      if \<not> exec s1 then ([s1], False)
      else case endpoint_id (gi_Endpoint item) of
        Inl err \<Rightarrow> ([s1], False)
      | Inr endpointId \<Rightarrow>
          if endpointId \<le> 0 then ([s1], False)
          else
            let counter = (if length (gi_Tags item) > 0 then gi_Metric item @ [slash] @ SortedTags (gi_Tags item)
                           else gi_Metric item);
                (done, ok) = exec_until exec
                  (map (\<lambda>(k, v). InsTagEndpoint (k @ [equals] @ v) endpointId ts) (gi_Tags item)
                   @ [InsEndpointCounter endpointId counter (gi_Step item) (gi_DsType item) ts])
            in (s1 # done, ok))"

text \<open>The goroutines of one run, in the order they are started.\<close>

definition index_incr_key ::
  "(sql \<Rightarrow> bool) \<Rightarrow> (string \<Rightarrow> goerror + int) \<Rightarrow> int \<times> 'm Graph_state \<Rightarrow> string \<Rightarrow> int \<times> 'm Graph_state" where
  "index_incr_key exec endpoint_id = (\<lambda>(ret, st) key.
     (let icitem = IndexCacheBase_Get (unIndexedItemCache st) key;
          st1 = st\<lparr>unIndexedItemCache := IndexCacheBase_Remove key (unIndexedItemCache st)\<rparr>
      in case icitem of
           None \<Rightarrow> (ret, st1)
         | Some ic \<Rightarrow>
             let (done, ok) = updateIndexFromOneItem exec endpoint_id (ici_Item ic);
                 st2 = st1\<lparr>db_log := db_log st1 @ done\<rparr>
             in (ret + 1, if ok then st2\<lparr>IndexedItemCache := IndexCacheBase_Put key ic (IndexedItemCache st2)\<rparr> else st2)))"

definition updateIndexIncr ::
  "bool \<Rightarrow> (sql \<Rightarrow> bool) \<Rightarrow> (string \<Rightarrow> goerror + int) \<Rightarrow> 'm Graph_state \<Rightarrow> int \<times> 'm Graph_state" where
  "updateIndexIncr dbOk exec endpoint_id st =
     (if IndexCacheBase_Size (unIndexedItemCache st) \<le> 0 then (0, st)
      else if \<not> dbOk then (0, st)
      else foldl (index_incr_key exec endpoint_id) (0, st) (IndexCacheBase_Keys (unIndexedItemCache st)))"

definition index_all_key ::
  "(sql \<Rightarrow> bool) \<Rightarrow> (string \<Rightarrow> goerror + int) \<Rightarrow> int \<Rightarrow> int \<times> 'm Graph_state \<Rightarrow> string \<Rightarrow> int \<times> 'm Graph_state" where
  "index_all_key exec endpoint_id lastTs = (\<lambda>(ret, st) key.
     (case IndexCacheBase_Get (IndexedItemCache st) key of
        None \<Rightarrow> (ret, st)
      | Some ic \<Rightarrow>
          if gi_Timestamp (ici_Item ic) < lastTs
          then (ret, st\<lparr>IndexedItemCache := IndexCacheBase_Remove key (IndexedItemCache st)\<rparr>)
          else (ret + 1, st\<lparr>db_log := db_log st @ fst (updateIndexFromOneItem exec endpoint_id (ici_Item ic))\<rparr>)))"

definition updateIndexAll ::
  "bool \<Rightarrow> (sql \<Rightarrow> bool) \<Rightarrow> (string \<Rightarrow> goerror + int) \<Rightarrow> int \<Rightarrow> int \<Rightarrow> 'm Graph_state \<Rightarrow> int \<times> 'm Graph_state" where
  "updateIndexAll dbOk exec endpoint_id now updateStepInSec st =
     (if IndexCacheBase_Size (IndexedItemCache st) \<le> 0 then (0, st)
      else if \<not> dbOk then (0, st)
      else foldl (index_all_key exec endpoint_id (now - updateStepInSec)) (0, st)
             (IndexCacheBase_Keys (IndexedItemCache st)))"

definition UpdateIndexOne ::
  "bool \<Rightarrow> (sql \<Rightarrow> bool) \<Rightarrow> (string \<Rightarrow> goerror + int) \<Rightarrow> string \<Rightarrow> string \<Rightarrow> tags \<Rightarrow> string \<Rightarrow> int
     \<Rightarrow> 'm Graph_state \<Rightarrow> goerror option \<times> 'm Graph_state" where
  "UpdateIndexOne dbOk exec endpoint_id endpoint metric tags dstype step st =
     (let md5 = Checksum endpoint metric tags; uuid = UUID endpoint metric tags dstype step in
      case IndexCacheBase_Get (IndexedItemCache st) md5 of
        None \<Rightarrow> (Some ''not found'', st)
      | Some icitem \<Rightarrow>
          if ici_UUID icitem \<noteq> uuid then (Some ''bad type or step'', st)
          else if \<not> dbOk then (Some ''make dbConn fail'', st)
          else let (done, ok) = updateIndexFromOneItem exec endpoint_id (ici_Item icitem)
               in (if ok then None else Some ''exec fail'', st\<lparr>db_log := db_log st @ done\<rparr>))"

end
