(* ===== verification/GraphRrd.thy ===== *)
theory GraphRrd
  imports GraphApi
begin

text \<open>
  Disk and migration of the graph module: what is handed to rrdlite (\<open>rrdtool/rrdtool.go\<close>), the rounds of
  the disk synchronisation (\<open>rrdtool/sync_disk.go\<close>), the tasks that move a counter from another node
  (\<open>rrdtool/migrate.go\<close>) and the cache cleaner (\<open>cron/clean.go\<close>).
\<close>

section \<open>Files\<close>

definition getIndex :: "Graph_config \<Rightarrow> string \<Rightarrow> int go" where
  "getIndex cfg md5 =
     (let batchNum = gg_IOWorkerNum cfg; firstBytesSize = gg_FirstBytesSize cfg in
      if batchNum \<le> 1 \<or> int (length md5) < firstBytesSize \<or> firstBytesSize = 0 then Some 0
      else do {
        pre \<leftarrow> slice_sub md5 0 firstBytesSize;
        Some (case ParseInt 16 64 pre of Inl err \<Rightarrow> 0 | Inr m \<Rightarrow> m smod batchNum) })"

text \<open>What \<open>update\<close> caches for rrdlite: counters as integers, gauges as they are; values too large or too small are left out.\<close>

datatype rrd_value = RInt int | RFloat f64

definition rrd_big :: f64 where "rrd_big = f_round (10 ^ 300)"
definition rrd_small :: f64 where "rrd_small = f_round (1 / 10 ^ 300)"

definition update_points :: "GraphItem list \<Rightarrow> (int \<times> rrd_value) list" where
  "update_points items = List.map_filter (\<lambda>item.
     let v = f_abs (gi_Value item) in
     if f_gt v rrd_big \<or> (f_lt v rrd_small \<and> f_gt v (Zero False)) then None
     else Some (gi_Timestamp item,
       if gi_DsType item = ''DERIVE'' \<or> gi_DsType item = ''COUNTER'' then RInt (f_to_int (gi_Value item))
       else RFloat (gi_Value item))) items"

text \<open>The archives \<open>create\<close> asks for: consolidation function, points per row, rows.\<close>

abbreviation RRA1PointCnt :: int where "RRA1PointCnt \<equiv> 720"

definition rras :: "(string \<times> int \<times> int) list" where
  "rras = (''AVERAGE'', 1, RRA1PointCnt) #
     concat (map (\<lambda>(n, rows). [(''AVERAGE'', n, rows), (''MAX'', n, rows), (''MIN'', n, rows)])
       [(5, 576), (20, 504), (180, 766), (720, 730)])"

datatype rrd_call =
    RrdCreate string GraphItem "(string \<times> int \<times> int) list"
  | RrdUpdate string "(int \<times> rrd_value) list"

text \<open>\<open>ok\<close> says whether the directory could be made and a call of rrdlite succeeded.\<close>

definition flushrrd ::
  "(string \<Rightarrow> bool) \<Rightarrow> bool \<Rightarrow> (rrd_call \<Rightarrow> bool) \<Rightarrow> string \<Rightarrow> GraphItem list \<Rightarrow> rrd_call list \<times> bool" where
  "flushrrd exist dirOk ok filename items =
     (case items of
        [] \<Rightarrow> ([], False)
      | item0 # _ \<Rightarrow>
          let u = RrdUpdate filename (update_points items) in
          if exist filename then ([u], ok u)
          else if \<not> dirOk then ([], False)
          else let c = RrdCreate filename item0 rras in
               if ok c then ([c, u], ok u) else ([c], False))"

text \<open>\<open>fetch\<close> on the result of rrdlite: its start, its step in seconds and its values.\<close>

definition rrd_fetch :: "goerror + int \<times> int \<times> f64 list \<Rightarrow> RRDData list" where
  "rrd_fetch res =
     (case res of
        Inl err \<Rightarrow> []
      | Inr (start_ts, step_s, values) \<Rightarrow>
          map (\<lambda>(i, val). \<lparr> rd_Timestamp = start_ts + (int i + 1) * step_s, rd_Value = val \<rparr>) (enumerate 0 values))"

section \<open>Flushing\<close>

definition FlushFile :: "string \<Rightarrow> GraphItem list \<Rightarrow> 'm Graph_state \<Rightarrow> 'm Graph_state" where
  "FlushFile filename items st = st\<lparr>flush_log := flush_log st @ [(filename, items)]\<rparr>"

definition shouldFlush :: "int \<Rightarrow> 'm Graph_state \<Rightarrow> string \<Rightarrow> bool" where
  "shouldFlush now st key =
     (if GraphItemMap_ItemCnt (GraphItems st) key \<ge> FLUSH_MIN_COUNT then True
      else let deadline = now - FLUSH_MAX_WAIT in
           case GraphItemMap_Back (GraphItems st) key of
             None \<Rightarrow> False
           | Some back \<Rightarrow> gi_Timestamp back \<le> deadline)"

definition CommitByKey :: "Graph_config \<Rightarrow> string \<Rightarrow> 'm Graph_state \<Rightarrow> 'm Graph_state go" where
  "CommitByKey cfg key st =
     (case SplitRrdCacheKey key of
        Inl err \<Rightarrow> Some st
      | Inr (md5, dsType, step) \<Rightarrow> do {
          filename \<leftarrow> RrdFileName (gg_Storage cfg) md5 dsType step;
          let (items, gi) = GraphItemMap_PopAll key (GraphItems st); st1 = st\<lparr>GraphItems := gi\<rparr> in
          Some (if length items = 0 then st1 else FlushFile filename items st1) })"

definition PullByKey :: "(string \<Rightarrow> goerror + string) \<Rightarrow> string \<Rightarrow> 'm Graph_state \<Rightarrow> 'm Graph_state" where
  "PullByKey consistent key st =
     (case GraphItemMap_First (GraphItems st) key of
        None \<Rightarrow> st
      | Some item \<Rightarrow>
          (case consistent (GraphItem_PrimaryKey item) of
             Inl err \<Rightarrow> st
           | Inr node \<Rightarrow> st\<lparr>pull_log := pull_log st @ [(node, key)]\<rparr>))"

definition flush_key ::
  "Graph_config \<Rightarrow> (string \<Rightarrow> goerror + string) \<Rightarrow> int \<Rightarrow> (string \<Rightarrow> bool) \<Rightarrow> bool \<Rightarrow> 'm Graph_state \<Rightarrow> string
     \<Rightarrow> 'm Graph_state go" where
  "flush_key cfg consistent now slow force st key =
     (let flag = (case GraphItemMap_GetFlag (GraphItems st) key of Inl err \<Rightarrow> 0 | Inr f \<Rightarrow> f) in
      if \<not> force \<and> gg_MigrateEnabled cfg \<and> flag AND GRAPH_F_MISS \<noteq> 0
      then Some (PullByKey consistent key (if slow key then st\<lparr>flushrrd_timeout := True\<rparr> else st))
      else if force \<or> shouldFlush now st key then CommitByKey cfg key st
      else Some st)"

text \<open>\<open>slow key\<close>: more than a flush step has passed when the loop comes to the key.\<close>

definition FlushRRD ::
  "Graph_config \<Rightarrow> (string \<Rightarrow> goerror + string) \<Rightarrow> int \<Rightarrow> (string \<Rightarrow> bool) \<Rightarrow> nat \<Rightarrow> bool \<Rightarrow> 'm Graph_state
     \<Rightarrow> 'm Graph_state go" where
  "FlushRRD cfg consistent now slow idx force st =
     (let st1 = st\<lparr>flushrrd_timeout := False\<rparr>; keys = GraphItemMap_KeysByIndex (GraphItems st1) idx in
      if length keys = 0 then Some st1
      else foldM (flush_key cfg consistent now slow force) st1 keys)"

text \<open>The progress line divides by a tenth of the size.\<close>

definition FlushAll ::
  "Graph_config \<Rightarrow> (string \<Rightarrow> goerror + string) \<Rightarrow> int \<Rightarrow> (string \<Rightarrow> bool) \<Rightarrow> bool \<Rightarrow> 'm Graph_state \<Rightarrow> 'm Graph_state go" where
  "FlushAll cfg consistent now slow force st =
     (let n = gm_Size (GraphItems st) div 10 in
      foldM (\<lambda>st i. do {
        st1 \<leftarrow> FlushRRD cfg consistent now slow i force st;
        if n = 0 then None else Some st1 }) st [0..<nat (gm_Size (GraphItems st))])"

text \<open>One tick of \<open>syncDisk\<close>, with the index it carries.\<close>

definition syncDisk_tick ::
  "Graph_config \<Rightarrow> (string \<Rightarrow> goerror + string) \<Rightarrow> int \<Rightarrow> (string \<Rightarrow> bool) \<Rightarrow> nat \<times> 'm Graph_state
     \<Rightarrow> (nat \<times> 'm Graph_state) go" where
  "syncDisk_tick cfg consistent now slow = (\<lambda>(idx, st).
     let idx' = idx mod nat (gm_Size (GraphItems st)) in do {
     st' \<leftarrow> FlushRRD cfg consistent now slow idx' False st;
     Some (idx' + 1, st') })"

definition Graph_GetRrd ::
  "Graph_config \<Rightarrow> (string \<Rightarrow> goerror + 'b) \<Rightarrow> string \<Rightarrow> 'm Graph_state \<Rightarrow> ((goerror + string \<times> 'b) \<times> 'm Graph_state) go" where
  "Graph_GetRrd cfg readFile key st =
     (case SplitRrdCacheKey key of
        Inl err \<Rightarrow> Some (Inl err, st)
      | Inr (md5, dsType, step) \<Rightarrow> do {
          filename \<leftarrow> RrdFileName (gg_Storage cfg) md5 dsType step;
          let (items, gi) = GraphItemMap_PopAll key (GraphItems st);
              st1 = st\<lparr>GraphItems := gi\<rparr>;
              st2 = (if length items > 0 then FlushFile filename items st1 else st1) in
          Some (case readFile filename of Inl err \<Rightarrow> Inl err | Inr body \<Rightarrow> Inr (filename, body), st2) })"

section \<open>Migration tasks\<close>

text \<open>The errors of \<open>SetFlag\<close> and \<open>PushAll\<close> are ignored; the flag was read before.\<close>

definition set_flag :: "string \<Rightarrow> 32 word \<Rightarrow> GraphItemMap \<Rightarrow> GraphItemMap" where
  "set_flag key flag m = (case GraphItemMap_SetFlag key flag m of Inl err \<Rightarrow> m | Inr m' \<Rightarrow> m')"

fun first_ok :: "nat \<Rightarrow> nat \<Rightarrow> (nat \<Rightarrow> bool) \<Rightarrow> bool" where
  "first_ok 0 i outcome = False"
| "first_ok (Suc n) i outcome = (if outcome i then True else first_ok n (Suc i) outcome)"

definition send_data ::
  "string \<Rightarrow> (nat \<Rightarrow> bool) \<Rightarrow> 'm Graph_state \<Rightarrow> (goerror option \<times> GraphItem list) \<times> 'm Graph_state" where
  "send_data key outcome st =
     (case GraphItemMap_GetFlag (GraphItems st) key of
        Inl err \<Rightarrow> ((Some err, []), st)
      | Inr flag \<Rightarrow>
          let g1 = set_flag key (flag OR GRAPH_F_SENDING) (GraphItems st);
              (items, g2) = GraphItemMap_PopAll key g1;
              out = (\<lambda>gm. st\<lparr>GraphItems := set_flag key (flag AND NOT GRAPH_F_SENDING) gm\<rparr>)
          in if length items = 0 then ((None, []), out g2)
             else if first_ok 3 0 outcome then ((None, items), out g2)
             else ((Some ''rpc fail'', []),
                   out (case GraphItemMap_PushAll key items g2 of Inl err \<Rightarrow> g2 | Inr g3 \<Rightarrow> g3)))"

text \<open>\<open>written i\<close> is the result of the attempt \<open>i\<close>: \<open>None\<close> when the call failed, else whether the file was written.\<close>

fun fetch_loop :: "nat \<Rightarrow> nat \<Rightarrow> (nat \<Rightarrow> bool option) \<Rightarrow> bool option" where
  "fetch_loop 0 i written = None"
| "fetch_loop (Suc n) i written = (case written i of None \<Rightarrow> fetch_loop n (Suc i) written | Some ok \<Rightarrow> Some ok)"

definition fetch_rrd ::
  "Graph_config \<Rightarrow> string \<Rightarrow> (nat \<Rightarrow> bool option) \<Rightarrow> 'm Graph_state \<Rightarrow> (goerror option \<times> 'm Graph_state) go" where
  "fetch_rrd cfg key written st =
     (case GraphItemMap_GetFlag (GraphItems st) key of
        Inl err \<Rightarrow> Some (Some err, st)
      | Inr flag \<Rightarrow>
          let g1 = set_flag key (flag OR GRAPH_F_FETCHING) (GraphItems st);
              (md5, dsType, step) = (case SplitRrdCacheKey key of Inl err \<Rightarrow> ([], [], 0) | Inr p \<Rightarrow> p)
          in do {
            filename \<leftarrow> RrdFileName (gg_Storage cfg) md5 dsType step;
            Some (case fetch_loop 3 0 written of
              None \<Rightarrow> (Some ''rpc fail'', st\<lparr>GraphItems := set_flag key (flag AND NOT GRAPH_F_FETCHING) g1\<rparr>)
            | Some ok \<Rightarrow>
                let flag1 = (if ok then flag AND NOT GRAPH_F_MISS else flag) in
                (if ok then None else Some ''write fail'',
                 st\<lparr>GraphItems := set_flag key (flag1 AND NOT GRAPH_F_FETCHING) g1\<rparr>)) })"

text \<open>The pull task of a net worker: \<open>missing\<close> says the error of the fetch was that the remote file does not exist.\<close>

definition net_task_pull ::
  "Graph_config \<Rightarrow> string \<Rightarrow> (nat \<Rightarrow> bool) \<Rightarrow> (nat \<Rightarrow> bool option) \<Rightarrow> bool \<Rightarrow> 'm Graph_state \<Rightarrow> 'm Graph_state go" where
  "net_task_pull cfg key outcome written missing st =
     (if flushrrd_timeout st then Some (snd (send_data key outcome st))
      else do {
        (err, st1) \<leftarrow> fetch_rrd cfg key written st;
        if err \<noteq> None \<and> missing
        then CommitByKey cfg key (st1\<lparr>GraphItems := set_flag key 0 (GraphItems st1)\<rparr>)
        else Some st1 })"

section \<open>Cleaning the caches\<close>

definition clean_key :: "IndexCacheBase \<Rightarrow> int \<times> GraphItemMap \<Rightarrow> string \<Rightarrow> int \<times> GraphItemMap" where
  "clean_key ic = (\<lambda>(deleteCnt, gm) key.
     (let tmp = str_split underscore key in
      if length tmp = 3 \<and> \<not> IndexCacheBase_ContainsKey ic (tmp ! 0)
      then (deleteCnt + 1, snd (GraphItemMap_Remove key gm)) else (deleteCnt, gm)))"

definition DeleteInvalidItems :: "'m Graph_state \<Rightarrow> int \<times> 'm Graph_state" where
  "DeleteInvalidItems st =
     (let (cnt, gm) = foldl (\<lambda>acc idx. foldl (clean_key (IndexedItemCache st)) acc (GraphItemMap_KeysByIndex (snd acc) idx))
            (0, GraphItems st) [0..<nat (gm_Size (GraphItems st))]
      in (cnt, st\<lparr>GraphItems := gm\<rparr>))"

definition DeleteInvalidHistory :: "('m, 'l) hist_ops \<Rightarrow> 'm Graph_state \<Rightarrow> int \<times> 'm Graph_state" where
  "DeleteInvalidHistory h st =
     (let (cnt, hc) = foldl (\<lambda>(cnt, hc) key.
            if \<not> IndexCacheBase_ContainsKey (IndexedItemCache st) key then (cnt + 1, hm_Remove h key hc) else (cnt, hc))
            (0, HistoryCache st) (hm_Keys h (HistoryCache st))
      in (cnt, st\<lparr>HistoryCache := hc\<rparr>))"

end
