(* ===== verification/GraphQuery.thy ===== *)
theory GraphQuery
  imports GraphRrd
begin

text \<open>
  The queries of the graph module (\<open>api/graph.go\<close>) and the lookup of a counter's type and step
  (\<open>index/cache.go\<close>).  A query merges the points read from the rrd file with the points that are
  still in memory.  The loops that advance a timestamp by the step need not end when the step is not
  positive: they are partial functions, \<open>None\<close> when they do not return.
\<close>

section \<open>Type and step of a counter\<close>

text \<open>The timed caches of \<open>toolkits\<close>.\<close>

record ('c, 'v) tcache =
  tc_Get :: "'c \<Rightarrow> string \<Rightarrow> 'v option"
  tc_Set :: "string \<Rightarrow> 'v \<Rightarrow> 'c \<Rightarrow> 'c"

text \<open>A row lookup: \<open>None\<close> stands for \<open>sql.ErrNoRows\<close>.\<close>

definition GetEndpointFromCache ::
  "('e, int) tcache \<Rightarrow> (string \<Rightarrow> (goerror + int) option) \<Rightarrow> string \<Rightarrow> 'e \<Rightarrow> int option \<times> 'e" where
  "GetEndpointFromCache tc db endpoint c =
     (case tc_Get tc c endpoint of
        Some endpointId \<Rightarrow> (Some endpointId, c)
      | None \<Rightarrow>
          (case db endpoint of
             Some (Inl err) \<Rightarrow> (None, c)
           | None \<Rightarrow> (None, c)
           | Some (Inr eid) \<Rightarrow> if eid < 0 then (None, c) else (Some eid, tc_Set tc endpoint eid c)))"

definition GetCounterFromCache ::
  "('d, string) tcache \<Rightarrow> (int \<Rightarrow> string \<Rightarrow> (goerror + string \<times> int) option) \<Rightarrow> int \<Rightarrow> string \<Rightarrow> 'd
     \<Rightarrow> ((string \<times> int) option \<times> 'd) go" where
  "GetCounterFromCache tc db endpointId counter c =
     (let key = Itoa endpointId @ ''-'' @ counter in
      case tc_Get tc c key of
        Some dsTypeStep \<Rightarrow>
          let arr = str_split underscore dsTypeStep in do {
          a1 \<leftarrow> slice_get arr 1;
          Some (case ParseInt 10 64 a1 of
                  Inl err \<Rightarrow> (None, c)
                | Inr step \<Rightarrow> (Some (arr ! 0, step), c)) }
      | None \<Rightarrow> Some (case db endpointId counter of
            Some (Inl err) \<Rightarrow> (None, c)
          | None \<Rightarrow> (None, c)
          | Some (Inr (dsType, step)) \<Rightarrow> (Some (dsType, step), tc_Set tc key (dsType @ [underscore] @ Itoa step) c)))"

record ('e, 'd) index_db =
  id_ecache :: "('e, int) tcache"
  id_ccache :: "('d, string) tcache"
  id_endpoint :: "string \<Rightarrow> (goerror + int) option"
  id_counter :: "int \<Rightarrow> string \<Rightarrow> (goerror + string \<times> int) option"

definition GetTypeAndStep ::
  "('e, 'd) index_db \<Rightarrow> IndexCacheBase \<Rightarrow> string \<Rightarrow> string \<Rightarrow> 'e \<times> 'd \<Rightarrow> ((string \<times> int) option \<times> 'e \<times> 'd) go" where
  "GetTypeAndStep db ic endpoint counter cs =
     (let pk = Md5 (endpoint @ [slash] @ counter) in
      case IndexCacheBase_Get ic pk of
        Some icitem \<Rightarrow> Some (Some (gi_DsType (ici_Item icitem), gi_Step (ici_Item icitem)), cs)
      | None \<Rightarrow>
          (case GetEndpointFromCache (id_ecache db) (id_endpoint db) endpoint (fst cs) of
             (None, e) \<Rightarrow> Some (None, e, snd cs)
           | (Some endpointId, e) \<Rightarrow> do {
               (r, d) \<leftarrow> GetCounterFromCache (id_ccache db) (id_counter db) endpointId counter (snd cs);
               Some (r, e, d) }))"

section \<open>The points in memory\<close>

abbreviation ts_at :: "GraphItem list \<Rightarrow> nat \<Rightarrow> int" where
  "ts_at items i \<equiv> gi_Timestamp (items ! i)"

abbreviation val_at :: "GraphItem list \<Rightarrow> nat \<Rightarrow> f64" where
  "val_at items i \<equiv> gi_Value (items ! i)"

definition rate_point :: "GraphItem list \<Rightarrow> int \<Rightarrow> int \<Rightarrow> nat \<Rightarrow> f64" where
  "rate_point items step ts idx =
     (if ts = ts_at items (idx + 1) - step \<and> f_ge (val_at items (idx + 1)) (val_at items idx)
      then f_div (f_sub (val_at items (idx + 1)) (val_at items idx)) (f_of_int step) else NaN)"

definition keep_point :: "int \<Rightarrow> int \<Rightarrow> int \<Rightarrow> f64 \<Rightarrow> RRDData list \<Rightarrow> RRDData list" where
  "keep_point start_ts end_ts ts val cache =
     (if ts \<ge> start_ts \<and> ts \<le> end_ts then cache @ [\<lparr> rd_Timestamp = ts, rd_Value = val \<rparr>] else cache)"

partial_function (option) derive_loop ::
  "GraphItem list \<Rightarrow> int \<Rightarrow> int \<Rightarrow> int \<Rightarrow> int \<Rightarrow> nat \<Rightarrow> RRDData list \<Rightarrow> RRDData list option" where
  "derive_loop items step start_ts end_ts ts itemIdx cache =
     (if ts < ts_at items (length items - 1) then
        let hit = (itemIdx < length items - 1 \<and> ts = ts_at items itemIdx);
            val = (if hit then rate_point items step ts itemIdx else NaN)
        in derive_loop items step start_ts end_ts (ts + step) (if hit then itemIdx + 1 else itemIdx)
             (keep_point start_ts end_ts ts val cache)
      else Some cache)"

partial_function (option) gauge_loop ::
  "GraphItem list \<Rightarrow> int \<Rightarrow> int \<Rightarrow> int \<Rightarrow> int \<Rightarrow> nat \<Rightarrow> RRDData list \<Rightarrow> RRDData list option" where
  "gauge_loop items step start_ts end_ts ts itemIdx cache =
     (if ts \<le> ts_at items (length items - 1) then
        let hit = (itemIdx < length items \<and> ts = ts_at items itemIdx);
            val = (if hit then val_at items itemIdx else NaN)
        in gauge_loop items step start_ts end_ts (ts + step) (if hit then itemIdx + 1 else itemIdx)
             (keep_point start_ts end_ts ts val cache)
      else Some cache)"

definition cached_points :: "string \<Rightarrow> GraphItem list \<Rightarrow> int \<Rightarrow> int \<Rightarrow> int \<Rightarrow> RRDData list option" where
  "cached_points dsType items step start_ts end_ts =
     (if dsType = ''DERIVE'' \<or> dsType = ''COUNTER'' then derive_loop items step start_ts end_ts (ts_at items 0) 0 []
      else if dsType = ''GAUGE'' then gauge_loop items step start_ts end_ts (ts_at items 0) 0 []
      else Some [])"

section \<open>Merging\<close>

text \<open>The junction: the last file point before the first cached one, or index \<open>-1\<close>.\<close>

fun junction :: "RRDData list \<Rightarrow> int \<Rightarrow> nat \<Rightarrow> int \<times> int" where
  "junction merged t0 0 = (-1, t0)"
| "junction merged t0 (Suc k) =
     (if rd_Timestamp (merged ! k) < t0 then (int k, rd_Timestamp (merged ! k)) else junction merged t0 k)"

partial_function (option) fill_missing :: "int \<Rightarrow> int \<Rightarrow> int \<Rightarrow> RRDData list \<Rightarrow> RRDData list option" where
  "fill_missing step t0 ts merged =
     (if ts < t0 then fill_missing step t0 (ts + step) (merged @ [\<lparr> rd_Timestamp = ts, rd_Value = NaN \<rparr>])
      else Some merged)"

fun merge_loop :: "nat \<Rightarrow> nat \<Rightarrow> RRDData list \<Rightarrow> RRDData list \<Rightarrow> RRDData list" where
  "merge_loop rrdDataSize idx merged [] = merged"
| "merge_loop rrdDataSize idx merged (c # cs) =
     merge_loop rrdDataSize (idx + 1)
       (if idx < rrdDataSize then (if \<not> is_nan (rd_Value c) then merged[idx := c] else merged) else merged @ [c]) cs"

definition merge_cache :: "int \<Rightarrow> RRDData list \<Rightarrow> RRDData list \<Rightarrow> RRDData list option" where
  "merge_cache step merged cache =
     (case cache of
        [] \<Rightarrow> Some merged
      | c0 # _ \<Rightarrow>
          let rrdDataSize = length merged;
              (rrdDataIdx, lastTs) = junction merged (rd_Timestamp c0) rrdDataSize
          in do {
            filled \<leftarrow> fill_missing step (rd_Timestamp c0) (lastTs + step) merged;
            Some (merge_loop rrdDataSize (nat (rrdDataIdx + 1)) filled cache) })"

fun fmt_loop :: "nat \<Rightarrow> int \<Rightarrow> int \<Rightarrow> nat \<Rightarrow> RRDData list \<Rightarrow> RRDData list" where
  "fmt_loop 0 step ts mergedIdx merged = []"
| "fmt_loop (Suc n) step ts mergedIdx merged =
     (if mergedIdx < length merged \<and> ts = rd_Timestamp (merged ! mergedIdx)
      then merged ! mergedIdx # fmt_loop n step (ts + step) (mergedIdx + 1) merged
      else \<lparr> rd_Timestamp = ts, rd_Value = NaN \<rparr> # fmt_loop n step (ts + step) mergedIdx merged)"

definition merge_query ::
  "string \<Rightarrow> int \<Rightarrow> int \<Rightarrow> int \<Rightarrow> GraphItem list \<Rightarrow> RRDData list \<Rightarrow> RRDData list option" where
  "merge_query dsType step start_ts end_ts items datas = do {
     cache \<leftarrow> cached_points dsType items step start_ts end_ts;
     merged \<leftarrow> merge_cache step (filter (\<lambda>v. rd_Timestamp v \<ge> start_ts \<and> rd_Timestamp v \<le> end_ts) datas) cache;
     let ret_size = (end_ts - start_ts) sdiv step + (if dsType = ''GAUGE'' then 1 else 0) in
     if ret_size < 0 then None else Some (fmt_loop (nat ret_size) step start_ts 0 merged) }"

section \<open>Queries\<close>

text \<open>
  \<open>fetch\<close> reads the file: file name, consolidation function, start, end and step; \<open>remote\<close> is the reply of
  the node that has the file while it is being migrated.
\<close>

definition Graph_Query ::
  "('e, 'd) index_db \<Rightarrow> Graph_config \<Rightarrow> (string \<Rightarrow> string \<Rightarrow> int \<Rightarrow> int \<Rightarrow> int \<Rightarrow> RRDData list) \<Rightarrow> RRDData list \<Rightarrow> int
     \<Rightarrow> GraphQueryParam \<Rightarrow> 'm Graph_state \<Rightarrow> 'e \<times> 'd \<Rightarrow> (GraphQueryResponse \<times> 'e \<times> 'd) go" where
  "Graph_Query db cfg fetch remote nowTs param st cs = do {
     (found, cs') \<leftarrow> GetTypeAndStep db (IndexedItemCache st) (gq_Endpoint param) (gq_Counter param) cs;
     let resp = \<lparr> gr_Endpoint = gq_Endpoint param, gr_Counter = gq_Counter param, gr_DsType = [], gr_Step = 0,
                  gr_Values = [] \<rparr> in
     (case found of
        None \<Rightarrow> Some (resp, cs')
      | Some (dsType, step) \<Rightarrow>
          if step = 0 then None
          else
            let resp1 = resp\<lparr>gr_DsType := dsType, gr_Step := step\<rparr>;
                start_ts = gq_Start param - gq_Start param smod step;
                end_ts = i64 (gq_End param - gq_End param smod step + step) in
            if i64 (end_ts - start_ts - step) < 1 then Some (resp1, cs')
            else
              let md5 = Md5 (gq_Endpoint param @ [slash] @ gq_Counter param);
                  key = FormRrdCacheKey md5 dsType step in do {
              filename \<leftarrow> RrdFileName (gg_Storage cfg) md5 dsType step;
              let (items, flag) = GraphItemMap_FetchAll (GraphItems st) key;
                  datas = (if gg_MigrateEnabled cfg \<and> flag AND GRAPH_F_MISS \<noteq> 0 then remote
                           else fetch filename (gq_ConsolFun param) (start_ts - step) end_ts step);
                  lastUpTs = nowTs - nowTs smod step;
                  rra1StartTs = lastUpTs - RRA1PointCnt * step in
              if start_ts < rra1StartTs \<or> length items < 1 then Some (resp1\<lparr>gr_Values := datas\<rparr>, cs')
              else do {
                ret \<leftarrow> merge_query dsType step start_ts end_ts items datas;
                Some (resp1\<lparr>gr_Values := ret\<rparr>, cs') } }) }"

definition GetLastRaw :: "('m, 'l) hist_ops \<Rightarrow> 'm Graph_state \<Rightarrow> string \<Rightarrow> string \<Rightarrow> RRDData" where
  "GetLastRaw h st endpoint counter =
     (let md5 = Md5 (endpoint @ [slash] @ counter); item = GetLastItem h (HistoryCache st) md5
      in NewRRDData (gi_Timestamp item) (gi_Value item))"

definition last_rate :: "int \<Rightarrow> GraphItem list \<Rightarrow> RRDData" where
  "last_rate step items =
     (case items of
        f0 # f1 # _ \<Rightarrow>
          let delta_ts = gi_Timestamp f0 - gi_Timestamp f1;
              delta_v = f_sub (gi_Value f0) (gi_Value f1)
          in if delta_ts \<noteq> step \<or> delta_ts \<le> 0 then NewRRDData 0 (Zero False)
             else NewRRDData (gi_Timestamp f0)
               (f_div (if f_lt delta_v (Zero False) then Zero False else delta_v) (f_of_int delta_ts))
      | _ \<Rightarrow> NewRRDData 0 (Zero False))"

definition GetLast ::
  "('e, 'd) index_db \<Rightarrow> ('m, 'l) hist_ops \<Rightarrow> 'm Graph_state \<Rightarrow> string \<Rightarrow> string \<Rightarrow> 'e \<times> 'd \<Rightarrow> (RRDData \<times> 'e \<times> 'd) go" where
  "GetLast db h st endpoint counter cs = do {
     (found, cs') \<leftarrow> GetTypeAndStep db (IndexedItemCache st) endpoint counter cs;
     Some (case found of
       None \<Rightarrow> (NewRRDData 0 (Zero False), cs')
     | Some (dsType, step) \<Rightarrow>
         if dsType = ''GAUGE'' then (GetLastRaw h st endpoint counter, cs')
         else if dsType = ''COUNTER'' \<or> dsType = ''DERIVE''
         then (last_rate step (GetAllItems h (HistoryCache st) (Md5 (endpoint @ [slash] @ counter))), cs')
         else (NewRRDData 0 (Zero False), cs')) }"

definition Graph_Info ::
  "('e, 'd) index_db \<Rightarrow> Graph_config \<Rightarrow> 'm Graph_state \<Rightarrow> string \<Rightarrow> string \<Rightarrow> 'e \<times> 'd \<Rightarrow> (GraphInfoResp \<times> 'e \<times> 'd) go" where
  "Graph_Info db cfg st endpoint counter cs = do {
     (found, cs') \<leftarrow> GetTypeAndStep db (IndexedItemCache st) endpoint counter cs;
     case found of
       None \<Rightarrow> Some (\<lparr> gf_ConsolFun = [], gf_Step = 0, gf_Filename = [] \<rparr>, cs')
     | Some (dsType, step) \<Rightarrow> do {
         filename \<leftarrow> RrdFileName (gg_Storage cfg) (Md5 (endpoint @ [slash] @ counter)) dsType step;
         Some (\<lparr> gf_ConsolFun = dsType, gf_Step = step, gf_Filename = filename \<rparr>, cs') } }"

definition Graph_Last ::
  "('e, 'd) index_db \<Rightarrow> ('m, 'l) hist_ops \<Rightarrow> 'm Graph_state \<Rightarrow> string \<Rightarrow> string \<Rightarrow> 'e \<times> 'd \<Rightarrow> (GraphLastResp \<times> 'e \<times> 'd) go" where
  "Graph_Last db h st endpoint counter cs = do {
     (v, cs') \<leftarrow> GetLast db h st endpoint counter cs;
     Some (\<lparr> gl_Endpoint = endpoint, gl_Counter = counter, gl_Value = v \<rparr>, cs') }"

definition Graph_LastRaw :: "('m, 'l) hist_ops \<Rightarrow> 'm Graph_state \<Rightarrow> string \<Rightarrow> string \<Rightarrow> GraphLastResp" where
  "Graph_LastRaw h st endpoint counter =
     \<lparr> gl_Endpoint = endpoint, gl_Counter = counter, gl_Value = GetLastRaw h st endpoint counter \<rparr>"

end
