(* ===== verification/GraphMerge.thy ===== *)
theory GraphMerge
  imports GraphQuery
begin

text \<open>
  What merging a query's two sources yields: points on a regular grid of timestamps, each from memory where
  memory has a value for it, else from the file, else missing.
\<close>

section \<open>Grids\<close>

definition grid :: "(int \<Rightarrow> f64) \<Rightarrow> int \<Rightarrow> int \<Rightarrow> nat \<Rightarrow> RRDData list" where
  "grid f s a n = map (\<lambda>i. \<lparr> rd_Timestamp = a + int i * s, rd_Value = f (a + int i * s) \<rparr>) [0..<n]"

lemma length_grid [simp]: "length (grid f s a n) = n"
  by (simp add: grid_def)

lemma nth_grid [simp]: "i < n \<Longrightarrow> grid f s a n ! i = \<lparr> rd_Timestamp = a + int i * s, rd_Value = f (a + int i * s) \<rparr>"
  by (simp add: grid_def)

lemma grid_0 [simp]: "grid f s a 0 = []"
  by (simp add: grid_def)

lemma grid_cong: "(\<And>i. i < n \<Longrightarrow> f (a + int i * s) = g (a + int i * s)) \<Longrightarrow> grid f s a n = grid g s a n"
  by (simp add: grid_def)

lemma grid_append: "grid f s a (m + n) = grid f s a m @ grid f s (a + int m * s) n"
proof (rule nth_equalityI)
  fix i
  assume "i < length (grid f s a (m + n))"
  then show "grid f s a (m + n) ! i = (grid f s a m @ grid f s (a + int m * s) n) ! i"
    by (cases "i < m") (auto simp: nth_append of_nat_diff algebra_simps)
qed simp

lemma grid_Suc: "grid f s a (Suc n) = \<lparr> rd_Timestamp = a, rd_Value = f a \<rparr> # grid f s (a + s) n"
  using grid_append [of f s a 1 n] by (simp add: grid_def)

lemma grid_snoc: "grid f s a (Suc n) = grid f s a n @ [\<lparr> rd_Timestamp = a + int n * s, rd_Value = f (a + int n * s) \<rparr>]"
  by (simp add: grid_def)

lemma keep_point_filter:
  "keep_point start_ts end_ts ts val cache =
     cache @ filter (\<lambda>v. start_ts \<le> rd_Timestamp v \<and> rd_Timestamp v \<le> end_ts) [\<lparr> rd_Timestamp = ts, rd_Value = val \<rparr>]"
  by (simp add: keep_point_def)

lemma filter_upt: "filter (\<lambda>i. lo \<le> i \<and> i \<le> hi) [0..<n] = [lo..<min n (Suc hi)]"
proof (induction n)
  case (Suc n)
  show ?case
  proof (cases "lo \<le> n \<and> n \<le> hi")
    case True
    then have "min n (Suc hi) = n" "min (Suc n) (Suc hi) = Suc n" by auto
    with True Suc show ?thesis by simp
  next
    case False
    then consider "n < lo" | "hi < n" by linarith
    then show ?thesis
    proof cases
      case 1
      then have "min n (Suc hi) \<le> lo" "min (Suc n) (Suc hi) \<le> lo" by auto
      with 1 Suc show ?thesis by simp
    next
      case 2
      then have "min n (Suc hi) = Suc hi" "min (Suc n) (Suc hi) = Suc hi" by auto
      with 2 Suc show ?thesis by simp
    qed
  qed
qed simp

text \<open>Cutting a grid to a range whose ends are on the grid.\<close>

lemma filter_grid:
  assumes "0 < s"
  shows "filter (\<lambda>v. a + int lo * s \<le> rd_Timestamp v \<and> rd_Timestamp v \<le> a + int hi * s) (grid f s a n)
    = grid f s (a + int lo * s) (min n (Suc hi) - lo)"
proof -
  have "a + int lo * s \<le> a + int i * s \<longleftrightarrow> lo \<le> i" "a + int i * s \<le> a + int hi * s \<longleftrightarrow> i \<le> hi" for i
    using assms by simp_all
  then have "filter (\<lambda>v. a + int lo * s \<le> rd_Timestamp v \<and> rd_Timestamp v \<le> a + int hi * s) (grid f s a n)
    = map (\<lambda>i. \<lparr> rd_Timestamp = a + int i * s, rd_Value = f (a + int i * s) \<rparr>) [lo..<min n (Suc hi)]"
    by (simp add: grid_def filter_map comp_def filter_upt)
  also have "\<dots> = grid f s (a + int lo * s) (min n (Suc hi) - lo)"
  proof (rule nth_equalityI)
    fix i
    assume "i < length (map (\<lambda>i. \<lparr> rd_Timestamp = a + int i * s, rd_Value = f (a + int i * s) \<rparr>) [lo..<min n (Suc hi)])"
    then have "i < min n (Suc hi) - lo" by simp
    then have i: "lo + i < min n (Suc hi)" by linarith
    with \<open>i < min n (Suc hi) - lo\<close> nth_upt [OF i] show "map (\<lambda>i. \<lparr> rd_Timestamp = a + int i * s, rd_Value = f (a + int i * s) \<rparr>) [lo..<min n (Suc hi)] ! i
      = grid f s (a + int lo * s) (min n (Suc hi) - lo) ! i"
      by (simp add: algebra_simps)
  qed simp
  finally show ?thesis .
qed

section \<open>The points in memory\<close>

text \<open>The points of one counter: oldest first, and on the grid of the step.\<close>

definition on_grid :: "int \<Rightarrow> GraphItem list \<Rightarrow> bool" where
  "on_grid step items \<longleftrightarrow> items \<noteq> [] \<and> sorted_wrt (\<lambda>x y. gi_Timestamp x < gi_Timestamp y) items
     \<and> (\<forall>x \<in> set items. step dvd gi_Timestamp x)"

definition gauge_val :: "GraphItem list \<Rightarrow> int \<Rightarrow> f64" where
  "gauge_val items t = (case find (\<lambda>x. gi_Timestamp x = t) items of Some x \<Rightarrow> gi_Value x | None \<Rightarrow> NaN)"

definition derive_val :: "GraphItem list \<Rightarrow> int \<Rightarrow> int \<Rightarrow> f64" where
  "derive_val items step t =
     (case find (\<lambda>i. ts_at items i = t) [0..<length items - 1] of Some i \<Rightarrow> rate_point items step t i | None \<Rightarrow> NaN)"

lemma on_grid_mono: "on_grid step items \<Longrightarrow> i < j \<Longrightarrow> j < length items \<Longrightarrow> ts_at items i < ts_at items j"
  by (simp add: on_grid_def sorted_wrt_iff_nth_less)

lemma on_grid_inj: "on_grid step items \<Longrightarrow> i < length items \<Longrightarrow> j < length items \<Longrightarrow> ts_at items i = ts_at items j \<Longrightarrow> i = j"
  using on_grid_mono [of step items i j] on_grid_mono [of step items j i] by (cases i j rule: linorder_cases) auto

lemma on_grid_dvd: "on_grid step items \<Longrightarrow> i < length items \<Longrightarrow> step dvd ts_at items i"
  by (simp add: on_grid_def)

lemma gauge_val_at:
  assumes "on_grid step items" "i < length items"
  shows "gauge_val items (ts_at items i) = val_at items i"
proof (cases "find (\<lambda>x. gi_Timestamp x = ts_at items i) items")
  case None
  with nth_mem [OF assms(2)] show ?thesis by (auto simp: find_None_iff simp del: nth_mem)
next
  case (Some x)
  then obtain j where "j < length items" "items ! j = x" "gi_Timestamp x = ts_at items i"
    by (auto simp: find_Some_iff)
  with on_grid_inj [OF assms(1), of j i] assms(2) Some show ?thesis by (auto simp: gauge_val_def)
qed

lemma gauge_val_none: "\<forall>i < length items. ts_at items i \<noteq> t \<Longrightarrow> gauge_val items t = NaN"
  by (auto simp: gauge_val_def in_set_conv_nth find_Some_iff split: option.splits)

lemma derive_val_at:
  assumes "on_grid step items" "i < length items - 1"
  shows "derive_val items step (ts_at items i) = rate_point items step (ts_at items i) i"
proof (cases "find (\<lambda>j. ts_at items j = ts_at items i) [0..<length items - 1]")
  case None
  with assms(2) show ?thesis by (auto simp: find_None_iff)
next
  case (Some j)
  then have j: "j < length items - 1" "ts_at items j = ts_at items i" by (auto simp: find_Some_iff)
  have "j = i" by (rule on_grid_inj [OF assms(1) _ _ j(2)]) (use j(1) assms(2) in linarith)+
  with Some show ?thesis by (simp add: derive_val_def)
qed

lemma derive_val_none: "\<forall>i < length items - 1. ts_at items i \<noteq> t \<Longrightarrow> derive_val items step t = NaN"
  by (auto simp: derive_val_def find_Some_iff split: option.splits)

text \<open>Where the walk is: every point before the index is older than the timestamp, no other is.\<close>

definition at_point :: "GraphItem list \<Rightarrow> int \<Rightarrow> nat \<Rightarrow> bool" where
  "at_point items t idx \<longleftrightarrow> (\<forall>j < length items. if j < idx then ts_at items j < t else t \<le> ts_at items j)"

lemma at_point_hit:
  assumes "at_point items t idx" "idx < length items" "j < length items" "on_grid step items" "ts_at items j = t"
  shows "j = idx"
proof (rule ccontr)
  assume "j \<noteq> idx"
  then consider "j < idx" | "idx < j" by linarith
  then show False
  proof cases
    case 1
    with assms(1,3,5) show False by (auto simp: at_point_def)
  next
    case 2
    then have "ts_at items idx < t" using on_grid_mono [OF assms(4) 2 assms(3)] assms(5) by simp
    moreover have "t \<le> ts_at items idx" using assms(1,2) by (simp add: at_point_def)
    ultimately show False by simp
  qed
qed

lemma at_point_step:
  assumes "on_grid step items" "0 < step" "step dvd t" "at_point items t idx"
  shows "at_point items (t + step) (if idx < length items \<and> t = ts_at items idx then idx + 1 else idx)"
proof -
  have jump: "t + step \<le> ts_at items j" if "j < length items" "t < ts_at items j" for j
  proof -
    have "step dvd ts_at items j - t" using on_grid_dvd [OF assms(1) that(1)] assms(3) by simp
    then have "step \<le> ts_at items j - t" using that(2) assms(2) by (intro zdvd_imp_le) auto
    then show ?thesis by simp
  qed
  show ?thesis
  proof (cases "idx < length items \<and> t = ts_at items idx")
    case True
    have "t + step \<le> ts_at items j" if "j < length items" "idx < j" for j
      using jump [OF that(1)] on_grid_mono [OF assms(1) that(2,1)] True by simp
    moreover have "ts_at items j < t + step" if "j < length items" "j \<le> idx" for j
      using on_grid_mono [OF assms(1), of j idx] True that assms(2) by (cases "j = idx") auto
    ultimately show ?thesis using True by (auto simp: at_point_def not_less less_Suc_eq_le)
  next
    case False
    have "t + step \<le> ts_at items j" if "j < length items" "\<not> j < idx" for j
    proof -
      have "t \<le> ts_at items j" using assms(4) that by (simp add: at_point_def)
      moreover have "t \<noteq> ts_at items j"
      proof
        assume eq: "t = ts_at items j"
        have "idx < length items" using that by simp
        with at_point_hit [OF assms(4) this that(1) assms(1)] eq False show False by simp
      qed
      ultimately show ?thesis using jump [OF that(1)] by simp
    qed
    moreover have "ts_at items j < t + step" if "j < length items" "j < idx" for j
      using assms(2,4) that by (fastforce simp: at_point_def)
    ultimately show ?thesis using False by (auto simp: at_point_def)
  qed
qed

abbreviation in_range :: "int \<Rightarrow> int \<Rightarrow> RRDData \<Rightarrow> bool" where
  "in_range start_ts end_ts \<equiv> (\<lambda>v. start_ts \<le> rd_Timestamp v \<and> rd_Timestamp v \<le> end_ts)"

lemma gauge_loop_grid:
  assumes g: "on_grid step items" "0 < step"
    and "step dvd t" "at_point items t idx" "t + int m * step = ts_at items (length items - 1) + step"
  shows "gauge_loop items step start_ts end_ts t idx cache =
    Some (cache @ filter (in_range start_ts end_ts) (grid (gauge_val items) step t m))"
  using assms(3-5)
proof (induction m arbitrary: t idx cache)
  case 0
  then show ?case using g(2) by (subst gauge_loop.simps) simp
next
  case (Suc m)
  let ?hit = "idx < length items \<and> t = ts_at items idx"
  have t: "t \<le> ts_at items (length items - 1)"
  proof -
    have "0 \<le> int m * step" using g(2) by simp
    moreover have "int (Suc m) * step = int m * step + step" by (simp add: algebra_simps)
    ultimately show ?thesis using Suc.prems(3) by linarith
  qed
  have val: "(if ?hit then val_at items idx else NaN) = gauge_val items t"
  proof (cases ?hit)
    case True
    with gauge_val_at [OF g(1), of idx] show ?thesis by simp
  next
    case False
    have "\<forall>j < length items. ts_at items j \<noteq> t"
    proof (intro allI impI notI)
      fix j
      assume j: "j < length items" "ts_at items j = t"
      then have "\<not> j < idx" using Suc.prems(2) by (auto simp: at_point_def)
      then have "idx < length items" using j(1) by simp
      with at_point_hit [OF Suc.prems(2) this j(1) g(1) j(2)] False j show False by simp
    qed
    from gauge_val_none [OF this] False show ?thesis by (simp only: if_False)
  qed
  have next_t: "t + step + int m * step = ts_at items (length items - 1) + step"
    using Suc.prems(3) by (simp add: algebra_simps)
  have dvd: "step dvd t + step" using Suc.prems(1) by simp
  note IH = Suc.IH [OF dvd at_point_step [OF g Suc.prems(1,2)] next_t]
  show ?case
    using t by (subst gauge_loop.simps) (simp add: IH val keep_point_filter grid_Suc)
qed

lemma derive_loop_grid:
  assumes g: "on_grid step items" "0 < step"
    and "step dvd t" "at_point items t idx" "t + int m * step = ts_at items (length items - 1)"
  shows "derive_loop items step start_ts end_ts t idx cache =
    Some (cache @ filter (in_range start_ts end_ts) (grid (derive_val items step) step t m))"
  using assms(3-5)
proof (induction m arbitrary: t idx cache)
  case 0
  then show ?case by (subst derive_loop.simps) simp
next
  case (Suc m)
  let ?hit = "idx < length items - 1 \<and> t = ts_at items idx"
  have t: "t < ts_at items (length items - 1)"
  proof -
    have "0 < int (Suc m) * step" using g(2) by simp
    with Suc.prems(3) show ?thesis by linarith
  qed
  have len: "idx < length items \<and> t = ts_at items idx \<longleftrightarrow> ?hit"
    using t by (cases "idx = length items - 1") auto
  have val: "(if ?hit then rate_point items step t idx else NaN) = derive_val items step t"
  proof (cases ?hit)
    case True
    with derive_val_at [OF g(1), of idx] show ?thesis by simp
  next
    case False
    have "\<forall>j < length items - 1. ts_at items j \<noteq> t"
    proof (intro allI impI notI)
      fix j
      assume j: "j < length items - 1" "ts_at items j = t"
      then have jl: "j < length items" by simp
      then have "\<not> j < idx" using Suc.prems(2) j(2) by (auto simp: at_point_def)
      then have "idx < length items" using jl by simp
      with at_point_hit [OF Suc.prems(2) this jl g(1) j(2)] False j show False by simp
    qed
    from derive_val_none [OF this] False show ?thesis by (simp only: if_False)
  qed
  have next_t: "t + step + int m * step = ts_at items (length items - 1)"
    using Suc.prems(3) by (simp add: algebra_simps)
  have dvd: "step dvd t + step" using Suc.prems(1) by simp
  note IH = Suc.IH [OF dvd at_point_step [OF g Suc.prems(1,2)] next_t]
  show ?case
    using t unfolding derive_loop.simps [of items step start_ts end_ts t] Let_def val IH [unfolded len]
    by (simp add: keep_point_filter grid_Suc)
qed

section \<open>Merging grids\<close>

lemma junction_grid:
  assumes "0 < s" "k \<le> p"
  shows "junction (grid f s a p) (a + int j * s) k =
    (if k = 0 \<or> j = 0 then (-1, a + int j * s) else let i = min k j - 1 in (int i, a + int i * s))"
  using assms(2)
proof (induction k)
  case (Suc k)
  have "a + int k * s < a + int j * s \<longleftrightarrow> k < j" using assms(1) by simp
  with Suc show ?case by (auto simp: Let_def min_def)
qed simp

lemma fill_missing_grid:
  assumes "0 < s"
  shows "fill_missing s (a + int n * s) a merged = Some (merged @ grid (\<lambda>_. NaN) s a n)"
  using assms
proof (induction n arbitrary: a merged)
  case 0
  then show ?case by (subst fill_missing.simps) simp
next
  case (Suc n)
  have "a < a + int (Suc n) * s" using assms by simp
  moreover have "a + int (Suc n) * s = a + s + int n * s" by (simp add: algebra_simps)
  ultimately have "fill_missing s (a + int (Suc n) * s) a merged =
    fill_missing s (a + s + int n * s) (a + s) (merged @ [\<lparr> rd_Timestamp = a, rd_Value = NaN \<rparr>])"
    by (subst fill_missing.simps) (simp only: if_True)
  with Suc.IH [OF assms, of "a + s" "merged @ [\<lparr> rd_Timestamp = a, rd_Value = NaN \<rparr>]"] show ?case
    by (simp add: grid_Suc)
qed

lemma fill_missing_none: "t0 \<le> ts \<Longrightarrow> fill_missing s t0 ts merged = Some merged"
  by (subst fill_missing.simps) simp

text \<open>Overwriting a grid from position \<open>j\<close> on: below \<open>p\<close> the value is kept where the new one is missing.\<close>

definition overlay :: "int \<Rightarrow> int \<Rightarrow> nat \<Rightarrow> nat \<Rightarrow> nat \<Rightarrow> (int \<Rightarrow> f64) \<Rightarrow> (int \<Rightarrow> f64) \<Rightarrow> int \<Rightarrow> f64" where
  "overlay a s p j q f g t =
     (if a + int j * s \<le> t \<and> t < a + int (j + q) * s \<and> (g t \<noteq> NaN \<or> a + int p * s \<le> t) then g t else f t)"

lemma merge_loop_snoc:
  "merge_loop p j merged (cs @ [c]) =
     (let m = merge_loop p j merged cs; i = j + length cs in
      if i < p then (if \<not> is_nan (rd_Value c) then m[i := c] else m) else m @ [c])"
  by (induction cs arbitrary: j merged) (simp_all add: Let_def)

lemma merge_loop_grid:
  assumes "0 < s" "j \<le> p"
  shows "merge_loop p j (grid f s a p) (grid g s (a + int j * s) q) = grid (overlay a s p j q f g) s a (max p (j + q))"
proof (induction q)
  case 0
  have "grid f s a p = grid (overlay a s p j 0 f g) s a p" by (rule grid_cong) (auto simp: overlay_def)
  with assms(2) show ?case by simp
next
  case (Suc q)
  let ?t = "a + int (j + q) * s" and ?h = "overlay a s p j q f g" and ?h' = "overlay a s p j (Suc q) f g"
  let ?c = "\<lparr> rd_Timestamp = ?t, rd_Value = g ?t \<rparr>"
  have snoc: "grid g s (a + int j * s) (Suc q) = grid g s (a + int j * s) q @ [?c]"
    by (simp add: grid_snoc algebra_simps)
  have cmp: "a + int i * s < a + int k * s \<longleftrightarrow> i < k" "a + int i * s \<le> a + int k * s \<longleftrightarrow> i \<le> k" for i k
    using assms(1) by simp_all
  have same: "?h' (a + int i * s) = ?h (a + int i * s)" if "i \<noteq> j + q" for i
    unfolding overlay_def cmp using that by auto
  have new: "?h' ?t = (if g ?t \<noteq> NaN \<or> p \<le> j + q then g ?t else f ?t)"
    unfolding overlay_def cmp by simp
  have old: "?h ?t = f ?t" unfolding overlay_def cmp by simp
  show ?case
  proof (cases "j + q < p")
    case True
    then have mx: "max p (j + q) = p" "max p (j + Suc q) = p" by simp_all
    have "(if \<not> is_nan (g ?t) then (grid ?h s a p)[j + q := ?c] else grid ?h s a p) = grid ?h' s a p"
    proof (rule nth_equalityI)
      fix i
      assume "i < length (if \<not> is_nan (g ?t) then (grid ?h s a p)[j + q := ?c] else grid ?h s a p)"
      then have "i < p" by (simp split: if_splits)
      then show "(if \<not> is_nan (g ?t) then (grid ?h s a p)[j + q := ?c] else grid ?h s a p) ! i = grid ?h' s a p ! i"
        using True same [of i] new old by (cases "i = j + q") (auto simp: is_nan_def)
    qed (simp add: if_distrib)
    with True Suc show ?thesis unfolding snoc mx by (simp add: merge_loop_snoc Let_def del: of_nat_add)
  next
    case False
    then have mx: "max p (j + q) = j + q" "max p (j + Suc q) = Suc (j + q)" by simp_all
    have "grid ?h s a (j + q) @ [?c] = grid ?h' s a (Suc (j + q))"
      unfolding grid_snoc using False new by (simp add: grid_cong [of "j + q" ?h' a s ?h, OF same])
    with False Suc show ?thesis unfolding snoc mx by (simp add: merge_loop_snoc Let_def)
  qed
qed

lemma merge_loop_append: "p \<le> i \<Longrightarrow> merge_loop p i merged cs = merged @ cs"
  by (induction cs arbitrary: i merged) simp_all

text \<open>The value of a slot: memory first, then the file, else missing.\<close>

definition slot :: "int \<Rightarrow> int \<Rightarrow> nat \<Rightarrow> nat \<Rightarrow> nat \<Rightarrow> (int \<Rightarrow> f64) \<Rightarrow> (int \<Rightarrow> f64) \<Rightarrow> int \<Rightarrow> f64" where
  "slot a s p j q dv cv t =
     (if a + int j * s \<le> t \<and> t < a + int (j + q) * s \<and> cv t \<noteq> NaN then cv t
      else if t < a + int p * s then dv t else NaN)"

lemma merge_cache_grid:
  assumes s: "0 < s" and q: "0 < q"
  shows "\<exists>h b N. merge_cache s (grid dv s a p) (grid cv s (a + int j * s) q) = Some (grid h s (a + int b * s) N)
    \<and> (\<forall>i. slot a s p j q dv cv (a + int i * s) = (if b \<le> i \<and> i < b + N then h (a + int i * s) else NaN))"
proof -
  let ?t0 = "a + int j * s"
  obtain q' where q': "q = Suc q'" using q by (cases q) auto
  have first: "merge_cache s (grid dv s a p) (grid cv s ?t0 q) =
    (let (idx, lastTs) = junction (grid dv s a p) ?t0 p in do {
       filled \<leftarrow> fill_missing s ?t0 (lastTs + s) (grid dv s a p);
       Some (merge_loop p (nat (idx + 1)) filled (grid cv s ?t0 q)) })"
    by (simp add: merge_cache_def q' grid_Suc Let_def case_prod_beta)
  note jun = junction_grid [OF s, of p p dv a j, simplified]
  have cmp: "a + int i * s < a + int k * s \<longleftrightarrow> i < k" "a + int i * s \<le> a + int k * s \<longleftrightarrow> i \<le> k" for i k
    using s by simp_all
  consider (empty) "p = 0" | (over) "0 < p" "j \<le> p" | (gap) "0 < p" "p < j" by linarith
  then show ?thesis
  proof cases
    case empty
    then have "merge_cache s (grid dv s a p) (grid cv s ?t0 q) = Some (grid cv s (a + int j * s) q)"
      unfolding first jun using s empty by (simp add: fill_missing_none merge_loop_append)
    moreover have "slot a s p j q dv cv (a + int i * s) = (if j \<le> i \<and> i < j + q then cv (a + int i * s) else NaN)" for i
      unfolding slot_def cmp using empty by auto
    ultimately show ?thesis by blast
  next
    case over
    have "\<exists>lastTs. junction (grid dv s a p) ?t0 p = (int j - 1, lastTs) \<and> ?t0 \<le> lastTs + s"
    proof (cases j)
      case 0
      with s show ?thesis unfolding jun by simp
    next
      case (Suc j')
      with over s show ?thesis unfolding jun by (simp add: Let_def min_def algebra_simps)
    qed
    then obtain lastTs where "junction (grid dv s a p) ?t0 p = (int j - 1, lastTs)" "?t0 \<le> lastTs + s" by blast
    then have "merge_cache s (grid dv s a p) (grid cv s ?t0 q) =
        Some (grid (overlay a s p j q dv cv) s (a + int 0 * s) (max p (j + q)))"
      by (simp add: first fill_missing_none merge_loop_grid [OF s over(2)])
    moreover have "slot a s p j q dv cv (a + int i * s) =
        (if 0 \<le> i \<and> i < 0 + max p (j + q) then overlay a s p j q dv cv (a + int i * s) else NaN)" for i
      unfolding slot_def overlay_def cmp using over by auto
    ultimately show ?thesis by blast
  next
    case gap
    let ?f = "\<lambda>t. if t < a + int p * s then dv t else NaN"
    let ?h = "\<lambda>t. if t < a + int j * s then ?f t else cv t"
    have nn: "\<not> int i * s < 0" for i using s by (simp add: not_less)
    have jun1: "junction (grid dv s a p) ?t0 p = (int p - 1, a + int (p - 1) * s)"
      unfolding jun using gap by (simp add: Let_def min_def of_nat_diff)
    have e1: "a + int (p - 1) * s + s = a + int p * s" using gap by (simp add: of_nat_diff algebra_simps)
    have e2: "?t0 = a + int p * s + int (j - p) * s" using gap by (simp add: of_nat_diff algebra_simps)
    have fill: "fill_missing s ?t0 (a + int (p - 1) * s + s) (grid dv s a p) =
        Some (grid dv s a p @ grid (\<lambda>_. NaN) s (a + int p * s) (j - p))"
      unfolding e1 e2 by (rule fill_missing_grid [OF s])
    have "merge_cache s (grid dv s a p) (grid cv s ?t0 q) =
        Some (grid dv s a p @ grid (\<lambda>_. NaN) s (a + int p * s) (j - p) @ grid cv s ?t0 q)"
      unfolding first jun1 Let_def prod.case fill by (simp add: merge_loop_append)
    also have "grid dv s a p @ grid (\<lambda>_. NaN) s (a + int p * s) (j - p) @ grid cv s ?t0 q = grid ?h s (a + int 0 * s) (j + q)"
    proof -
      have "grid dv s a p = grid ?f s a p" by (rule grid_cong) (simp add: s)
      moreover have "grid (\<lambda>_. NaN) s (a + int p * s) (j - p) = grid ?f s (a + int p * s) (j - p)"
        by (rule grid_cong) (simp add: nn)
      moreover have "grid ?f s a p @ grid ?f s (a + int p * s) (j - p) = grid ?f s a j"
        using grid_append [of ?f s a p "j - p"] gap by simp
      moreover have "grid ?f s a j = grid ?h s a j" by (rule grid_cong) (simp add: s)
      moreover have "grid cv s ?t0 q = grid ?h s ?t0 q" by (rule grid_cong) (simp add: nn)
      ultimately show ?thesis by (simp add: grid_append flip: append_assoc)
    qed
    finally have "merge_cache s (grid dv s a p) (grid cv s ?t0 q) = Some (grid ?h s (a + int 0 * s) (j + q))" .
    moreover have "slot a s p j q dv cv (a + int i * s) = (if 0 \<le> i \<and> i < 0 + (j + q) then ?h (a + int i * s) else NaN)" for i
      unfolding slot_def cmp using gap by auto
    ultimately show ?thesis by blast
  qed
qed

section \<open>The slots of the result\<close>

lemma fmt_loop_end: "length merged \<le> m \<Longrightarrow> fmt_loop n s t m merged = grid (\<lambda>_. NaN) s t n"
  by (induction n arbitrary: t) (simp_all add: grid_Suc)

lemma fmt_loop_on:
  assumes "0 < s" "m \<le> N"
  shows "fmt_loop n s (b + int m * s) m (grid h s b N) = grid (\<lambda>u. if u < b + int N * s then h u else NaN) s (b + int m * s) n"
  using assms(2)
proof (induction n arbitrary: m)
  case (Suc n)
  have cmp: "b + int i * s < b + int k * s \<longleftrightarrow> i < k" for i k using assms(1) by simp
  show ?case
  proof (cases "m < N")
    case True
    have e: "b + int m * s + s = b + int (m + 1) * s" by (simp add: algebra_simps)
    have "m + 1 \<le> N" using True by simp
    from Suc.IH [OF this, folded e]
    have "fmt_loop n s (b + int m * s + s) (m + 1) (grid h s b N) =
        grid (\<lambda>u. if u < b + int N * s then h u else NaN) s (b + int m * s + s) n" .
    with True show ?thesis using assms(1) by (simp add: grid_Suc)
  next
    case False
    with Suc.prems have "m = N" by simp
    then have "fmt_loop (Suc n) s (b + int m * s) m (grid h s b N) = grid (\<lambda>_. NaN) s (b + int m * s) (Suc n)"
      by (simp add: fmt_loop_end del: fmt_loop.simps)
    also have "\<dots> = grid (\<lambda>u. if u < b + int N * s then h u else NaN) s (b + int m * s) (Suc n)"
    proof (rule grid_cong)
      fix i
      have "0 \<le> int i * s" using assms(1) by simp
      then show "NaN = (if b + int m * s + int i * s < b + int N * s then h (b + int m * s + int i * s) else NaN)"
        using \<open>m = N\<close> by simp
    qed
    finally show ?thesis .
  qed
qed simp

lemma fmt_loop_grid:
  assumes "0 < s"
  shows "fmt_loop n s a 0 (grid h s (a + int b * s) N) =
    grid (\<lambda>u. if a + int b * s \<le> u \<and> u < a + int (b + N) * s then h u else NaN) s a n"
proof (induction n arbitrary: a b)
  case (Suc n)
  show ?case
  proof (cases b)
    case 0
    have "fmt_loop (Suc n) s a 0 (grid h s a N) = grid (\<lambda>u. if u < a + int N * s then h u else NaN) s a (Suc n)"
      using fmt_loop_on [OF assms, of 0 N "Suc n" a h] by (simp del: fmt_loop.simps)
    also have "\<dots> = grid (\<lambda>u. if a \<le> u \<and> u < a + int N * s then h u else NaN) s a (Suc n)"
      by (rule grid_cong) (use assms in simp)
    finally show ?thesis using 0 by (simp del: fmt_loop.simps)
  next
    case (Suc b')
    have ab: "a + int b * s = a + s + int b' * s" "a + int (b + N) * s = a + s + int (b' + N) * s"
      using Suc by (simp_all add: algebra_simps)
    have "0 \<le> int b' * s" using assms by simp
    then have "a < a + int b * s" using assms ab by linarith
    then show ?thesis
      using Suc.IH [of "a + s" b'] unfolding ab by (cases N) (auto simp: grid_Suc)
  qed
qed simp

section \<open>Merging a query\<close>

text \<open>A grid of cached points cut to the queried range covers the same timestamps of the range.\<close>

lemma cut_grid:
  assumes s: "0 < s" "s dvd t0" "s dvd a"
  shows "\<exists>j q. filter (in_range a (a + int k * s)) (grid f s t0 m) = grid f s (a + int j * s) q
    \<and> (\<forall>i \<le> k. (j \<le> i \<and> i < j + q) \<longleftrightarrow> (t0 \<le> a + int i * s \<and> a + int i * s < t0 + int m * s))"
proof -
  consider (after) "a + int k * s < t0" | (inside) "a \<le> t0" "t0 \<le> a + int k * s" | (before) "t0 < a" by linarith
  then show ?thesis
  proof cases
    case after
    have "filter (in_range a (a + int k * s)) (grid f s t0 m) = grid f s (a + int 0 * s) 0"
    proof -
      have "\<not> t0 + int i * s \<le> a + int k * s" for i
        using after s(1) mult_nonneg_nonneg [of "int i" s] by linarith
      then show ?thesis by (simp add: filter_empty_conv grid_def)
    qed
    moreover have "\<not> t0 \<le> a + int i * s" if "i \<le> k" for i
      using after mult_right_mono [of "int i" "int k" s] that s(1) by linarith
    ultimately show ?thesis by (intro exI [of _ 0]) simp
  next
    case inside
    from s(2,3) have "s dvd t0 - a" by simp
    then obtain c where c: "t0 - a = s * c" ..
    have "0 \<le> s * c" using inside(1) unfolding c [symmetric] by simp
    then have "0 \<le> c" using s(1) by (simp add: zero_le_mult_iff)
    moreover have "c \<le> int k"
    proof -
      have "s * c \<le> s * int k" using inside(2) c by (simp add: algebra_simps)
      then show ?thesis using s(1) by simp
    qed
    ultimately obtain j where j: "c = int j" "j \<le> k" by (metis nat_int nat_le_iff nonneg_int_cases)
    have t0: "t0 = a + int j * s" using c j by (simp add: algebra_simps)
    have "filter (in_range a (a + int k * s)) (grid f s t0 m) =
        filter (\<lambda>v. t0 + int 0 * s \<le> rd_Timestamp v \<and> rd_Timestamp v \<le> t0 + int (k - j) * s) (grid f s t0 m)"
    proof (rule filter_cong [OF refl])
      fix v
      assume "v \<in> set (grid f s t0 m)"
      then obtain i where "v = \<lparr> rd_Timestamp = t0 + int i * s, rd_Value = f (t0 + int i * s) \<rparr>"
        by (auto simp: grid_def)
      then have "rd_Timestamp v = t0 + int i * s" by simp
      then show "in_range a (a + int k * s) v =
          (t0 + int 0 * s \<le> rd_Timestamp v \<and> rd_Timestamp v \<le> t0 + int (k - j) * s)"
        using inside(1) s(1) j(2) mult_nonneg_nonneg [of "int i" s] by (auto simp: t0 of_nat_diff algebra_simps)
    qed
    also have "\<dots> = grid f s (a + int j * s) (min m (Suc (k - j)))"
      using filter_grid [OF s(1), of t0 0 "k - j" f m] by (simp add: t0)
    finally have "filter (in_range a (a + int k * s)) (grid f s t0 m) = grid f s (a + int j * s) (min m (Suc (k - j)))" .
    moreover have "(j \<le> i \<and> i < j + min m (Suc (k - j))) \<longleftrightarrow> (t0 \<le> a + int i * s \<and> a + int i * s < t0 + int m * s)"
      if "i \<le> k" for i
    proof -
      have "t0 + int m * s = a + int (j + m) * s" by (simp add: t0 algebra_simps)
      then show ?thesis using that j(2) s(1) by (auto simp: t0 simp del: of_nat_add)
    qed
    ultimately show ?thesis by blast
  next
    case before
    from s(2,3) have "s dvd a - t0" by simp
    then obtain c where c: "a - t0 = s * c" ..
    have "0 \<le> s * c" using before unfolding c [symmetric] by simp
    then have "0 \<le> c" using s(1) by (simp add: zero_le_mult_iff)
    then obtain lo where lo: "c = int lo" by (rule nonneg_int_cases)
    have a: "a = t0 + int lo * s" using c lo by (simp add: algebra_simps)
    have "filter (in_range a (a + int k * s)) (grid f s t0 m) = grid f s (a + int 0 * s) (min m (Suc (lo + k)) - lo)"
      using filter_grid [OF s(1), of t0 lo "lo + k" f m] by (simp add: a algebra_simps)
    moreover have "(0 \<le> i \<and> i < 0 + (min m (Suc (lo + k)) - lo)) \<longleftrightarrow> (t0 \<le> a + int i * s \<and> a + int i * s < t0 + int m * s)"
      if "i \<le> k" for i
    proof -
      have e: "a + int i * s = t0 + int (lo + i) * s" by (simp add: a algebra_simps)
      have "t0 + int (lo + i) * s < t0 + int m * s \<longleftrightarrow> lo + i < m" using s(1) by (simp del: of_nat_add)
      moreover have "t0 \<le> t0 + int (lo + i) * s" using s(1) by simp
      ultimately show ?thesis unfolding e using that by auto
    qed
    ultimately show ?thesis by blast
  qed
qed

text \<open>What a query returns for a timestamp.\<close>

definition query_val :: "(int \<Rightarrow> f64) \<Rightarrow> (int \<Rightarrow> f64) \<Rightarrow> int \<Rightarrow> int \<Rightarrow> f64" where
  "query_val mem file file_end t = (if mem t \<noteq> NaN then mem t else if t < file_end then file t else NaN)"

lemma merge_formatted:
  assumes s: "0 < s" "s dvd t0" "s dvd a" and R: "R \<le> Suc k"
    and cover: "\<And>t. s dvd t \<Longrightarrow> \<not> (t0 \<le> t \<and> t < t0 + int m * s) \<Longrightarrow> cv t = NaN"
  shows "\<exists>merged. merge_cache s (filter (in_range a (a + int k * s)) (grid dv s a n))
      (filter (in_range a (a + int k * s)) (grid cv s t0 m)) = Some merged
    \<and> fmt_loop R s a 0 merged = grid (query_val cv dv (a + int n * s)) s a R"
proof -
  let ?p = "min n (Suc k)"
  have fil: "filter (in_range a (a + int k * s)) (grid dv s a n) = grid dv s a ?p"
    using filter_grid [OF s(1), of a 0 k dv n] by simp
  from cut_grid [OF s, of k cv m] obtain j q where
    cut: "filter (in_range a (a + int k * s)) (grid cv s t0 m) = grid cv s (a + int j * s) q"
    "\<forall>i \<le> k. (j \<le> i \<and> i < j + q) \<longleftrightarrow> (t0 \<le> a + int i * s \<and> a + int i * s < t0 + int m * s)" by blast
  have cmp: "a + int i * s < a + int k * s \<longleftrightarrow> i < k" "a + int i * s \<le> a + int k * s \<longleftrightarrow> i \<le> k" for i k
    using s(1) by simp_all
  have slot: "slot a s ?p j q dv cv (a + int i * s) = query_val cv dv (a + int n * s) (a + int i * s)" if "i < R" for i
  proof -
    have "s dvd a + int i * s" using s(3) by simp
    moreover have "i \<le> k" using that R by simp
    ultimately have "cv (a + int i * s) = NaN" if "\<not> (j \<le> i \<and> i < j + q)"
      using that cut(2) cover by blast
    then show ?thesis unfolding slot_def query_val_def cmp using that R by auto
  qed
  show ?thesis
  proof (cases "q = 0")
    case True
    have "fmt_loop R s a 0 (grid dv s a ?p) = grid (query_val cv dv (a + int n * s)) s a R"
    proof -
      have "fmt_loop R s a 0 (grid dv s a ?p) = grid (\<lambda>u. if a \<le> u \<and> u < a + int ?p * s then dv u else NaN) s a R"
        using fmt_loop_grid [OF s(1), of R a dv 0 ?p] by simp
      also have "\<dots> = grid (query_val cv dv (a + int n * s)) s a R"
      proof (rule grid_cong)
        fix i
        assume "i < R"
        have "0 \<le> int i * s" using s(1) by simp
        with slot [OF \<open>i < R\<close>] True
        show "(if a \<le> a + int i * s \<and> a + int i * s < a + int ?p * s then dv (a + int i * s) else NaN) =
            query_val cv dv (a + int n * s) (a + int i * s)"
          by (simp add: slot_def split: if_splits)
      qed
      finally show ?thesis .
    qed
    with True fil cut(1) show ?thesis by (simp add: merge_cache_def)
  next
    case False
    then obtain h b N where m: "merge_cache s (grid dv s a ?p) (grid cv s (a + int j * s) q) = Some (grid h s (a + int b * s) N)"
      "\<forall>i. slot a s ?p j q dv cv (a + int i * s) = (if b \<le> i \<and> i < b + N then h (a + int i * s) else NaN)"
      using merge_cache_grid [OF s(1), of q dv a ?p cv j] by blast
    have "fmt_loop R s a 0 (grid h s (a + int b * s) N) = grid (query_val cv dv (a + int n * s)) s a R"
      unfolding fmt_loop_grid [OF s(1)]
    proof (rule grid_cong)
      fix i
      assume "i < R"
      from slot [OF this] m(2) show "(if a + int b * s \<le> a + int i * s \<and> a + int i * s < a + int (b + N) * s
          then h (a + int i * s) else NaN) = query_val cv dv (a + int n * s) (a + int i * s)"
        unfolding cmp by simp
    qed
    with m(1) fil cut(1) show ?thesis by simp
  qed
qed

section \<open>The whole merge\<close>

definition mem_val :: "string \<Rightarrow> int \<Rightarrow> GraphItem list \<Rightarrow> int \<Rightarrow> f64" where
  "mem_val dsType step items t = (if dsType = ''GAUGE'' then gauge_val items t else derive_val items step t)"

lemma sdiv_nonneg: "0 \<le> (a :: int) \<Longrightarrow> 0 < s \<Longrightarrow> a sdiv s = a div s"
  by (cases "a = 0") (simp_all add: signed_divide_int_def)

lemma sdiv_grid: "0 < s \<Longrightarrow> (int k * s) sdiv s = int k"
  by (simp add: sdiv_nonneg)

lemma on_grid_span:
  assumes "on_grid step items" "0 < step"
  obtains m where "ts_at items 0 + int m * step = ts_at items (length items - 1)"
    "\<forall>i < length items. ts_at items 0 \<le> ts_at items i \<and> ts_at items i \<le> ts_at items (length items - 1)"
    "\<forall>i < length items - 1. ts_at items i < ts_at items (length items - 1)"
proof -
  let ?l = "length items - 1"
  have ne: "0 < length items" using assms(1) by (simp add: on_grid_def)
  have lo: "ts_at items 0 \<le> ts_at items i" if "i < length items" for i
    using on_grid_mono [OF assms(1), of 0 i] that by (cases "i = 0") auto
  have hi: "ts_at items i < ts_at items ?l" if "i < ?l" for i
    using on_grid_mono [OF assms(1) that] ne by simp
  have "step dvd ts_at items ?l - ts_at items 0" using on_grid_dvd [OF assms(1)] ne by simp
  then obtain d where d: "ts_at items ?l - ts_at items 0 = step * d" by (auto simp: dvd_def)
  have "0 \<le> step * d" using lo [of ?l] ne d by simp
  then have "0 \<le> d" using assms(2) by (simp add: zero_le_mult_iff)
  then have "ts_at items 0 + int (nat d) * step = ts_at items ?l" using d by (simp add: algebra_simps)
  moreover have "ts_at items i \<le> ts_at items ?l" if "i < length items" for i
    using hi [of i] that by (cases "i = ?l") (simp, fastforce)
  ultimately show ?thesis using that [of "nat d"] lo hi by blast
qed

lemma cached_points_grid:
  assumes g: "on_grid step items" "0 < step" and ds: "dsType \<in> {''GAUGE'', ''DERIVE'', ''COUNTER''}"
  shows "\<exists>m. cached_points dsType items step a b =
      Some (filter (in_range a b) (grid (mem_val dsType step items) step (ts_at items 0) m))
    \<and> (\<forall>t. \<not> (ts_at items 0 \<le> t \<and> t < ts_at items 0 + int m * step) \<longrightarrow> mem_val dsType step items t = NaN)"
proof -
  let ?t0 = "ts_at items 0"
  from on_grid_span [OF g] obtain m where m: "?t0 + int m * step = ts_at items (length items - 1)"
    "\<forall>i < length items. ?t0 \<le> ts_at items i \<and> ts_at items i \<le> ts_at items (length items - 1)"
    "\<forall>i < length items - 1. ts_at items i < ts_at items (length items - 1)" .
  have at: "at_point items ?t0 0" using m(2) by (simp add: at_point_def)
  have t0: "step dvd ?t0" using on_grid_dvd [OF g(1), of 0] g(1) by (simp add: on_grid_def)
  show ?thesis
  proof (cases "dsType = ''GAUGE''")
    case True
    have e: "?t0 + int (Suc m) * step = ts_at items (length items - 1) + step" using m(1) by (simp add: algebra_simps)
    have f: "mem_val dsType step items = gauge_val items" using True by (intro ext) (simp add: mem_val_def)
    show ?thesis
    proof (intro exI [of _ "Suc m"] conjI allI impI)
      show "cached_points dsType items step a b =
          Some (filter (in_range a b) (grid (mem_val dsType step items) step ?t0 (Suc m)))"
        unfolding f cached_points_def gauge_loop_grid [OF g t0 at e, of a b "[]"] using True by simp
      fix t
      assume "\<not> (?t0 \<le> t \<and> t < ?t0 + int (Suc m) * step)"
      then have "ts_at items i \<noteq> t" if "i < length items" for i using m(2) [rule_format, OF that] e g(2) by linarith
      then show "mem_val dsType step items t = NaN" unfolding f by (intro gauge_val_none) blast
    qed
  next
    case False
    have f: "mem_val dsType step items = derive_val items step" using False by (intro ext) (simp add: mem_val_def)
    have ds': "dsType = ''DERIVE'' \<or> dsType = ''COUNTER''" using ds False by blast
    show ?thesis
    proof (intro exI [of _ m] conjI allI impI)
      show "cached_points dsType items step a b =
          Some (filter (in_range a b) (grid (mem_val dsType step items) step ?t0 m))"
        unfolding f cached_points_def derive_loop_grid [OF g t0 at m(1), of a b "[]"] using ds' by simp
      fix t
      assume "\<not> (?t0 \<le> t \<and> t < ?t0 + int m * step)"
      then have "ts_at items i \<noteq> t" if "i < length items - 1" for i
        using m(1) m(2) [rule_format, of i] m(3) [rule_format, OF that] that by linarith
      then show "mem_val dsType step items t = NaN" unfolding f by (intro derive_val_none) blast
    qed
  qed
qed

lemma merge_query_grid:
  assumes g: "on_grid step items" "0 < step" and ds: "dsType \<in> {''GAUGE'', ''DERIVE'', ''COUNTER''}" and a: "step dvd a"
  shows "merge_query dsType step a (a + int k * step) items (grid dv step a n) =
    Some (grid (query_val (mem_val dsType step items) dv (a + int n * step)) step a (k + (if dsType = ''GAUGE'' then 1 else 0)))"
proof -
  let ?b = "a + int k * step" and ?R = "k + (if dsType = ''GAUGE'' then 1 else 0)"
  from cached_points_grid [OF g ds, of a ?b] obtain m where
    c: "cached_points dsType items step a ?b =
      Some (filter (in_range a ?b) (grid (mem_val dsType step items) step (ts_at items 0) m))"
    "\<forall>t. \<not> (ts_at items 0 \<le> t \<and> t < ts_at items 0 + int m * step) \<longrightarrow> mem_val dsType step items t = NaN" by blast
  have t0: "step dvd ts_at items 0" using on_grid_dvd [OF g(1), of 0] g(1) by (simp add: on_grid_def)
  have R: "?R \<le> Suc k" by simp
  from merge_formatted [OF g(2) t0 a R, of m "mem_val dsType step items" dv n] c(2) obtain merged where
    f: "merge_cache step (filter (in_range a ?b) (grid dv step a n))
        (filter (in_range a ?b) (grid (mem_val dsType step items) step (ts_at items 0) m)) = Some merged"
    "fmt_loop ?R step a 0 merged = grid (query_val (mem_val dsType step items) dv (a + int n * step)) step a ?R" by blast
  have R': "nat (int k + (if dsType = ''GAUGE'' then 1 else 0)) = ?R" "\<not> int k + (if dsType = ''GAUGE'' then 1 else 0) < 0"
    by auto
  show ?thesis unfolding merge_query_def c(1) using f sdiv_grid [OF g(2), of k] R' by simp
qed

section \<open>The loops end\<close>

lemma derive_loop_returns: "0 < step \<Longrightarrow> \<exists>r. derive_loop items step a b ts idx cache = Some r"
proof (induction "nat (ts_at items (length items - 1) - ts)" arbitrary: ts idx cache rule: less_induct)
  case less
  show ?case
  proof (cases "ts < ts_at items (length items - 1)")
    case True
    then have d: "nat (ts_at items (length items - 1) - (ts + step)) < nat (ts_at items (length items - 1) - ts)"
      using less(2) by simp
    show ?thesis using less(1) [OF d less(2)] by (subst derive_loop.simps) (simp add: Let_def)
  qed (subst derive_loop.simps, simp)
qed

lemma gauge_loop_returns: "0 < step \<Longrightarrow> \<exists>r. gauge_loop items step a b ts idx cache = Some r"
proof (induction "nat (ts_at items (length items - 1) + 1 - ts)" arbitrary: ts idx cache rule: less_induct)
  case less
  show ?case
  proof (cases "ts \<le> ts_at items (length items - 1)")
    case True
    then have d: "nat (ts_at items (length items - 1) + 1 - (ts + step)) < nat (ts_at items (length items - 1) + 1 - ts)"
      using less(2) by simp
    show ?thesis using less(1) [OF d less(2)] by (subst gauge_loop.simps) (simp add: Let_def)
  qed (subst gauge_loop.simps, simp)
qed

lemma fill_missing_returns: "0 < step \<Longrightarrow> \<exists>r. fill_missing step t0 ts merged = Some r"
proof (induction "nat (t0 - ts)" arbitrary: ts merged rule: less_induct)
  case less
  show ?case
  proof (cases "ts < t0")
    case True
    then have d: "nat (t0 - (ts + step)) < nat (t0 - ts)" using less(2) by simp
    show ?thesis using less(1) [OF d less(2)] by (subst fill_missing.simps) simp
  qed (subst fill_missing.simps, simp)
qed

lemma length_fmt_loop [simp]: "length (fmt_loop n step ts i merged) = n"
  by (induction n arbitrary: ts i) simp_all

lemma fmt_loop_times: "map rd_Timestamp (fmt_loop n step ts i merged) = map (\<lambda>j. ts + int j * step) [0..<n]"
proof (induction n arbitrary: ts i)
  case (Suc n)
  have "[0..<Suc n] = 0 # map Suc [0..<n]" by (simp add: map_Suc_upt del: upt_Suc add: upt_conv_Cons)
  with Suc show ?case by (auto simp: algebra_simps)
qed simp

lemma cached_points_returns: "0 < step \<Longrightarrow> \<exists>r. cached_points dsType items step a b = Some r"
  by (simp add: cached_points_def derive_loop_returns gauge_loop_returns)

lemma merge_cache_returns: "0 < step \<Longrightarrow> \<exists>r. merge_cache step merged cache = Some r"
proof (cases cache)
  case (Cons c cs)
  assume step: "0 < step"
  obtain i ts where j: "junction merged (rd_Timestamp c) (length merged) = (i, ts)" by fastforce
  from fill_missing_returns [OF step, of "rd_Timestamp c" "ts + step" merged] obtain r where
    "fill_missing step (rd_Timestamp c) (ts + step) merged = Some r" by blast
  with j Cons show ?thesis by (simp add: merge_cache_def Let_def del: merge_loop.simps)
qed (simp add: merge_cache_def)

lemma merge_query_returns:
  assumes "0 < step" "a \<le> b"
  shows "\<exists>ret. merge_query dsType step a b items datas = Some ret
    \<and> map rd_Timestamp ret = map (\<lambda>j. a + int j * step) [0..<nat ((b - a) div step + (if dsType = ''GAUGE'' then 1 else 0))]"
proof -
  from cached_points_returns [OF assms(1)] obtain c where c: "cached_points dsType items step a b = Some c" by blast
  from merge_cache_returns [OF assms(1)] obtain m where
    m: "merge_cache step (filter (\<lambda>v. rd_Timestamp v \<ge> a \<and> rd_Timestamp v \<le> b) datas) c = Some m" by blast
  have q: "(b - a) sdiv step = (b - a) div step" "0 \<le> (b - a) div step"
    using assms by (simp_all add: sdiv_nonneg pos_imp_zdiv_nonneg_iff)
  then have n: "\<not> (b - a) div step + (if dsType = ''GAUGE'' then 1 else 0) < 0" by auto
  have "merge_query dsType step a b items datas =
      Some (fmt_loop (nat ((b - a) div step + (if dsType = ''GAUGE'' then 1 else 0))) step a 0 m)"
    unfolding merge_query_def c q(1) bind.bind_lunit m Let_def using n by (simp only: if_False)
  then show ?thesis using fmt_loop_times by blast
qed

end
