(* ===== verification/GraphInv.thy ===== *)
theory GraphInv
  imports GraphMerge "HOL-Library.Multiset"
begin

text \<open>
  The invariant of the graph module's memory, that every operation keeps it, and what flushing does to
  the points in memory.
\<close>

section \<open>Operations through the store interface\<close>

lemma shard_get: "m_get (shard_of m key) key = GraphItemMap_Get m key"
  by (simp add: GraphItemMap_Get_def)

lemmas graph_ops = GraphItemMap_First_def GraphItemMap_PushAll_def GraphItemMap_GetFlag_def GraphItemMap_SetFlag_def
  GraphItemMap_PopAll_def GraphItemMap_FetchAll_def GraphItemMap_Back_def GraphItemMap_ItemCnt_def shard_get

definition mem_items :: "GraphItemMap \<Rightarrow> string \<Rightarrow> GraphItem list" where
  "mem_items m key = (case GraphItemMap_Get m key of None \<Rightarrow> [] | Some sl \<Rightarrow> gl_L sl)"

text \<open>The cache key of an item, and the items whose key splits again.\<close>

definition item_key :: "GraphItem \<Rightarrow> string" where
  "item_key x = FormRrdCacheKey (GraphItem_Checksum x) (gi_DsType x) (gi_Step x)"

definition good_graph_item :: "GraphItem \<Rightarrow> bool" where
  "good_graph_item x \<longleftrightarrow> underscore \<notin> set (gi_DsType x) \<and> -(2 ^ 31) \<le> gi_Step x \<and> gi_Step x < 2 ^ 31"

definition key_ok :: "string \<Rightarrow> bool" where
  "key_ok key \<longleftrightarrow> (\<exists>x. good_graph_item x \<and> item_key x = key)"

definition list_inv :: "string \<Rightarrow> GraphList \<Rightarrow> bool" where
  "list_inv key sl \<longleftrightarrow> key_ok key \<and> sorted_wrt (\<lambda>x y. gi_Timestamp y < gi_Timestamp x) (gl_L sl)
     \<and> (\<forall>x \<in> set (gl_L sl). item_key x = key \<and> good_graph_item x)"

definition mem_ok :: "GraphItemMap \<Rightarrow> bool" where
  "mem_ok m \<longleftrightarrow> gim.holds list_inv m"

definition graph_ok :: "'m Graph_state \<Rightarrow> bool" where
  "graph_ok st \<longleftrightarrow> mem_ok (GraphItems st) \<and> gomap_ok (ic_data (IndexedItemCache st))
     \<and> gomap_ok (ic_data (unIndexedItemCache st)) \<and> (\<forall>(node, key) \<in> set (pull_log st). key_ok key)"

lemma mem_ok_map: "mem_ok m \<Longrightarrow> graph_map_ok m"
  by (simp add: mem_ok_def gim.holds_def)

lemma mem_ok_get: "mem_ok m \<Longrightarrow> GraphItemMap_Get m k = Some sl \<Longrightarrow> list_inv k sl"
  by (simp add: mem_ok_def gim.holds_def)

lemma mem_ok_set: "mem_ok m \<Longrightarrow> list_inv k sl \<Longrightarrow> mem_ok (GraphItemMap_Set k sl m)"
  unfolding mem_ok_def by (rule gim.holds_put)

lemma mem_ok_remove: "mem_ok m \<Longrightarrow> mem_ok (snd (GraphItemMap_Remove k m))"
  unfolding mem_ok_def by (rule gim.holds_del)

lemma mem_items_set [simp]:
  "graph_map_ok m \<Longrightarrow> mem_items (GraphItemMap_Set k sl m) k' = (if k' = k then gl_L sl else mem_items m k')"
  by (simp add: mem_items_def)

lemma mem_items_ok: "mem_ok m \<Longrightarrow> sorted_wrt (\<lambda>x y. gi_Timestamp y < gi_Timestamp x) (mem_items m k)
    \<and> (\<forall>x \<in> set (mem_items m k). item_key x = k \<and> good_graph_item x)"
  using mem_ok_get [of m k] by (auto simp: mem_items_def list_inv_def split: option.split)

lemma First_mem: "GraphItemMap_First m k = (case mem_items m k of [] \<Rightarrow> None | x # _ \<Rightarrow> Some x)"
  by (simp add: graph_ops mem_items_def GraphList_Front_def split: option.split)

section \<open>Every operation keeps the invariant\<close>

lemma PushFront_ok:
  assumes m: "mem_ok m" and x: "good_graph_item x"
    and newer: "\<forall>y. GraphItemMap_First m (item_key x) = Some y \<longrightarrow> gi_Timestamp y < gi_Timestamp x"
  shows "mem_ok (GraphItemMap_PushFront (item_key x) x missing m)"
    "mem_items (GraphItemMap_PushFront (item_key x) x missing m) k =
      (if k = item_key x then x # mem_items m k else mem_items m k)"
proof -
  let ?k = "item_key x"
  have "mem_ok (GraphItemMap_PushFront ?k x missing m) \<and>
    mem_items (GraphItemMap_PushFront ?k x missing m) k = (if k = ?k then x # mem_items m k else mem_items m k)"
  proof (cases "GraphItemMap_Get m ?k")
    case None
    have inv: "list_inv ?k \<lparr> gl_Flag = (if missing then GRAPH_F_MISS else 0), gl_L = [x] \<rparr>"
      using x by (auto simp: list_inv_def key_ok_def)
    from None mem_ok_set [OF m inv] mem_ok_map [OF m] show ?thesis
      by (auto simp: GraphItemMap_PushFront_def Let_def mem_items_def)
  next
    case (Some sl)
    from mem_ok_get [OF m Some] have sl: "list_inv ?k sl" .
    have "gi_Timestamp y < gi_Timestamp x" if "y \<in> set (gl_L sl)" for y
    proof (cases "gl_L sl")
      case (Cons z zs)
      with newer Some have "gi_Timestamp z < gi_Timestamp x" by (simp add: First_mem mem_items_def)
      moreover have "gi_Timestamp y \<le> gi_Timestamp z" using sl Cons that by (auto simp: list_inv_def)
      ultimately show ?thesis by simp
    qed (use that in simp)
    with sl x have "list_inv ?k (GraphList_PushFront x sl)" by (auto simp: list_inv_def GraphList_PushFront_def)
    from Some mem_ok_set [OF m this] mem_ok_map [OF m] show ?thesis
      by (auto simp: GraphItemMap_PushFront_def GraphList_PushFront_def mem_items_def)
  qed
  then show "mem_ok (GraphItemMap_PushFront (item_key x) x missing m)"
    "mem_items (GraphItemMap_PushFront (item_key x) x missing m) k =
      (if k = item_key x then x # mem_items m k else mem_items m k)" by simp_all
qed

lemma PopAll_ok:
  assumes "mem_ok m" "GraphItemMap_PopAll key m = (items, m')"
  shows "mem_ok m'" "items = rev (mem_items m key)" "mem_items m' k = (if k = key then [] else mem_items m k)"
    "gm_Size m' = gm_Size m"
proof -
  have "mem_ok m' \<and> items = rev (mem_items m key) \<and> mem_items m' k = (if k = key then [] else mem_items m k) \<and> gm_Size m' = gm_Size m"
  proof (cases "GraphItemMap_Get m key")
    case None
    with assms show ?thesis by (auto simp: graph_ops mem_items_def)
  next
    case (Some sl)
    have "list_inv key (sl\<lparr>gl_L := []\<rparr>)" using mem_ok_get [OF assms(1) Some] by (simp add: list_inv_def)
    from mem_ok_set [OF assms(1) this] mem_ok_map [OF assms(1)] assms(2) Some show ?thesis
      by (auto simp: graph_ops GraphList_PopAll_eq mem_items_def)
  qed
  then show "mem_ok m'" "items = rev (mem_items m key)" "mem_items m' k = (if k = key then [] else mem_items m k)"
    "gm_Size m' = gm_Size m" by simp_all
qed

lemma set_flag_ok:
  assumes "mem_ok m"
  shows "mem_ok (set_flag key flag m)" "mem_items (set_flag key flag m) k = mem_items m k"
    "gm_Size (set_flag key flag m) = gm_Size m"
proof -
  have "mem_ok (set_flag key flag m) \<and> mem_items (set_flag key flag m) k = mem_items m k \<and> gm_Size (set_flag key flag m) = gm_Size m"
  proof (cases "GraphItemMap_Get m key")
    case None
    with assms show ?thesis by (simp add: set_flag_def graph_ops)
  next
    case (Some sl)
    from mem_ok_get [OF assms Some] have "list_inv key (sl\<lparr>gl_Flag := flag\<rparr>)" by (simp add: list_inv_def)
    from mem_ok_set [OF assms this] mem_ok_map [OF assms] Some show ?thesis
      by (auto simp: set_flag_def graph_ops mem_items_def)
  qed
  then show "mem_ok (set_flag key flag m)" "mem_items (set_flag key flag m) k = mem_items m k"
    "gm_Size (set_flag key flag m) = gm_Size m" by simp_all
qed

lemma graph_ok_frame [simp]:
  "graph_ok (st\<lparr>GraphRpcRecvCnt := c\<rparr>) = graph_ok st" "graph_ok (st\<lparr>flush_log := l\<rparr>) = graph_ok st"
  "graph_ok (st\<lparr>removed_files := f\<rparr>) = graph_ok st"
  "graph_ok (st\<lparr>db_log := d\<rparr>) = graph_ok st" "graph_ok (st\<lparr>flushrrd_timeout := b\<rparr>) = graph_ok st"
  "graph_ok (st\<lparr>HistoryCache := h\<rparr>) = graph_ok st"
  by (simp_all add: graph_ok_def)

lemma graph_ok_mem: "graph_ok st \<Longrightarrow> mem_ok m \<Longrightarrow> graph_ok (st\<lparr>GraphItems := m\<rparr>)"
  by (simp add: graph_ok_def)

lemma graph_ok_put:
  "graph_ok st \<Longrightarrow> graph_ok (st\<lparr>IndexedItemCache := IndexCacheBase_Put k x (IndexedItemCache st)\<rparr>)"
  "graph_ok st \<Longrightarrow> graph_ok (st\<lparr>unIndexedItemCache := IndexCacheBase_Put k x (unIndexedItemCache st)\<rparr>)"
  "graph_ok st \<Longrightarrow> graph_ok (st\<lparr>IndexedItemCache := IndexCacheBase_Remove k (IndexedItemCache st)\<rparr>)"
  "graph_ok st \<Longrightarrow> graph_ok (st\<lparr>unIndexedItemCache := IndexCacheBase_Remove k (unIndexedItemCache st)\<rparr>)"
  by (simp_all add: graph_ok_def IndexCacheBase_Put_def IndexCacheBase_Remove_def)

text \<open>File names of keys whose checksum is an MD5 exist; so receiving does not panic.\<close>

lemma RrdFileName_Md5: "\<exists>fn. RrdFileName base (Md5 s) ds step = Some fn"
  by (simp add: RrdFileName_def slice_sub_def)

lemma RrdFileName_item: "\<exists>fn. RrdFileName base (GraphItem_Checksum x) ds step = Some fn"
  unfolding GraphItem_Checksum_def Checksum_def by (rule RrdFileName_Md5)

lemma ReceiveItem_ok:
  assumes "graph_ok st"
  shows "\<exists>st'. ReceiveItem cfg exist item (Md5 s) st = Some st' \<and> graph_ok st' \<and> GraphItems st' = GraphItems st
    \<and> HistoryCache st' = HistoryCache st \<and> flush_log st' = flush_log st"
proof (cases "IndexCacheBase_Get (IndexedItemCache st) (Md5 s)")
  case None
  obtain fn where "RrdFileName (gg_Storage cfg) (Md5 s) (gi_DsType item) (gi_Step item) = Some fn"
    using RrdFileName_Md5 by blast
  with None graph_ok_put [OF assms] show ?thesis by (simp add: ReceiveItem_def Let_def)
next
  case (Some old)
  with graph_ok_put [OF assms] show ?thesis by (simp add: ReceiveItem_def Let_def)
qed

section \<open>Cache keys\<close>

lemma SplitRrdCacheKey_Form:
  assumes "underscore \<notin> set md5" "underscore \<notin> set ds" "-(2 ^ 31) \<le> step" "step < 2 ^ 31"
  shows "SplitRrdCacheKey (FormRrdCacheKey md5 ds step) = Inr (md5, ds, step)"
proof -
  have "str_split underscore (FormRrdCacheKey md5 ds step) = [md5, ds, Itoa step]"
    unfolding FormRrdCacheKey_def using assms(1,2) str_split_free [of underscore "Itoa step"]
    by (simp add: str_split_append)
  moreover have "ParseInt 10 32 (Itoa step) = Inr step"
    using assms(3,4) by (intro ParseInt_Itoa) auto
  ultimately show ?thesis by (simp add: SplitRrdCacheKey_def)
qed

lemma item_key_split:
  "good_graph_item x \<Longrightarrow> SplitRrdCacheKey (item_key x) = Inr (GraphItem_Checksum x, gi_DsType x, gi_Step x)"
  unfolding item_key_def
  by (rule SplitRrdCacheKey_Form) (use Md5_notin in \<open>auto simp: good_graph_item_def GraphItem_Checksum_def Checksum_def\<close>)

lemma key_ok_split:
  assumes "key_ok key"
  shows "\<exists>s ds step fn. SplitRrdCacheKey key = Inr (Md5 s, ds, step) \<and> RrdFileName base (Md5 s) ds step = Some fn"
proof -
  from assms obtain x where x: "good_graph_item x" "item_key x = key" by (auto simp: key_ok_def)
  from item_key_split [OF x(1)] have "SplitRrdCacheKey key = Inr (GraphItem_Checksum x, gi_DsType x, gi_Step x)"
    by (simp add: x(2))
  then show ?thesis using RrdFileName_Md5 by (auto simp: GraphItem_Checksum_def Checksum_def)
qed

section \<open>What was flushed and what is in memory\<close>

text \<open>The points of a key, oldest first: those handed to the file of the counter, then those in memory.\<close>

definition in_file :: "Graph_config \<Rightarrow> string \<Rightarrow> GraphItem \<Rightarrow> bool" where
  "in_file cfg fn x \<longleftrightarrow> RrdFileName (gg_Storage cfg) (GraphItem_Checksum x) (gi_DsType x) (gi_Step x) = Some fn"

definition history :: "Graph_config \<Rightarrow> 'm Graph_state \<Rightarrow> string \<Rightarrow> GraphItem list" where
  "history cfg st k = concat (map (\<lambda>(fn, xs). filter (\<lambda>x. item_key x = k \<and> in_file cfg fn x) xs) (flush_log st))
     @ rev (mem_items (GraphItems st) k)"

lemma history_frame [simp]:
  "history cfg (st\<lparr>GraphRpcRecvCnt := c\<rparr>) = history cfg st" "history cfg (st\<lparr>pull_log := p\<rparr>) = history cfg st"
  "history cfg (st\<lparr>removed_files := f\<rparr>) = history cfg st" "history cfg (st\<lparr>db_log := d\<rparr>) = history cfg st"
  "history cfg (st\<lparr>flushrrd_timeout := b\<rparr>) = history cfg st" "history cfg (st\<lparr>HistoryCache := h\<rparr>) = history cfg st"
  "history cfg (st\<lparr>IndexedItemCache := i\<rparr>) = history cfg st" "history cfg (st\<lparr>unIndexedItemCache := u\<rparr>) = history cfg st"
  by (simp_all add: history_def fun_eq_iff)

definition same_points :: "Graph_config \<Rightarrow> 'm Graph_state \<Rightarrow> 'm Graph_state \<Rightarrow> bool" where
  "same_points cfg st st' \<longleftrightarrow> history cfg st' = history cfg st \<and> gm_Size (GraphItems st') = gm_Size (GraphItems st)"

lemma filter_own:
  assumes "mem_ok m" "\<forall>x \<in> set (mem_items m k'). P x"
  shows "filter (\<lambda>x. item_key x = k \<and> P x) (rev (mem_items m k')) = (if k = k' then rev (mem_items m k') else [])"
  using assms(2) mem_items_ok [OF assms(1), of k'] by (auto simp: filter_id_conv filter_empty_conv)

text \<open>Handing the list of a key to its file keeps every history.\<close>

lemma CommitByKey_ok:
  assumes st: "graph_ok st" and key: "key_ok key"
  shows "\<exists>st'. CommitByKey cfg key st = Some st' \<and> graph_ok st' \<and> same_points cfg st st'
    \<and> mem_items (GraphItems st') key = [] \<and> (\<forall>k. k \<noteq> key \<longrightarrow> mem_items (GraphItems st') k = mem_items (GraphItems st) k)"
proof -
  from key_ok_split [OF key, of "gg_Storage cfg"] obtain s ds step fn where
    sp: "SplitRrdCacheKey key = Inr (Md5 s, ds, step)" "RrdFileName (gg_Storage cfg) (Md5 s) ds step = Some fn" by blast
  obtain items gi where pop: "GraphItemMap_PopAll key (GraphItems st) = (items, gi)" by fastforce
  have m: "mem_ok (GraphItems st)" using st by (simp add: graph_ok_def)
  note P = PopAll_ok [OF m pop]
  let ?st = "if length items = 0 then st\<lparr>GraphItems := gi\<rparr> else FlushFile fn items (st\<lparr>GraphItems := gi\<rparr>)"
  have "CommitByKey cfg key st = Some ?st" using sp pop by (simp add: CommitByKey_def)
  moreover have "graph_ok ?st" using graph_ok_mem [OF st P(1)] by (simp add: FlushFile_def)
  moreover have "\<forall>x \<in> set (mem_items (GraphItems st) key). in_file cfg fn x"
    using mem_items_ok [OF m, of key] sp item_key_split by (auto simp: in_file_def)
  from filter_own [OF m this] have "history cfg ?st k = history cfg st k" for k
    using P(2) P(3) [of k] by (auto simp: history_def FlushFile_def)
  then have "same_points cfg st ?st" using P(4) by (simp add: same_points_def fun_eq_iff FlushFile_def)
  moreover have "mem_items (GraphItems ?st) k = (if k = key then [] else mem_items (GraphItems st) k)" for k
    using P(3) by (simp add: FlushFile_def)
  ultimately show ?thesis by auto
qed

lemma PullByKey_ok:
  assumes "graph_ok st"
  shows "graph_ok (PullByKey consistent key st)" "same_points cfg st (PullByKey consistent key st)"
    "GraphItems (PullByKey consistent key st) = GraphItems st"
proof -
  have "key_ok key" if "GraphItemMap_First (GraphItems st) key = Some x" for x
  proof -
    from that obtain xs where "mem_items (GraphItems st) key = x # xs" by (auto simp: First_mem split: list.splits)
    moreover have "mem_ok (GraphItems st)" using assms by (simp add: graph_ok_def)
    ultimately show ?thesis using mem_items_ok [of "GraphItems st" key] by (auto simp: key_ok_def)
  qed
  then show "graph_ok (PullByKey consistent key st)"
    using assms by (auto simp: PullByKey_def graph_ok_def split: option.split sum.split)
  show "same_points cfg st (PullByKey consistent key st)" "GraphItems (PullByKey consistent key st) = GraphItems st"
    by (simp_all add: PullByKey_def same_points_def split: option.split sum.split)
qed

lemma flush_key_ok:
  assumes "graph_ok st" "key_ok key"
  shows "\<exists>st'. flush_key cfg consistent now slow force st key = Some st' \<and> graph_ok st' \<and> same_points cfg st st'
    \<and> (force \<longrightarrow> mem_items (GraphItems st') key = [])
    \<and> (\<forall>k. mem_items (GraphItems st) k = [] \<longrightarrow> mem_items (GraphItems st') k = [])"
proof -
  let ?st = "if slow key then st\<lparr>flushrrd_timeout := True\<rparr> else st"
  have st: "graph_ok ?st" "same_points cfg st ?st" "GraphItems ?st = GraphItems st" using assms(1) by (simp_all add: same_points_def)
  have pull: "graph_ok (PullByKey consistent key ?st)" "same_points cfg st (PullByKey consistent key ?st)"
    "GraphItems (PullByKey consistent key ?st) = GraphItems st"
    using PullByKey_ok(1,3) [OF st(1), of consistent key] PullByKey_ok(2) [OF st(1), of cfg consistent key] st(2,3) by (simp_all add: same_points_def)
  from CommitByKey_ok [OF assms, of cfg] obtain st' where
    c: "CommitByKey cfg key st = Some st'" "graph_ok st'" "same_points cfg st st'" "mem_items (GraphItems st') key = []"
    "\<forall>k. k \<noteq> key \<longrightarrow> mem_items (GraphItems st') k = mem_items (GraphItems st) k" by blast
  then have "\<forall>k. mem_items (GraphItems st) k = [] \<longrightarrow> mem_items (GraphItems st') k = []" by metis
  with c pull assms(1) show ?thesis by (auto simp: flush_key_def Let_def same_points_def)
qed

lemma KeysByIndex_ok:
  assumes "graph_ok st" "idx < 1800" "key \<in> set (GraphItemMap_KeysByIndex (GraphItems st) idx)"
  shows "key_ok key"
proof -
  have m: "mem_ok (GraphItems st)" using assms(1) by (simp add: graph_ok_def)
  from mem_ok_map [OF m] assms(2,3) have "graph_idx (GraphItems st) key = idx" "key \<in> fst ` set (gm_A (GraphItems st) ! idx)"
    by (auto simp: graph_map_ok_def GraphItemMap_KeysByIndex_def)
  then have "GraphItemMap_Get (GraphItems st) key \<noteq> None"
    using m_get_None_iff [of "gm_A (GraphItems st) ! idx" key] by (simp add: GraphItemMap_Get_def)
  with mem_ok_get [OF m] show ?thesis by (auto simp: list_inv_def)
qed

definition no_new :: "'m Graph_state \<Rightarrow> 'm Graph_state \<Rightarrow> bool" where
  "no_new st st' \<longleftrightarrow> (\<forall>k. mem_items (GraphItems st) k = [] \<longrightarrow> mem_items (GraphItems st') k = [])"

lemma flush_keys_ok:
  assumes "graph_ok st" "\<forall>key \<in> set keys. key_ok key"
  shows "\<exists>st'. foldM (flush_key cfg consistent now slow force) st keys = Some st' \<and> graph_ok st' \<and> same_points cfg st st'
    \<and> no_new st st' \<and> (force \<longrightarrow> (\<forall>key \<in> set keys. mem_items (GraphItems st') key = []))"
  using assms
proof (induction keys arbitrary: st)
  case Nil
  then show ?case by (simp add: same_points_def no_new_def)
next
  case (Cons key keys)
  then have "key_ok key" by simp
  from flush_key_ok [OF Cons.prems(1) this, of cfg consistent now slow force] obtain st1 where
    1: "flush_key cfg consistent now slow force st key = Some st1" "graph_ok st1" "same_points cfg st st1"
    "force \<longrightarrow> mem_items (GraphItems st1) key = []"
    "\<forall>k. mem_items (GraphItems st) k = [] \<longrightarrow> mem_items (GraphItems st1) k = []" by blast
  from Cons.IH [OF 1(2)] Cons.prems(2) obtain st2 where
    2: "foldM (flush_key cfg consistent now slow force) st1 keys = Some st2" "graph_ok st2" "same_points cfg st1 st2"
    "no_new st1 st2" "force \<longrightarrow> (\<forall>key \<in> set keys. mem_items (GraphItems st2) key = [])" by auto
  from 1 2 show ?case by (auto simp: same_points_def no_new_def)
qed

lemma FlushRRD_ok:
  assumes "graph_ok st" "idx < 1800"
  shows "\<exists>st'. FlushRRD cfg consistent now slow idx force st = Some st' \<and> graph_ok st' \<and> same_points cfg st st' \<and> no_new st st'
    \<and> (force \<longrightarrow> (\<forall>k. graph_idx (GraphItems st) k = idx \<longrightarrow> mem_items (GraphItems st') k = []))"
proof -
  let ?st = "st\<lparr>flushrrd_timeout := False\<rparr>" and ?keys = "GraphItemMap_KeysByIndex (GraphItems st) idx"
  have st: "graph_ok ?st" using assms(1) by simp
  have keys: "\<forall>key \<in> set ?keys. key_ok key" using KeysByIndex_ok [OF assms] by blast
  from flush_keys_ok [OF st keys, of cfg consistent now slow force] obtain st' where
    s: "foldM (flush_key cfg consistent now slow force) ?st ?keys = Some st'" "graph_ok st'" "same_points cfg ?st st'"
    "no_new ?st st'" "force \<longrightarrow> (\<forall>key \<in> set ?keys. mem_items (GraphItems st') key = [])" by blast
  have "mem_items (GraphItems st') k = []" if force "graph_idx (GraphItems st) k = idx" for k
  proof (cases "k \<in> set ?keys")
    case False
    then have "mem_items (GraphItems st) k = []"
      using m_get_None_iff [of "gm_A (GraphItems st) ! idx" k] that(2)
      by (simp add: mem_items_def GraphItemMap_Get_def GraphItemMap_KeysByIndex_def)
    with s(4) show ?thesis by (simp add: no_new_def)
  qed (use s(5) that in blast)
  moreover have "FlushRRD cfg consistent now slow idx force st = Some st'"
    using s(1) by (cases ?keys) (auto simp: FlushRRD_def Let_def)
  ultimately show ?thesis using s by (auto simp: same_points_def no_new_def)
qed

lemma FlushAll_force:
  assumes "graph_ok st"
  shows "\<exists>st'. FlushAll cfg consistent now slow True st = Some st' \<and> graph_ok st' \<and> same_points cfg st st'
    \<and> (\<forall>k. mem_items (GraphItems st') k = [])"
proof -
  let ?f = "\<lambda>(n::int) st i. do { st1 \<leftarrow> FlushRRD cfg consistent now slow i True st; if n = 0 then None else Some st1 }"
  have loop: "\<exists>st'. foldM (?f 180) st is = Some st' \<and> graph_ok st' \<and> same_points cfg st st' \<and> no_new st st'
      \<and> (\<forall>k. graph_idx (GraphItems st) k \<in> set is \<longrightarrow> mem_items (GraphItems st') k = [])"
    if "graph_ok st" "set is \<subseteq> {..<1800}" for st :: "'a Graph_state" and "is"
    using that
  proof (induction "is" arbitrary: st)
    case Nil
    then show ?case by (simp add: same_points_def no_new_def)
  next
    case (Cons i js)
    then have "i < 1800" by simp
    from FlushRRD_ok [OF Cons.prems(1) this, of cfg consistent now slow True] obtain st1 where
      1: "FlushRRD cfg consistent now slow i True st = Some st1" "graph_ok st1" "same_points cfg st st1" "no_new st st1"
      "\<forall>k. graph_idx (GraphItems st) k = i \<longrightarrow> mem_items (GraphItems st1) k = []" by auto
    have idx: "graph_idx (GraphItems st1) k = graph_idx (GraphItems st) k" for k
      using 1(3) by (intro graph_idx_cong) (simp add: same_points_def)
    from Cons.IH [OF 1(2)] Cons.prems(2) obtain st2 where
      2: "foldM (?f 180) st1 js = Some st2" "graph_ok st2" "same_points cfg st1 st2" "no_new st1 st2"
      "\<forall>k. graph_idx (GraphItems st1) k \<in> set js \<longrightarrow> mem_items (GraphItems st2) k = []" by auto
    from 1 2 show ?case by (auto simp: same_points_def no_new_def idx)
  qed
  have m: "graph_map_ok (GraphItems st)" using assms mem_ok_map by (simp add: graph_ok_def)
  then have sz: "gm_Size (GraphItems st) = 1800" by (simp add: graph_map_ok_def)
  have "set [0..<1800] \<subseteq> {..<1800::nat}" by auto
  from loop [OF assms this] graph_idx_less [OF sz] show ?thesis
    unfolding FlushAll_def sz by (auto simp: Let_def)
qed

section \<open>Receiving, deleting, migrating, cleaning\<close>

text \<open>What receiving a point means for the points in memory, by counter and newest first.\<close>

definition admitted :: "(nat \<Rightarrow> bool) \<Rightarrow> (string \<Rightarrow> GraphItem list) \<Rightarrow> GraphItem \<Rightarrow> bool" where
  "admitted tables mem x \<longleftrightarrow> IsValidString tables (gi_Endpoint x) \<and> IsValidString tables (Counter (gi_Metric x) (gi_Tags x))
     \<and> (case mem (item_key x) of [] \<Rightarrow> True | y # _ \<Rightarrow> gi_Timestamp y < gi_Timestamp x)"

definition graph_push ::
  "(nat \<Rightarrow> bool) \<Rightarrow> (string \<Rightarrow> GraphItem list) \<Rightarrow> GraphItem option \<Rightarrow> string \<Rightarrow> GraphItem list" where
  "graph_push tables mem o_item =
     (case o_item of
        None \<Rightarrow> mem
      | Some x \<Rightarrow> if admitted tables mem x then mem(item_key x := x # mem (item_key x)) else mem)"

lemma handle_graph_item_ok:
  assumes "graph_ok st" "\<forall>x. o_item = Some x \<longrightarrow> good_graph_item x"
  shows "\<exists>st'. handle_graph_item h cfg tables exist st o_item = Some st' \<and> graph_ok st' \<and> flush_log st' = flush_log st
    \<and> mem_items (GraphItems st') = graph_push tables (mem_items (GraphItems st)) o_item"
proof (cases o_item)
  case None
  with assms(1) show ?thesis by (intro exI [of _ st]) (simp add: handle_graph_item_def graph_push_def)
next
  case (Some x)
  let ?key = "item_key x" and ?st1 = "st\<lparr>GraphRpcRecvCnt := GraphRpcRecvCnt st + 1\<rparr>"
  let ?stale = "case GraphItemMap_First (GraphItems st) ?key of None \<Rightarrow> False | Some first \<Rightarrow> gi_Timestamp x \<le> gi_Timestamp first"
  have x: "good_graph_item x" using assms(2) Some by simp
  have adm: "admitted tables (mem_items (GraphItems st)) x \<longleftrightarrow>
      IsValidString tables (gi_Endpoint x) \<and> IsValidString tables (Counter (gi_Metric x) (gi_Tags x)) \<and> \<not> ?stale"
    by (auto simp: admitted_def First_mem split: list.split)
  show ?thesis
  proof (cases "IsValidString tables (gi_Endpoint x) \<and> IsValidString tables (Counter (gi_Metric x) (gi_Tags x)) \<and> \<not> ?stale")
    case False
    then have "handle_graph_item h cfg tables exist st o_item \<in> {Some st, Some ?st1}"
      using Some by (auto simp: handle_graph_item_def Let_def item_key_def split: option.splits)
    then obtain st' where "handle_graph_item h cfg tables exist st o_item = Some st'" "st' \<in> {st, ?st1}" by blast
    moreover have "graph_push tables (mem_items (GraphItems st)) o_item = mem_items (GraphItems st)"
      using adm False Some by (simp add: graph_push_def)
    ultimately show ?thesis using assms(1) by (intro exI [of _ st']) auto
  next
    case True
    obtain fn where fn: "RrdFileName (gg_Storage cfg) (GraphItem_Checksum x) (gi_DsType x) (gi_Step x) = Some fn"
      using RrdFileName_item by blast
    let ?m = "GraphItemMap_PushFront ?key x (gg_MigrateEnabled cfg \<and> \<not> exist fn) (GraphItems st)"
    have m: "mem_ok (GraphItems st)" using assms(1) by (simp add: graph_ok_def)
    have newer: "\<forall>y. GraphItemMap_First (GraphItems st) ?key = Some y \<longrightarrow> gi_Timestamp y < gi_Timestamp x"
      using True by auto
    note push = PushFront_ok [OF m x newer]
    have "graph_ok (?st1\<lparr>GraphItems := ?m\<rparr>)" using graph_ok_mem [of ?st1 ?m] assms(1) push(1) by simp
    from ReceiveItem_ok [OF this, of cfg exist x "PK (gi_Endpoint x) (gi_Metric x) (gi_Tags x)"] obtain st2 where
      r: "ReceiveItem cfg exist x (GraphItem_Checksum x) (?st1\<lparr>GraphItems := ?m\<rparr>) = Some st2" "graph_ok st2"
      "GraphItems st2 = ?m" "flush_log st2 = flush_log st"
      by (auto simp: GraphItem_Checksum_def Checksum_def)
    let ?st' = "st2\<lparr>HistoryCache := AddItem h (GraphItem_Checksum x) x (HistoryCache st2)\<rparr>"
    have "handle_graph_item h cfg tables exist st o_item = Some ?st'"
      using True Some fn r(1) by (simp add: handle_graph_item_def Let_def item_key_def)
    moreover have "mem_items ?m = graph_push tables (mem_items (GraphItems st)) o_item"
      using push(2) adm True Some by (intro ext) (simp add: graph_push_def)
    ultimately show ?thesis using r(2-4) by (intro exI [of _ ?st']) simp
  qed
qed

lemma RemoveItem_ok:
  assumes "graph_ok st"
  shows "\<exists>st'. RemoveItem cfg item st = Some st' \<and> graph_ok st'"
proof -
  let ?md5 = "GraphItem_Checksum item"
  obtain fn where fn: "RrdFileName (gg_Storage cfg) ?md5 (gi_DsType item) (gi_Step item) = Some fn"
    using RrdFileName_item by blast
  let ?st1 = "st\<lparr>IndexedItemCache := IndexCacheBase_Remove ?md5 (IndexedItemCache st),
    unIndexedItemCache := IndexCacheBase_Remove ?md5 (unIndexedItemCache st)\<rparr>"
  have st1: "graph_ok ?st1" using graph_ok_put(4) [OF graph_ok_put(3) [OF assms, of ?md5], of ?md5] by simp
  obtain items gi where pop: "GraphItemMap_PopAll (FormRrdCacheKey ?md5 (gi_DsType item) (gi_Step item)) (GraphItems ?st1) = (items, gi)"
    by fastforce
  have "mem_ok gi" using PopAll_ok(1) [OF _ pop] st1 by (simp add: graph_ok_def)
  from graph_ok_mem [OF st1 this] fn pop show ?thesis by (simp add: RemoveItem_def Let_def)
qed

lemma Graph_Delete_ok:
  assumes "graph_ok st"
  shows "\<exists>st'. Graph_Delete cfg params st = Some st' \<and> graph_ok st'"
  unfolding Graph_Delete_def
proof (rule foldM_invariant [where I = graph_ok, OF _ assms])
  fix st :: "'a Graph_state" and param
  assume "graph_ok st"
  then show "\<exists>st'. (case SplitTagsString (dp_Tags param) of (Some err, _) \<Rightarrow> Some st
     | (None, tags) \<Rightarrow> RemoveItem cfg (zero_GraphItem\<lparr>gi_Endpoint := dp_Endpoint param, gi_Metric := dp_Metric param,
         gi_Tags := tags, gi_DsType := dp_DsType param, gi_Step := dp_Step param\<rparr>) st) = Some st' \<and> graph_ok st'"
    using RemoveItem_ok by (auto split: prod.split option.split)
qed

lemma PushAll_PopAll:
  assumes m: "mem_ok m" and pop: "GraphItemMap_PopAll key m = (items, m1)" and k: "GraphItemMap_Get m key = Some sl"
  shows "\<exists>m2. GraphItemMap_PushAll key items m1 = Inr m2 \<and> mem_ok m2 \<and> (\<forall>k. mem_items m2 k = mem_items m k)
    \<and> gm_Size m2 = gm_Size m"
proof -
  note P = PopAll_ok [OF m pop]
  have m1: "GraphItemMap_Get m1 key = Some (sl\<lparr>gl_L := []\<rparr>)" "items = rev (gl_L sl)"
    using pop k mem_ok_map [OF m] by (auto simp: graph_ops GraphList_PopAll_eq)
  have sl: "GraphList_PushAll items (sl\<lparr>gl_L := []\<rparr>) = sl" using m1(2) by (simp add: GraphList_PushAll_eq)
  have "GraphItemMap_PushAll key items m1 = Inr (GraphItemMap_Set key sl m1)"
    using m1(1) sl by (simp add: graph_ops)
  moreover have "mem_ok (GraphItemMap_Set key sl m1)" by (rule mem_ok_set [OF P(1) mem_ok_get [OF m k]])
  moreover have "mem_items (GraphItemMap_Set key sl m1) k' = mem_items m k'" for k'
    using P(3) [of k'] k mem_ok_map [OF P(1)] by (simp add: mem_items_def)
  ultimately show ?thesis using P(4) by auto
qed

text \<open>Sending a counter to another node: either every point went out, or all are still in memory.\<close>

lemma send_data_ok:
  assumes st: "graph_ok st" and r: "send_data key outcome st = ((err, sent), st')"
  shows "graph_ok st'"
    "(err = None \<and> sent = rev (mem_items (GraphItems st) key) \<and> mem_items (GraphItems st') key = [])
      \<or> (err \<noteq> None \<and> sent = [] \<and> mem_items (GraphItems st') key = mem_items (GraphItems st) key)"
    "\<forall>k. k \<noteq> key \<longrightarrow> mem_items (GraphItems st') k = mem_items (GraphItems st) k"
proof -
  have m: "mem_ok (GraphItems st)" using st by (simp add: graph_ok_def)
  have "graph_ok st' \<and> ((err = None \<and> sent = rev (mem_items (GraphItems st) key) \<and> mem_items (GraphItems st') key = [])
      \<or> (err \<noteq> None \<and> sent = [] \<and> mem_items (GraphItems st') key = mem_items (GraphItems st) key))
    \<and> (\<forall>k. k \<noteq> key \<longrightarrow> mem_items (GraphItems st') k = mem_items (GraphItems st) k)"
  proof (cases "GraphItemMap_Get (GraphItems st) key")
    case None
    with st r show ?thesis by (auto simp: send_data_def graph_ops)
  next
    case (Some sl)
    let ?flag = "gl_Flag sl"
    let ?g1 = "set_flag key (?flag OR GRAPH_F_SENDING) (GraphItems st)" and ?out = "set_flag key (?flag AND NOT GRAPH_F_SENDING)"
    note g1 = set_flag_ok [OF m, of key "?flag OR GRAPH_F_SENDING"]
    obtain items g2 where pop: "GraphItemMap_PopAll key ?g1 = (items, g2)" by fastforce
    note P = PopAll_ok [OF g1(1) pop]
    have sl1: "GraphItemMap_Get ?g1 key = Some (sl\<lparr>gl_Flag := ?flag OR GRAPH_F_SENDING\<rparr>)"
      using Some mem_ok_map [OF m] by (simp add: set_flag_def graph_ops)
    from PushAll_PopAll [OF g1(1) pop sl1] obtain g3 where
      g3: "GraphItemMap_PushAll key items g2 = Inr g3" "mem_ok g3" "\<forall>k. mem_items g3 k = mem_items ?g1 k" by blast
    have ok: "graph_ok (st\<lparr>GraphItems := ?out g2\<rparr>)" "graph_ok (st\<lparr>GraphItems := ?out g3\<rparr>)"
      using graph_ok_mem [OF st] set_flag_ok(1) [OF P(1)] set_flag_ok(1) [OF g3(2)] by auto
    have flag: "GraphItemMap_GetFlag (GraphItems st) key = Inr ?flag" using Some by (simp add: graph_ops)
    have res: "((err, sent), st') = (if items = [] then ((None, []), st\<lparr>GraphItems := ?out g2\<rparr>)
        else if first_ok 3 0 outcome then ((None, items), st\<lparr>GraphItems := ?out g2\<rparr>)
        else ((Some ''rpc fail'', []), st\<lparr>GraphItems := ?out g3\<rparr>))"
      unfolding r [symmetric] by (simp add: send_data_def flag Let_def pop g3(1) del: first_ok.simps)
    have out: "mem_items (?out g2) k = (if k = key then [] else mem_items (GraphItems st) k)"
      "mem_items (?out g3) k = mem_items (GraphItems st) k" for k
      using set_flag_ok(2) [OF P(1)] set_flag_ok(2) [OF g3(2)] P(3) g3(3) g1(2) by auto
    have items: "items = rev (mem_items (GraphItems st) key)" using P(2) g1(2) by simp
    from res ok out show ?thesis unfolding items by (auto simp del: first_ok.simps split: if_splits)
  qed
  then show "graph_ok st'"
    "(err = None \<and> sent = rev (mem_items (GraphItems st) key) \<and> mem_items (GraphItems st') key = [])
      \<or> (err \<noteq> None \<and> sent = [] \<and> mem_items (GraphItems st') key = mem_items (GraphItems st) key)"
    "\<forall>k. k \<noteq> key \<longrightarrow> mem_items (GraphItems st') k = mem_items (GraphItems st) k" by blast+
qed

lemma fetch_rrd_ok:
  assumes st: "graph_ok st" and key: "key_ok key"
  shows "\<exists>err st'. fetch_rrd cfg key written st = Some (err, st') \<and> graph_ok st' \<and> same_points cfg st st'"
proof (cases "GraphItemMap_GetFlag (GraphItems st) key")
  case (Inl e)
  with st show ?thesis by (simp add: fetch_rrd_def same_points_def)
next
  case (Inr flag)
  have m: "mem_ok (GraphItems st)" using st by (simp add: graph_ok_def)
  from key_ok_split [OF key, of "gg_Storage cfg"] obtain s ds step fn where
    sp: "SplitRrdCacheKey key = Inr (Md5 s, ds, step)" "RrdFileName (gg_Storage cfg) (Md5 s) ds step = Some fn" by blast
  have *: "graph_ok (st\<lparr>GraphItems := set_flag key f (set_flag key f' (GraphItems st))\<rparr>)"
    "same_points cfg st (st\<lparr>GraphItems := set_flag key f (set_flag key f' (GraphItems st))\<rparr>)" for f f'
    using set_flag_ok [OF set_flag_ok(1) [OF m]] set_flag_ok(2,3) [OF m] graph_ok_mem [OF st]
    by (auto simp: same_points_def history_def fun_eq_iff)
  from Inr sp * show ?thesis
    by (simp add: fetch_rrd_def Let_def del: fetch_loop.simps split: option.split)
qed

lemma net_task_pull_ok:
  assumes st: "graph_ok st" and key: "key_ok key"
  shows "\<exists>st'. net_task_pull cfg key outcome written missing st = Some st' \<and> graph_ok st'"
proof (cases "flushrrd_timeout st")
  case True
  obtain err sent st' where "send_data key outcome st = ((err, sent), st')" by (metis surj_pair)
  with send_data_ok(1) [OF st this] True show ?thesis by (simp add: net_task_pull_def)
next
  case False
  from fetch_rrd_ok [OF assms, of cfg written] obtain err st1 where
    1: "fetch_rrd cfg key written st = Some (err, st1)" "graph_ok st1" by blast
  have "graph_ok (st1\<lparr>GraphItems := set_flag key 0 (GraphItems st1)\<rparr>)"
    using graph_ok_mem [OF 1(2)] set_flag_ok(1) 1(2) by (simp add: graph_ok_def)
  from CommitByKey_ok [OF this key, of cfg] 1 False show ?thesis by (auto simp: net_task_pull_def)
qed

lemma DeleteInvalidItems_mem:
  assumes "mem_ok gm0"
  shows "mem_ok (snd (foldl (\<lambda>acc idx. foldl (clean_key ic) acc (GraphItemMap_KeysByIndex (snd acc) idx)) (n, gm0) idxs))"
proof -
  have inner: "mem_ok (snd (foldl (clean_key ic) acc keys))" if "mem_ok (snd acc)" for acc keys
    using that by (induction keys arbitrary: acc) (auto simp: clean_key_def Let_def case_prod_beta mem_ok_remove)
  have "mem_ok (snd (foldl (\<lambda>acc idx. foldl (clean_key ic) acc (GraphItemMap_KeysByIndex (snd acc) idx)) acc idxs))"
    if "mem_ok (snd acc)" for acc
    using that by (induction idxs arbitrary: acc) (auto simp: inner)
  with assms show ?thesis by simp
qed

lemma DeleteInvalidItems_ok: "graph_ok st \<Longrightarrow> graph_ok (snd (DeleteInvalidItems st))"
  using DeleteInvalidItems_mem [of "GraphItems st" "IndexedItemCache st" 0 "[0..<nat (gm_Size (GraphItems st))]"]
  by (auto simp: DeleteInvalidItems_def Let_def case_prod_beta graph_ok_mem) (simp add: graph_ok_def)

lemma DeleteInvalidHistory_ok: "graph_ok st \<Longrightarrow> graph_ok (snd (DeleteInvalidHistory h st))"
  by (simp add: DeleteInvalidHistory_def Let_def case_prod_beta)

lemma updateIndexIncr_ok:
  assumes "graph_ok st"
  shows "graph_ok (snd (updateIndexIncr dbOk exec eid st))"
proof -
  have step: "graph_ok (snd (index_incr_key exec eid acc key))" if "graph_ok (snd acc)" for acc key
    using that by (auto simp: index_incr_key_def Let_def case_prod_beta graph_ok_def IndexCacheBase_Put_def
        IndexCacheBase_Remove_def split: option.split)
  have "graph_ok (snd (foldl (index_incr_key exec eid) acc keys))" if "graph_ok (snd acc)" for acc keys
    using that by (induction keys arbitrary: acc) (auto simp: step)
  from this [of "(0, st)"] assms show ?thesis by (simp add: updateIndexIncr_def)
qed

lemma updateIndexAll_ok:
  assumes "graph_ok st"
  shows "graph_ok (snd (updateIndexAll dbOk exec eid now n st))"
proof -
  have step: "graph_ok (snd (index_all_key exec eid ts acc key))" if "graph_ok (snd acc)" for acc ts key
    using that by (auto simp: index_all_key_def Let_def case_prod_beta graph_ok_def IndexCacheBase_Remove_def
        split: option.split)
  have "graph_ok (snd (foldl (index_all_key exec eid (now - n)) acc keys))" if "graph_ok (snd acc)" for acc keys
    using that by (induction keys arbitrary: acc) (auto simp: step)
  from this [of "(0, st)"] assms show ?thesis by (simp add: updateIndexAll_def)
qed

lemma GetRrd_ok:
  assumes "graph_ok st" "Graph_GetRrd cfg readFile key st = Some (r, st')"
  shows "graph_ok st'"
proof (cases "SplitRrdCacheKey key")
  case (Inr p)
  obtain md5 ds step where p: "p = (md5, ds, step)" by (cases p)
  obtain items gi where pop: "GraphItemMap_PopAll key (GraphItems st) = (items, gi)" by fastforce
  have m: "mem_ok (GraphItems st)" using assms(1) by (simp add: graph_ok_def)
  from graph_ok_mem [OF assms(1) PopAll_ok(1) [OF m pop]] assms(2) Inr p pop show ?thesis
    by (auto simp: Graph_GetRrd_def FlushFile_def Let_def bind_eq_Some_conv split: if_splits)
qed (use assms in \<open>simp add: Graph_GetRrd_def\<close>)

end
