(* ===== verification/GraphProps.thy ===== *)
theory GraphProps
  imports GraphInv
begin

text \<open>
  The graph module at work: the step relation of its handlers and tasks, the invariant of every reachable
  state, what is flushed, what a query returns, and the round trips of cache keys and migration.
\<close>

section \<open>Reachable states\<close>

definition Graph_init :: "'m \<Rightarrow> 'm Graph_state" where
  "Graph_init hc = \<lparr> GraphItems = NewGraphItems, IndexedItemCache = NewIndexCacheBase 5000000,
     unIndexedItemCache = NewIndexCacheBase 5000000, HistoryCache = hc, flush_log = [], pull_log = [],
     removed_files = [], db_log = [], flushrrd_timeout = False, GraphRpcRecvCnt = 0 \<rparr>"

inductive graph_step ::
  "('m, 'l) hist_ops \<Rightarrow> Graph_config \<Rightarrow> (nat \<Rightarrow> bool) \<Rightarrow> 'm Graph_state \<Rightarrow> 'm Graph_state \<Rightarrow> bool"
  for h cfg tables where
  receive: "\<forall>x. Some x \<in> set items \<longrightarrow> good_graph_item x \<Longrightarrow> handleItems h cfg tables exist items st = Some st'
    \<Longrightarrow> graph_step h cfg tables st st'"
| delete: "Graph_Delete cfg params st = Some st' \<Longrightarrow> graph_step h cfg tables st st'"
| flush: "idx < 1800 \<Longrightarrow> FlushRRD cfg consistent now slow idx force st = Some st' \<Longrightarrow> graph_step h cfg tables st st'"
| pull: "(node, key) \<in> set (pull_log st) \<Longrightarrow> net_task_pull cfg key outcome written missing st = Some st'
    \<Longrightarrow> graph_step h cfg tables st st'"
| get_rrd: "Graph_GetRrd cfg (readFile :: string \<Rightarrow> goerror + string) key st = Some (r, st') \<Longrightarrow> graph_step h cfg tables st st'"
| clean_items: "graph_step h cfg tables st (snd (DeleteInvalidItems st))"
| clean_history: "graph_step h cfg tables st (snd (DeleteInvalidHistory h st))"
| index_incr: "graph_step h cfg tables st (snd (updateIndexIncr dbOk exec eid st))"
| index_all: "graph_step h cfg tables st (snd (updateIndexAll dbOk exec eid now n st))"

lemma Graph_init_ok: "graph_ok (Graph_init hc)"
proof -
  have "GraphItemMap_Get NewGraphItems k = None" for k
    using graph_idx_less [of NewGraphItems k] by (simp add: GraphItemMap_Get_def NewGraphItems_def Let_def)
  then show ?thesis
    using NewGraphItems_ok by (simp add: graph_ok_def mem_ok_def gim.holds_def Graph_init_def NewIndexCacheBase_def)
qed

lemma handleItems_ok:
  assumes "graph_ok st" "\<forall>x. Some x \<in> set items \<longrightarrow> good_graph_item x"
  shows "\<exists>st'. handleItems h cfg tables exist items st = Some st' \<and> graph_ok st' \<and> flush_log st' = flush_log st
    \<and> mem_items (GraphItems st') = foldl (graph_push tables) (mem_items (GraphItems st)) items"
  using assms unfolding handleItems_def
proof (induction items arbitrary: st)
  case (Cons o_item items)
  then have "\<forall>x. o_item = Some x \<longrightarrow> good_graph_item x" by auto
  from handle_graph_item_ok [OF Cons.prems(1) this, of h cfg tables exist] obtain st1 where
    1: "handle_graph_item h cfg tables exist st o_item = Some st1" "graph_ok st1" "flush_log st1 = flush_log st"
    "mem_items (GraphItems st1) = graph_push tables (mem_items (GraphItems st)) o_item" by blast
  from Cons.IH [OF 1(2)] Cons.prems(2) 1 show ?case by simp
qed simp

lemma graph_step_ok:
  assumes "graph_step h cfg tables st st'" "graph_ok st"
  shows "graph_ok st'"
  using assms(1)
proof cases
  case (receive items exist)
  with handleItems_ok [OF assms(2) receive(1), of h cfg tables exist] show ?thesis by auto
next
  case (delete params)
  with Graph_Delete_ok [OF assms(2), of cfg params] show ?thesis by auto
next
  case (flush idx consistent now slow force)
  with FlushRRD_ok [OF assms(2) flush(1), of cfg consistent now slow force] show ?thesis by auto
next
  case (pull node key outcome written missing)
  then have "key_ok key" using assms(2) by (auto simp: graph_ok_def)
  with net_task_pull_ok [OF assms(2) this, of cfg outcome written missing] pull show ?thesis by auto
next
  case (get_rrd readFile key r)
  show ?thesis by (rule GetRrd_ok [OF assms(2) get_rrd])
qed (use assms(2) DeleteInvalidItems_ok DeleteInvalidHistory_ok updateIndexIncr_ok updateIndexAll_ok in auto)

lemma graph_reach_ok: "(graph_step h cfg tables)\<^sup>*\<^sup>* (Graph_init hc) st \<Longrightarrow> graph_ok st"
  by (induction rule: rtranclp_induct) (auto intro: Graph_init_ok graph_step_ok)

text \<open>An item, an empty history and the state after one point, on which the properties are exercised.\<close>

definition demo_gitem :: "int \<Rightarrow> GraphItem" where
  "demo_gitem ts = \<lparr> gi_Endpoint = ''h'', gi_Metric = ''cpu'', gi_Tags = [], gi_Value = Num 7, gi_Timestamp = ts,
     gi_DsType = ''GAUGE'', gi_Step = 60, gi_Heartbeat = 120, gi_Min = ''U'', gi_Max = ''U'' \<rparr>"

definition demo_hist :: "((string, GraphItem list) gomap, GraphItem list) hist_ops" where
  "demo_hist = \<lparr> hm_Get = m_get, hm_Put = m_set, hm_Keys = map fst, hm_Remove = m_del, hl_New = (\<lambda>_. []),
     hl_Front = (\<lambda>l. case l of [] \<Rightarrow> None | x # _ \<Rightarrow> Some x), hl_FrontAll = map Some,
     hl_PushFrontViolently = (\<lambda>x l. take 3 (x # l)) \<rparr>"

definition demo_gcfg :: Graph_config where
  "demo_gcfg = \<lparr> gg_Storage = ''/data'', gg_MigrateEnabled = False, gg_IOWorkerNum = 2, gg_FirstBytesSize = 1 \<rparr>"

lemma demo_item_good: "good_graph_item (demo_gitem ts)"
  by (simp add: good_graph_item_def demo_gitem_def)

definition demo_key :: string where
  "demo_key = item_key (demo_gitem 0)"

lemma demo_item_key [simp]: "item_key (demo_gitem ts) = demo_key"
  by (simp add: demo_key_def item_key_def demo_gitem_def GraphItem_Checksum_def)

lemma demo_gitem_simps [simp]:
  "gi_Timestamp (demo_gitem ts) = ts" "gi_Value (demo_gitem ts) = Num 7" "gi_Endpoint (demo_gitem ts) = ''h''"
  "gi_Metric (demo_gitem ts) = ''cpu''" "gi_Tags (demo_gitem ts) = []"
  by (simp_all add: demo_gitem_def)

lemma demo_valid [simp]: "IsValidString tables ''h''" "IsValidString tables (Counter ''cpu'' [])"
  by (simp_all add: IsValidString_def Counter_def IsPrint_def decode_rune_def Let_def runes_of.simps byte_at_def)

lemma mem_items_init: "mem_items (GraphItems (Graph_init hc)) = (\<lambda>_. [])"
proof
  fix k
  have "GraphItemMap_Get NewGraphItems k = None"
    using graph_idx_less [of NewGraphItems k] by (simp add: GraphItemMap_Get_def NewGraphItems_def Let_def)
  then show "mem_items (GraphItems (Graph_init hc)) k = []" by (simp add: mem_items_def Graph_init_def)
qed

text \<open>Three points are received, the last one a repetition.\<close>

lemma demo_run:
  "\<exists>st. (graph_step demo_hist demo_gcfg (\<lambda>_. False))\<^sup>*\<^sup>* (Graph_init []) st
    \<and> mem_items (GraphItems st) = (\<lambda>_. [])(demo_key := [demo_gitem 120, demo_gitem 60]) \<and> flush_log st = []"
proof -
  let ?items = "[Some (demo_gitem 60), None, Some (demo_gitem 120), Some (demo_gitem 120)]"
  let ?s = "Graph_init [] :: (string, GraphItem list) gomap Graph_state"
  have good: "\<forall>x. Some x \<in> set ?items \<longrightarrow> good_graph_item x" by (auto simp: demo_item_good)
  have "\<exists>st. handleItems demo_hist demo_gcfg (\<lambda>_. False) (\<lambda>_. True) ?items ?s = Some st \<and> graph_ok st
      \<and> flush_log st = flush_log ?s
      \<and> mem_items (GraphItems st) = foldl (graph_push (\<lambda>_. False)) (mem_items (GraphItems ?s)) ?items"
    by (rule handleItems_ok [OF Graph_init_ok good])
  then obtain st where
    st: "handleItems demo_hist demo_gcfg (\<lambda>_. False) (\<lambda>_. True) ?items ?s = Some st"
    "flush_log st = flush_log ?s"
    "mem_items (GraphItems st) = foldl (graph_push (\<lambda>_. False)) (mem_items (GraphItems ?s)) ?items" by (elim exE conjE)
  from graph_step.receive [OF good st(1)] have "(graph_step demo_hist demo_gcfg (\<lambda>_. False))\<^sup>*\<^sup>* ?s st" by blast
  moreover have "mem_items (GraphItems st) = (\<lambda>_. [])(demo_key := [demo_gitem 120, demo_gitem 60])"
    unfolding st(3) mem_items_init by (simp add: graph_push_def admitted_def)
  ultimately show ?thesis using st(2) by (auto simp: Graph_init_def)
qed

section \<open>Properties\<close>

text \<open>C22: In every state the graph module reaches, the map of points has its fixed number of shards, every counter's list
  is in the shard of its key, holds only points of that key, and is strictly newest first.\<close>

theorem graph_memory_ordered:
  assumes "(graph_step h cfg tables)\<^sup>*\<^sup>* (Graph_init hc) st" "GraphItemMap_Get (GraphItems st) key = Some sl"
  shows "graph_map_ok (GraphItems st) \<and> sorted_wrt (\<lambda>x y. gi_Timestamp y < gi_Timestamp x) (gl_L sl)
    \<and> (\<forall>x \<in> set (gl_L sl). FormRrdCacheKey (GraphItem_Checksum x) (gi_DsType x) (gi_Step x) = key)"
proof -
  have m: "mem_ok (GraphItems st)" using graph_reach_ok [OF assms(1)] by (simp add: graph_ok_def)
  from mem_ok_map [OF m] mem_ok_get [OF m assms(2)] show ?thesis by (auto simp: list_inv_def item_key_def)
qed

theorem graph_memory_ordered_witness:
  "\<exists>st sl. (graph_step demo_hist demo_gcfg (\<lambda>_. False))\<^sup>*\<^sup>* (Graph_init []) st
    \<and> GraphItemMap_Get (GraphItems st) demo_key = Some sl \<and> gl_L sl = [demo_gitem 120, demo_gitem 60]
    \<and> sorted_wrt (\<lambda>x y. gi_Timestamp y < gi_Timestamp x) (gl_L sl)"
proof -
  from demo_run obtain st where st: "(graph_step demo_hist demo_gcfg (\<lambda>_. False))\<^sup>*\<^sup>* (Graph_init []) st"
    "mem_items (GraphItems st) = (\<lambda>_. [])(demo_key := [demo_gitem 120, demo_gitem 60])" by blast
  from fun_cong [OF st(2), of demo_key] obtain sl where
    sl: "GraphItemMap_Get (GraphItems st) demo_key = Some sl" "gl_L sl = [demo_gitem 120, demo_gitem 60]"
    by (auto simp: mem_items_def split: option.splits)
  from st(1) sl graph_memory_ordered [OF st(1) sl(1)] show ?thesis by blast
qed



text \<open>C24: Receiving points never panics in a reachable state, flushes nothing, and adds to the memory of each counter, in the
  order they came, exactly the points with a valid endpoint and counter that are newer than the newest
  point in memory.\<close>

theorem receive_refines:
  assumes "(graph_step h cfg tables)\<^sup>*\<^sup>* (Graph_init hc) st" "\<forall>x. Some x \<in> set items \<longrightarrow> good_graph_item x"
  shows "\<exists>st'. handleItems h cfg tables exist items st = Some st' \<and> flush_log st' = flush_log st
    \<and> mem_items (GraphItems st') = foldl (graph_push tables) (mem_items (GraphItems st)) items"
  using handleItems_ok [OF graph_reach_ok [OF assms(1)] assms(2), of h cfg tables exist] by blast

theorem receive_refines_witness:
  "\<exists>st st'. (graph_step demo_hist demo_gcfg (\<lambda>_. False))\<^sup>*\<^sup>* (Graph_init []) st
    \<and> handleItems demo_hist demo_gcfg (\<lambda>_. False) (\<lambda>_. True) [Some (demo_gitem 90), Some (demo_gitem 180)] st = Some st'
    \<and> mem_items (GraphItems st') demo_key = [demo_gitem 180, demo_gitem 120, demo_gitem 60]"
proof -
  from demo_run obtain st where st: "(graph_step demo_hist demo_gcfg (\<lambda>_. False))\<^sup>*\<^sup>* (Graph_init []) st"
    "mem_items (GraphItems st) = (\<lambda>_. [])(demo_key := [demo_gitem 120, demo_gitem 60])" by blast
  have "\<forall>x. Some x \<in> set [Some (demo_gitem 90), Some (demo_gitem 180)] \<longrightarrow> good_graph_item x"
    by (auto simp: demo_item_good)
  from receive_refines [OF st(1) this, of "\<lambda>_. True"] st show ?thesis by (auto simp: graph_push_def admitted_def)
qed



text \<open>The parts of a query's answer.\<close>

lemma Graph_Query_eq:
  assumes "GetTypeAndStep db (IndexedItemCache st) (gq_Endpoint param) (gq_Counter param) cs = Some (Some (dsType, step), cs')"
    "0 < step" "a = gq_Start param - gq_Start param smod step" "b = i64 (gq_End param - gq_End param smod step + step)"
    "RrdFileName (gg_Storage cfg) (Md5 (gq_Endpoint param @ [slash] @ gq_Counter param)) dsType step = Some fn"
    "GraphItemMap_FetchAll (GraphItems st)
      (FormRrdCacheKey (Md5 (gq_Endpoint param @ [slash] @ gq_Counter param)) dsType step) = (items, flag)"
    "resp = \<lparr> gr_Endpoint = gq_Endpoint param, gr_Counter = gq_Counter param, gr_DsType = dsType, gr_Step = step, gr_Values = [] \<rparr>"
    "datas = (if gg_MigrateEnabled cfg \<and> flag AND GRAPH_F_MISS \<noteq> 0 then remote
      else fetch fn (gq_ConsolFun param) (a - step) b step)"
  shows "i64 (b - a - step) < 1 \<Longrightarrow> Graph_Query db cfg fetch remote nowTs param st cs = Some (resp, cs')"
    "\<not> i64 (b - a - step) < 1 \<Longrightarrow> Graph_Query db cfg fetch remote nowTs param st cs =
      (if a < nowTs - nowTs smod step - RRA1PointCnt * step \<or> items = [] then Some (resp\<lparr>gr_Values := datas\<rparr>, cs')
       else do { ret \<leftarrow> merge_query dsType step a b items datas; Some (resp\<lparr>gr_Values := ret\<rparr>, cs') })"
  using assms(2,5,6) by (simp_all add: Graph_Query_def assms(1,7,8) Let_def assms(3,4))


text \<open>An index that knows one counter, and a state that holds one point of it.\<close>

definition demo_db :: "(unit, unit) index_db" where
  "demo_db = \<lparr> id_ecache = \<lparr> tc_Get = (\<lambda>_ _. None), tc_Set = (\<lambda>_ _ c. c) \<rparr>,
     id_ccache = \<lparr> tc_Get = (\<lambda>_ _. None), tc_Set = (\<lambda>_ _ c. c) \<rparr>,
     id_endpoint = (\<lambda>_. Some (Inr 1)), id_counter = (\<lambda>_ _. Some (Inr (''GAUGE'', 60))) \<rparr>"

definition demo_param :: GraphQueryParam where
  "demo_param = \<lparr> gq_Start = 61, gq_End = 185, gq_ConsolFun = ''AVERAGE'', gq_Endpoint = ''h'', gq_Counter = ''cpu'', gq_Step = 0 \<rparr>"

definition demo_mem :: "(string, GraphItem list) gomap Graph_state" where
  "demo_mem = (Graph_init [])\<lparr>GraphItems := GraphItemMap_PushFront demo_key (demo_gitem 120) False NewGraphItems\<rparr>"

lemma demo_key_eq: "FormRrdCacheKey (Md5 (''h'' @ [slash] @ ''cpu'')) ''GAUGE'' 60 = demo_key"
  by (simp add: demo_key_def item_key_def GraphItem_Checksum_def Checksum_def PK_def demo_gitem_def)

lemma demo_mem_fetch: "fst (GraphItemMap_FetchAll (GraphItems demo_mem) demo_key) = [demo_gitem 120]"
proof -
  have "mem_ok NewGraphItems" using Graph_init_ok [of "()"] by (simp add: graph_ok_def Graph_init_def)
  moreover have e: "mem_items NewGraphItems = (\<lambda>_. [])" using mem_items_init [of "()"] by (simp add: Graph_init_def)
  ultimately have "mem_items (GraphItemMap_PushFront (item_key (demo_gitem 120)) (demo_gitem 120) False NewGraphItems) demo_key
      = [demo_gitem 120]"
    by (subst PushFront_ok(2)) (simp_all add: demo_item_good First_mem)
  then show ?thesis
    by (simp add: demo_mem_def mem_items_def GraphItemMap_FetchAll_def GraphList_FetchAll_def shard_get split: option.splits)
qed


text \<open>C27: Moving a counter's points to another node loses none: the points, oldest first, are either sent and gone from
  memory, or none is sent and memory is as before.  No other counter is touched.\<close>

theorem send_lossless:
  assumes "(graph_step h cfg tables)\<^sup>*\<^sup>* (Graph_init hc) st" "send_data key outcome st = ((err, sent), st')"
  shows "(if err = None then sent = rev (mem_items (GraphItems st) key) \<and> mem_items (GraphItems st') key = []
      else sent = [] \<and> mem_items (GraphItems st') key = mem_items (GraphItems st) key)
    \<and> (\<forall>k. k \<noteq> key \<longrightarrow> mem_items (GraphItems st') k = mem_items (GraphItems st) k)"
  using send_data_ok(2,3) [OF graph_reach_ok [OF assms(1)] assms(2)] by auto

theorem send_lossless_witness:
  "\<exists>st st' err sent. (graph_step demo_hist demo_gcfg (\<lambda>_. False))\<^sup>*\<^sup>* (Graph_init []) st
    \<and> send_data demo_key (\<lambda>_. False) st = ((err, sent), st')
    \<and> (if err = None then sent = [demo_gitem 60, demo_gitem 120] else mem_items (GraphItems st') demo_key = [demo_gitem 120, demo_gitem 60])"
proof -
  from demo_run obtain st where st: "(graph_step demo_hist demo_gcfg (\<lambda>_. False))\<^sup>*\<^sup>* (Graph_init []) st"
    "mem_items (GraphItems st) = (\<lambda>_. [])(demo_key := [demo_gitem 120, demo_gitem 60])" by blast
  obtain err sent st' where s: "send_data demo_key (\<lambda>_. False) st = ((err, sent), st')" by (metis prod.exhaust)
  have "if err = None then sent = [demo_gitem 60, demo_gitem 120] else mem_items (GraphItems st') demo_key = [demo_gitem 120, demo_gitem 60]"
    using send_lossless [OF st(1) s] st(2) by (cases err) auto
  with st(1) s show ?thesis by blast
qed

text \<open>A cache key splits into the checksum, type and step it was formed from, when the type has no underscore and the step
  is a 32 bit integer.\<close>

theorem cache_key_roundtrip:
  assumes "underscore \<notin> set dsType" "-(2 ^ 31) \<le> step" "step < 2 ^ 31"
  shows "SplitRrdCacheKey (FormRrdCacheKey (Checksum endpoint metric tags) dsType step) = Inr (Checksum endpoint metric tags, dsType, step)"
  by (rule SplitRrdCacheKey_Form) (use assms Md5_notin in \<open>auto simp: Checksum_def\<close>)

theorem cache_key_roundtrip_witness:
  "SplitRrdCacheKey (FormRrdCacheKey (Checksum ''h'' ''cpu'' []) ''GAUGE'' 60) = Inr (Checksum ''h'' ''cpu'' [], ''GAUGE'', 60)"
  using cache_key_roundtrip [of "''GAUGE''" 60 "''h''" "''cpu''" "[]"] by simp

text \<open>The request for a counter's file panics exactly for keys of three parts whose first part is shorter than two bytes:
  the checksum of the request is sliced before it is checked.\<close>

theorem get_rrd_panics:
  "Graph_GetRrd cfg readFile key st = None
    \<longleftrightarrow> (case SplitRrdCacheKey key of Inl err \<Rightarrow> False | Inr (md5, dsType, step) \<Rightarrow> length md5 < 2)"
  by (auto simp: Graph_GetRrd_def RrdFileName_def slice_sub_def Let_def split: sum.split prod.split)

end
