(* ===== verification/Hbs.thy ===== *)
theory Hbs
  imports CommonModel Interfaces
begin

text \<open>
  The heartbeat server: its queries (\<open>hbs/db\<close>), the caches they fill (\<open>hbs/cache\<close>) and the RPC methods of
  agents and judges (\<open>hbs/rpc\<close>).  The answer of the database is an argument, a list of rows in which \<open>None\<close> is
  a row that does not scan; the statements the server executes are a log.
\<close>

section \<open>Queries\<close>

type_synonym 'r rows = "goerror + 'r option list"

definition scan_rows :: "('m \<Rightarrow> 'r \<Rightarrow> 'm) \<Rightarrow> 'm \<Rightarrow> 'r rows \<Rightarrow> goerror + 'm" where
  "scan_rows f m rows =
     (case rows of
        Inl err \<Rightarrow> Inl err
      | Inr rs \<Rightarrow> Inr (foldl (\<lambda>m r. case r of None \<Rightarrow> m | Some x \<Rightarrow> f m x) m rs))"



definition QueryHostGroups :: "(int \<times> int) rows \<Rightarrow> goerror + (int, int list) gomap" where
  "QueryHostGroups = scan_rows (\<lambda>m (gid, hid). m_append hid gid m) []"

definition QueryHosts :: "(int \<times> string) rows \<Rightarrow> goerror + (string, int) gomap" where
  "QueryHosts = scan_rows (\<lambda>m (hid, hostname). m_set hostname hid m) []"

record Host =
  ho_Id :: int
  ho_Name :: string

definition QueryMonitoredHosts :: "(int \<times> string) rows \<Rightarrow> goerror + (int, Host) gomap" where
  "QueryMonitoredHosts = scan_rows (\<lambda>m (hid, name). m_set hid \<lparr> ho_Id = hid, ho_Name = name \<rparr> m) []"

definition QueryPlugins :: "(int \<times> string) rows \<Rightarrow> goerror + (int, string list) gomap" where
  "QueryPlugins = scan_rows (\<lambda>m (gid, dir). m_append gid dir m) []"

definition QueryGroupTemplates :: "(int \<times> int) rows \<Rightarrow> goerror + (int, int list) gomap" where
  "QueryGroupTemplates = scan_rows (\<lambda>m (gid, tid). m_append gid tid m) []"

definition QueryTemplates :: "Template rows \<Rightarrow> goerror + (int, Template) gomap" where
  "QueryTemplates = scan_rows (\<lambda>m t. m_set (tp_Id t) t m) []"

definition QueryHostTemplateIds :: "(int \<times> int) rows \<Rightarrow> goerror + (int, int list) gomap" where
  "QueryHostTemplateIds = scan_rows (\<lambda>m (tid, hid). m_append hid tid m) []"

text \<open>A row of the strategy table: the scanned fields, the tag text and the template.\<close>

definition strategy_tags :: "string \<Rightarrow> tags" where
  "strategy_tags tags =
     (if tags = [] then []
      else foldl (\<lambda>tt tag. case str_split2 equals tag of [k, v] \<Rightarrow> m_set k v tt | _ \<Rightarrow> tt) [] (str_split comma tags))"

definition QueryStrategies ::
  "(int, Template) gomap \<Rightarrow> (Strategy \<times> string \<times> int) rows \<Rightarrow> goerror + (int, Strategy) gomap" where
  "QueryStrategies tpls rows =
     (if tpls = [] then Inl ''illegal argument''
      else scan_rows (\<lambda>ret (s, tags, tid).
        case m_get tpls tid of
          None \<Rightarrow> ret
        | Some t \<Rightarrow> m_set (st_Id s) (s\<lparr>st_Tags := strategy_tags tags, st_Tpl := Some t\<rparr>) ret) [] rows)"

fun parse_tags_loop :: "string \<Rightarrow> tags \<Rightarrow> string list \<Rightarrow> goerror + tags" where
  "parse_tags_loop ex tags [] = Inr tags"
| "parse_tags_loop ex tags (item # items) =
     (case str_split equals item of
        [k, v] \<Rightarrow> parse_tags_loop ex (m_set (str_trim_space k) (str_trim_space v) tags) items
      | _ \<Rightarrow> Inl (''parse '' @ ex @ '' fail''))"

definition parseExpression :: "string \<Rightarrow> (goerror + string \<times> tags) go" where
  "parseExpression ex =
     (let left = str_index ex (CHR ''(''); right = str_index ex (CHR '')'') in do {
      inner \<leftarrow> slice_sub ex (left + 1) right;
      let tagStrs = str_trim_space inner; arr = str_fields tagStrs in
      Some (if length arr < 2 then Inl (''tag not enough. exp: '' @ ex)
            else case parse_tags_loop ex [] arr of
              Inl err \<Rightarrow> Inl err
            | Inr tags \<Rightarrow>
                (case m_get tags ''metric'' of
                   None \<Rightarrow> Inl (''no metric give of '' @ ex)
                 | Some metric \<Rightarrow> Inr (metric, m_del ''metric'' tags))) })"

definition expression_row :: "Expression list \<Rightarrow> (Expression \<times> string) option \<Rightarrow> Expression list go" where
  "expression_row ret r =
     (case r of
        None \<Rightarrow> Some ret
      | Some (e, ex) \<Rightarrow> do {
          p \<leftarrow> parseExpression ex;
          Some (case p of Inl err \<Rightarrow> ret | Inr (metric, tags) \<Rightarrow> ret @ [e\<lparr>ex_Metric := metric, ex_Tags := tags\<rparr>]) })"

definition QueryExpressions :: "(Expression \<times> string) rows \<Rightarrow> (goerror + Expression list) go" where
  "QueryExpressions rows =
     (case rows of
        Inl err \<Rightarrow> Some (Inl err)
      | Inr rs \<Rightarrow> do { ret \<leftarrow> foldM expression_row [] rs; Some (Inr ret) })"

text \<open>The sets of \<open>toolkits/container\<close>.\<close>

record ('e, 's) set_ops =
  so_New :: 's
  so_Add :: "'e \<Rightarrow> 's \<Rightarrow> 's"
  so_Exists :: "'s \<Rightarrow> 'e \<Rightarrow> bool"
  so_ToSlice :: "'s \<Rightarrow> 'e list"

definition metric_row ::
  "(string, 's) set_ops \<Rightarrow> BuiltinMetric list \<times> 's \<Rightarrow> string \<times> string \<Rightarrow> BuiltinMetric list \<times> 's" where
  "metric_row so = (\<lambda>(ret, metricTagsSet) (metric, tags).
     let k = metric @ tags in
     if so_Exists so metricTagsSet k then (ret, metricTagsSet)
     else (ret @ [\<lparr> bm_Metric = metric, bm_Tags = tags \<rparr>], so_Add so k metricTagsSet))"

definition QueryBuiltinMetrics ::
  "(string, 's) set_ops \<Rightarrow> (string \<Rightarrow> (string \<times> string) rows) \<Rightarrow> string \<Rightarrow> goerror + BuiltinMetric list" where
  "QueryBuiltinMetrics so db tids = map_sum id fst (scan_rows (metric_row so) ([], so_New so) (db tids))"

text \<open>The statement that records an agent; \<open>hosts\<close> is the configured host file.\<close>

definition UpdateAgent_sql :: "string \<Rightarrow> AgentUpdateInfo \<Rightarrow> string" where
  "UpdateAgent_sql hosts agentInfo =
     (let r = au_ReportRequest agentInfo; q = (\<lambda>s. CHR 0x27 # s @ [CHR 0x27]) in
      if hosts = [] then
        ''insert into host(hostname, ip, agent_version, plugin_version) values ('' @ q (ar_Hostname r) @ '', '' @ q (ar_IP r)
        @ '', '' @ q (ar_AgentVersion r) @ '', '' @ q (ar_PluginVersion r) @ '') on duplicate key update ip='' @ q (ar_IP r)
        @ '', agent_version='' @ q (ar_AgentVersion r) @ '', plugin_version='' @ q (ar_PluginVersion r)
      else
        ''update host set ip='' @ q (ar_IP r) @ '', agent_version='' @ q (ar_AgentVersion r) @ '', plugin_version=''
        @ q (ar_PluginVersion r) @ '' where hostname='' @ q (ar_Hostname r))"

section \<open>Caches\<close>

record Hbs_state =
  Agents :: "(string, AgentUpdateInfo) gomap"
  ExpressionCache :: "Expression list"
  HostGroupsMap :: "(int, int list) gomap"
  HostMap :: "(string, int) gomap"
  MonitoredHosts :: "(int, Host) gomap"
  GroupPlugins :: "(int, string list) gomap"
  Strategies :: "(int, Strategy) gomap"
  GroupTemplates :: "(int, int list) gomap"
  TemplateCache :: "(int, Template) gomap"
  HostTemplateIds :: "(int, int list) gomap"
  executed :: "string list"

definition SafeAgents_Get :: "Hbs_state \<Rightarrow> string \<Rightarrow> AgentUpdateInfo option" where
  "SafeAgents_Get st hostname = m_get (Agents st) hostname"

definition SafeAgents_Put :: "string \<Rightarrow> int \<Rightarrow> AgentReportRequest \<Rightarrow> Hbs_state \<Rightarrow> Hbs_state" where
  "SafeAgents_Put hosts now req st =
     (let val = \<lparr> au_LastUpdate = now, au_ReportRequest = req \<rparr>;
          changed = (case SafeAgents_Get st (ar_Hostname req) of
            None \<Rightarrow> True
          | Some agentInfo \<Rightarrow>
              ar_AgentVersion (au_ReportRequest agentInfo) \<noteq> ar_AgentVersion req
              \<or> ar_IP (au_ReportRequest agentInfo) \<noteq> ar_IP req
              \<or> ar_PluginVersion (au_ReportRequest agentInfo) \<noteq> ar_PluginVersion req);
          st1 = (if changed then st\<lparr>executed := executed st @ [UpdateAgent_sql hosts val]\<rparr> else st)
      in st1\<lparr>Agents := m_set (ar_Hostname req) val (Agents st1)\<rparr>)"

definition SafeAgents_Delete :: "string \<Rightarrow> Hbs_state \<Rightarrow> Hbs_state" where
  "SafeAgents_Delete hostname st = st\<lparr>Agents := m_del hostname (Agents st)\<rparr>"

definition SafeAgents_Keys :: "Hbs_state \<Rightarrow> string list" where
  "SafeAgents_Keys st = map fst (Agents st)"

definition stale_agent :: "int \<Rightarrow> Hbs_state \<Rightarrow> string \<Rightarrow> Hbs_state go" where
  "stale_agent before st key = do {
     curr \<leftarrow> SafeAgents_Get st key;
     Some (if au_LastUpdate curr < before then SafeAgents_Delete (ar_Hostname (au_ReportRequest curr)) st else st) }"

definition deleteStaleAgents :: "int \<Rightarrow> Hbs_state \<Rightarrow> Hbs_state go" where
  "deleteStaleAgents now st = foldM (stale_agent (now - 3600 * 24)) st (SafeAgents_Keys st)"

definition ExpressionCache_Init :: "(Expression \<times> string) rows \<Rightarrow> Hbs_state \<Rightarrow> Hbs_state go" where
  "ExpressionCache_Init rows st = do {
     r \<leftarrow> QueryExpressions rows;
     Some (case r of Inl err \<Rightarrow> st | Inr es \<Rightarrow> st\<lparr>ExpressionCache := es\<rparr>) }"

definition HostGroupsMap_Init :: "(int \<times> int) rows \<Rightarrow> Hbs_state \<Rightarrow> Hbs_state" where
  "HostGroupsMap_Init rows st = (case QueryHostGroups rows of Inl err \<Rightarrow> st | Inr m \<Rightarrow> st\<lparr>HostGroupsMap := m\<rparr>)"

definition HostMap_Init :: "(int \<times> string) rows \<Rightarrow> Hbs_state \<Rightarrow> Hbs_state" where
  "HostMap_Init rows st = (case QueryHosts rows of Inl err \<Rightarrow> st | Inr m \<Rightarrow> st\<lparr>HostMap := m\<rparr>)"

definition MonitoredHosts_Init :: "(int \<times> string) rows \<Rightarrow> Hbs_state \<Rightarrow> Hbs_state" where
  "MonitoredHosts_Init rows st = (case QueryMonitoredHosts rows of Inl err \<Rightarrow> st | Inr m \<Rightarrow> st\<lparr>MonitoredHosts := m\<rparr>)"

definition GroupPlugins_Init :: "(int \<times> string) rows \<Rightarrow> Hbs_state \<Rightarrow> Hbs_state" where
  "GroupPlugins_Init rows st = (case QueryPlugins rows of Inl err \<Rightarrow> st | Inr m \<Rightarrow> st\<lparr>GroupPlugins := m\<rparr>)"

definition GroupTemplates_Init :: "(int \<times> int) rows \<Rightarrow> Hbs_state \<Rightarrow> Hbs_state" where
  "GroupTemplates_Init rows st = (case QueryGroupTemplates rows of Inl err \<Rightarrow> st | Inr m \<Rightarrow> st\<lparr>GroupTemplates := m\<rparr>)"

definition TemplateCache_Init :: "Template rows \<Rightarrow> Hbs_state \<Rightarrow> Hbs_state" where
  "TemplateCache_Init rows st = (case QueryTemplates rows of Inl err \<Rightarrow> st | Inr m \<Rightarrow> st\<lparr>TemplateCache := m\<rparr>)"

definition HostTemplateIds_Init :: "(int \<times> int) rows \<Rightarrow> Hbs_state \<Rightarrow> Hbs_state" where
  "HostTemplateIds_Init rows st = (case QueryHostTemplateIds rows of Inl err \<Rightarrow> st | Inr m \<Rightarrow> st\<lparr>HostTemplateIds := m\<rparr>)"

definition Strategies_Init :: "(Strategy \<times> string \<times> int) rows \<Rightarrow> Hbs_state \<Rightarrow> Hbs_state" where
  "Strategies_Init rows st =
     (case QueryStrategies (TemplateCache st) rows of Inl err \<Rightarrow> st | Inr m \<Rightarrow> st\<lparr>Strategies := m\<rparr>)"

text \<open>What the database answers in one round of the cache loop.\<close>

record Hbs_db =
  db_plugins :: "(int \<times> string) rows"
  db_group_templates :: "(int \<times> int) rows"
  db_host_groups :: "(int \<times> int) rows"
  db_hosts :: "(int \<times> string) rows"
  db_templates :: "Template rows"
  db_strategies :: "(Strategy \<times> string \<times> int) rows"
  db_host_templates :: "(int \<times> int) rows"
  db_expressions :: "(Expression \<times> string) rows"
  db_monitored :: "(int \<times> string) rows"

definition Cache_round :: "Hbs_db \<Rightarrow> Hbs_state \<Rightarrow> Hbs_state go" where
  "Cache_round db st =
     (let st1 = GroupPlugins_Init (db_plugins db) st;
          st2 = GroupTemplates_Init (db_group_templates db) st1;
          st3 = HostGroupsMap_Init (db_host_groups db) st2;
          st4 = HostMap_Init (db_hosts db) st3;
          st5 = TemplateCache_Init (db_templates db) st4;
          st6 = Strategies_Init (db_strategies db) st5;
          st7 = HostTemplateIds_Init (db_host_templates db) st6
      in do {
        st8 \<leftarrow> ExpressionCache_Init (db_expressions db) st7;
        Some (MonitoredHosts_Init (db_monitored db) st8) })"

section \<open>Plugins, templates and metrics of a host\<close>

definition add_plugins :: "(int, string list) gomap \<Rightarrow> (string, unit) gomap \<Rightarrow> int \<Rightarrow> (string, unit) gomap" where
  "add_plugins gp dirs gid =
     (case m_get gp gid of None \<Rightarrow> dirs | Some plugins \<Rightarrow> foldl (\<lambda>d p. m_set p () d) dirs plugins)"

definition GetPlugins :: "Hbs_state \<Rightarrow> string \<Rightarrow> string list" where
  "GetPlugins st hostname =
     (case m_get (HostMap st) hostname of
        None \<Rightarrow> []
      | Some hid \<Rightarrow>
          (case m_get (HostGroupsMap st) hid of
             None \<Rightarrow> []
           | Some gids \<Rightarrow> KeysOfMap (foldl (add_plugins (GroupPlugins st)) [] gids)))"

text \<open>The walk to the root: \<open>n\<close> steps are left before the walk gives up; \<open>None\<close> is giving up.\<close>

fun parent_loop :: "nat \<Rightarrow> (int, Template) gomap \<Rightarrow> int \<Rightarrow> int list \<Rightarrow> int list option" where
  "parent_loop 0 allTpls tid ret = None"
| "parent_loop (Suc n) allTpls tid ret =
     (if tid \<le> 0 then Some ret
      else case m_get allTpls tid of
        None \<Rightarrow> Some ret
      | Some t \<Rightarrow> if n = 0 then None else parent_loop n allTpls (tp_ParentId t) (ret @ [tid]))"

definition ParentIds :: "(int, Template) gomap \<Rightarrow> int \<Rightarrow> int list" where
  "ParentIds allTpls tid = (case parent_loop 10 allTpls tid [] of None \<Rightarrow> [] | Some ret \<Rightarrow> rev ret)"

definition add_templates :: "(int, 's) set_ops \<Rightarrow> (int, int list) gomap \<Rightarrow> 's \<Rightarrow> int \<Rightarrow> 's" where
  "add_templates so gt tidSet gid =
     (case m_get gt gid of None \<Rightarrow> tidSet | Some tids \<Rightarrow> foldl (\<lambda>s tid. so_Add so tid s) tidSet tids)"

definition GetBuiltinMetrics ::
  "(int, 's) set_ops \<Rightarrow> (string, 't) set_ops \<Rightarrow> (string \<Rightarrow> (string \<times> string) rows) \<Rightarrow> Hbs_state \<Rightarrow> string
     \<Rightarrow> goerror + BuiltinMetric list" where
  "GetBuiltinMetrics so sso db st hostname =
     (case m_get (HostMap st) hostname of
        None \<Rightarrow> Inr []
      | Some hid \<Rightarrow>
          (case m_get (HostGroupsMap st) hid of
             None \<Rightarrow> Inr []
           | Some gids \<Rightarrow>
               let tidSet = foldl (add_templates so (GroupTemplates st)) (so_New so) gids;
                   tidSlice = so_ToSlice so tidSet in
               if length tidSlice = 0 then Inr []
               else
                 let tidSet' = foldl (\<lambda>s tid. foldl (\<lambda>s pid. so_Add so pid s) s (ParentIds (TemplateCache st) tid)) tidSet tidSlice
                 in QueryBuiltinMetrics sso db (str_join comma (map Itoa (so_ToSlice so tidSet')))))"

section \<open>Strategies of a host\<close>

definition Tpl2Strategies :: "(int, Strategy) gomap \<Rightarrow> (int, Strategy list) gomap" where
  "Tpl2Strategies strategies =
     foldl (\<lambda>ret (i, s). case st_Tpl s of None \<Rightarrow> ret | Some t \<Rightarrow> m_append (tp_Id t) s ret) [] strategies"

fun slice_int_contains :: "int list \<Rightarrow> int \<Rightarrow> bool" where
  "slice_int_contains [] target = False"
| "slice_int_contains (b # bs) target = (if b = target then True else slice_int_contains bs target)"

fun slice_int_eq :: "int list \<Rightarrow> int list \<Rightarrow> bool" where
  "slice_int_eq [] [] = True"
| "slice_int_eq (a # as) (b # bs) = (length as = length bs \<and> (if a \<noteq> b then False else slice_int_eq as bs))"
| "slice_int_eq _ _ = False"

fun slice_int_lt :: "int list \<Rightarrow> int list \<Rightarrow> bool" where
  "slice_int_lt [] b = True"
| "slice_int_lt (i # a) b = (if \<not> slice_int_contains b i then False else slice_int_lt a b)"

definition tpl_buckets :: "(int, Template) gomap \<Rightarrow> int list \<Rightarrow> int list list" where
  "tpl_buckets allTpls tids = filter (\<lambda>ids. length ids > 0) (map (ParentIds allTpls) tids)"

fun bucket_valid :: "int list list \<Rightarrow> nat \<Rightarrow> nat list \<Rightarrow> bool" where
  "bucket_valid bs i [] = True"
| "bucket_valid bs i (j # js) =
     (if i = j then bucket_valid bs i js
      else if slice_int_eq (bs ! i) (bs ! j) then True
      else if slice_int_lt (bs ! i) (bs ! j) then False
      else bucket_valid bs i js)"

definition uniq_tpl_buckets :: "int list list \<Rightarrow> int list list" where
  "uniq_tpl_buckets bs = map ((!) bs) (filter (\<lambda>i. bucket_valid bs i [0..<length bs]) [0..<length bs])"

definition strategy_uuid :: "Strategy \<Rightarrow> string" where
  "strategy_uuid s = ''metric:'' @ st_Metric s @ ''/tags:'' @ SortedTags (st_Tags s)"

definition the_tid_stras :: "(int, Strategy list) gomap \<Rightarrow> int \<Rightarrow> (string, Strategy list) gomap" where
  "the_tid_stras tpl2 tid =
     (case m_get tpl2 tid of None \<Rightarrow> [] | Some stras \<Rightarrow> foldl (\<lambda>m s. m_append (strategy_uuid s) s m) [] stras)"

definition bucket_stras_map :: "(int, Strategy list) gomap \<Rightarrow> int list \<Rightarrow> (string, Strategy list) gomap" where
  "bucket_stras_map tpl2 bucket =
     foldl (\<lambda>m tid. foldl (\<lambda>m (uuid, ss). m_set uuid ss m) m (the_tid_stras tpl2 tid)) [] bucket"

definition emit_strategy ::
  "(int, Template) gomap \<Rightarrow> int \<Rightarrow> Strategy list \<times> (int, unit) gomap \<Rightarrow> Strategy \<Rightarrow> (Strategy list \<times> (int, unit) gomap) go" where
  "emit_strategy allTpls last_tid = (\<lambda>(strategies, exists_by_id) s.
     if m_get exists_by_id (st_Id s) \<noteq> None then Some (strategies, exists_by_id)
     else do {
       t \<leftarrow> st_Tpl s;
       Some (strategies @ [if tp_Id t \<noteq> last_tid then s\<lparr>st_Tpl := m_get allTpls last_tid\<rparr> else s],
             m_set (st_Id s) () exists_by_id) })"

definition emit_bucket ::
  "(int, Template) gomap \<Rightarrow> (int, Strategy list) gomap \<Rightarrow> Strategy list \<times> (int, unit) gomap \<Rightarrow> int list
     \<Rightarrow> (Strategy list \<times> (int, unit) gomap) go" where
  "emit_bucket allTpls tpl2 acc bucket =
     (let m = bucket_stras_map tpl2 bucket in do {
      last_tid \<leftarrow> slice_get bucket (int (length bucket) - 1);
      foldM (emit_strategy allTpls last_tid) acc (concat (map snd m)) })"

definition CalcInheritStrategies ::
  "(int, Template) gomap \<Rightarrow> int list \<Rightarrow> (int, Strategy list) gomap \<Rightarrow> Strategy list go" where
  "CalcInheritStrategies allTpls tids tpl2 = do {
     (strategies, _) \<leftarrow> foldM (emit_bucket allTpls tpl2) ([], []) (uniq_tpl_buckets (tpl_buckets allTpls tids));
     Some strategies }"

definition host_strategies ::
  "Hbs_state \<Rightarrow> (int, Strategy list) gomap \<Rightarrow> HostStrategy list \<Rightarrow> int \<times> int list \<Rightarrow> HostStrategy list go" where
  "host_strategies st tpl2 ret = (\<lambda>(hostId, tplIds).
     case m_get (MonitoredHosts st) hostId of
       None \<Rightarrow> Some ret
     | Some h \<Rightarrow> do {
         ss \<leftarrow> CalcInheritStrategies (TemplateCache st) tplIds tpl2;
         Some (if length ss \<le> 0 then ret else ret @ [\<lparr> hs_Hostname = ho_Name h, hs_Strategies = ss \<rparr>]) })"

definition GetStrategies :: "Hbs_state \<Rightarrow> HostStrategy list go" where
  "GetStrategies st =
     (if HostTemplateIds st = [] \<or> MonitoredHosts st = [] \<or> TemplateCache st = [] \<or> Strategies st = [] then Some []
      else foldM (host_strategies st (Tpl2Strategies (Strategies st))) [] (HostTemplateIds st))"

definition GetExpressions :: "Hbs_state \<Rightarrow> Expression list" where
  "GetExpressions st = ExpressionCache st"

section \<open>Methods for agents\<close>

record AgentPluginsResponse =
  ap_Plugins :: "string list"
  ap_Timestamp :: int

definition MinePlugins :: "int \<Rightarrow> Hbs_state \<Rightarrow> string \<Rightarrow> AgentPluginsResponse \<Rightarrow> AgentPluginsResponse" where
  "MinePlugins now st hostname reply =
     (if hostname = [] then reply else reply\<lparr>ap_Plugins := GetPlugins st hostname, ap_Timestamp := now\<rparr>)"

text \<open>The code of the reply and the new state.\<close>

definition ReportStatus :: "string \<Rightarrow> int \<Rightarrow> AgentReportRequest \<Rightarrow> int \<times> Hbs_state \<Rightarrow> int \<times> Hbs_state" where
  "ReportStatus hosts now args = (\<lambda>(code, st).
     if ar_Hostname args = [] then (1, st) else (code, SafeAgents_Put hosts now args st))"

definition TrustableIps :: "string list \<Rightarrow> string" where
  "TrustableIps trustable = str_join comma trustable"

text \<open>\<open>sort.Sort\<close> leaves the order of metrics with equal text open; their texts, which are digested, are sorted.\<close>

definition DigestBuiltinMetrics :: "BuiltinMetric list \<Rightarrow> string" where
  "DigestBuiltinMetrics items = Md5 (concat (sort (map BuiltinMetric_String items)))"

record BuiltinMetricResponse =
  br_Metrics :: "BuiltinMetric list"
  br_Checksum :: string
  br_Timestamp :: int

text \<open>The digest sorts the list it is given, so a reply with metrics is in the order of their texts.\<close>

definition BuiltinMetrics ::
  "(int, 's) set_ops \<Rightarrow> (string, 't) set_ops \<Rightarrow> (string \<Rightarrow> (string \<times> string) rows) \<Rightarrow> int \<Rightarrow> Hbs_state
     \<Rightarrow> string \<Rightarrow> string \<Rightarrow> BuiltinMetricResponse \<Rightarrow> BuiltinMetricResponse" where
  "BuiltinMetrics so sso db now st hostname checksum reply =
     (if hostname = [] then reply
      else case GetBuiltinMetrics so sso db st hostname of
        Inl err \<Rightarrow> reply
      | Inr ms \<Rightarrow>
          let sum = (if length ms > 0 then DigestBuiltinMetrics ms else []) in
          reply\<lparr>br_Metrics := (if checksum = sum then [] else sort_key BuiltinMetric_String ms),
                br_Checksum := sum, br_Timestamp := now\<rparr>)"

end
