(* ===== verification/HbsProps.thy ===== *)
theory HbsProps
  imports Hbs
begin

text \<open>
  What a judge receives from the heartbeat server: the ancestry of a template, which strategies of a chain of
  templates are in force for a host, and where the expression parser panics.
\<close>

section \<open>The ancestry of a template\<close>

text \<open>A list of templates from a template to its root.\<close>

fun climbs :: "(int, Template) gomap \<Rightarrow> int list \<Rightarrow> bool" where
  "climbs tpls [] = False"
| "climbs tpls (t # us) =
     (0 < t \<and> (case m_get tpls t of
        None \<Rightarrow> False
      | Some x \<Rightarrow> (case us of
            [] \<Rightarrow> tp_ParentId x \<le> 0 \<or> m_get tpls (tp_ParentId x) = None
          | u # _ \<Rightarrow> tp_ParentId x = u \<and> climbs tpls us)))"

lemma parent_loop_climbs:
  "parent_loop (Suc n) tpls tid ret = Some r \<longleftrightarrow>
     (\<exists>cs. r = ret @ cs \<and> (if cs = [] then tid \<le> 0 \<or> m_get tpls tid = None else climbs tpls cs \<and> hd cs = tid \<and> length cs \<le> n))"
proof (induction n arbitrary: tid ret)
  case 0
  then show ?case by (auto split: option.splits)
next
  case (Suc n)
  show ?case
  proof (cases "tid \<le> 0 \<or> m_get tpls tid = None")
    case True
    then have "climbs tpls cs \<Longrightarrow> hd cs \<noteq> tid" for cs by (cases cs) (auto split: option.splits)
    with True show ?thesis by (auto split: option.splits)
  next
    case False
    then obtain t where t: "0 < tid" "m_get tpls tid = Some t" by auto
    have step: "climbs tpls (tid # cs) \<longleftrightarrow>
        (if cs = [] then tp_ParentId t \<le> 0 \<or> m_get tpls (tp_ParentId t) = None else climbs tpls cs \<and> hd cs = tp_ParentId t)" for cs
      using t by (cases cs) auto
    have "parent_loop (Suc (Suc n)) tpls tid ret = Some r \<longleftrightarrow> parent_loop (Suc n) tpls (tp_ParentId t) (ret @ [tid]) = Some r"
      using t by simp
    also have "\<dots> \<longleftrightarrow> (\<exists>cs. r = ret @ tid # cs \<and> climbs tpls (tid # cs) \<and> length (tid # cs) \<le> Suc n)"
      unfolding Suc.IH step by auto
    also have "\<dots> \<longleftrightarrow> (\<exists>cs. r = ret @ cs \<and> (if cs = [] then tid \<le> 0 \<or> m_get tpls tid = None
        else climbs tpls cs \<and> hd cs = tid \<and> length cs \<le> Suc n))" (is "_ \<longleftrightarrow> (\<exists>cs. ?P cs)")
    proof
      assume "\<exists>cs. r = ret @ tid # cs \<and> climbs tpls (tid # cs) \<and> length (tid # cs) \<le> Suc n"
      then obtain cs where "r = ret @ tid # cs" "climbs tpls (tid # cs)" "length (tid # cs) \<le> Suc n" by blast
      then have "?P (tid # cs)" by simp
      then show "\<exists>cs. ?P cs" ..
    next
      assume "\<exists>cs. ?P cs"
      then obtain cs where "?P cs" ..
      with False show "\<exists>cs. r = ret @ tid # cs \<and> climbs tpls (tid # cs) \<and> length (tid # cs) \<le> Suc n"
        by (cases cs) (auto split: if_splits)
    qed
    finally show ?thesis .
  qed
qed

lemma ParentIds_climbs:
  "(ids \<noteq> [] \<and> ParentIds tpls tid = ids) \<longleftrightarrow> (climbs tpls (rev ids) \<and> hd (rev ids) = tid \<and> length ids < 10)"
proof -
  have "parent_loop 10 tpls tid [] = Some r \<longleftrightarrow>
      (if r = [] then tid \<le> 0 \<or> m_get tpls tid = None else climbs tpls r \<and> hd r = tid \<and> length r \<le> 9)" for r
    using parent_loop_climbs [of 9 tpls tid "[]" r] by (simp add: eval_nat_numeral)
  note p = this
  show ?thesis
  proof
    assume a: "ids \<noteq> [] \<and> ParentIds tpls tid = ids"
    then obtain r where "parent_loop 10 tpls tid [] = Some r" "ids = rev r" by (auto simp: ParentIds_def split: option.splits)
    with p [of r] a show "climbs tpls (rev ids) \<and> hd (rev ids) = tid \<and> length ids < 10" by (auto split: if_splits)
  next
    assume a: "climbs tpls (rev ids) \<and> hd (rev ids) = tid \<and> length ids < 10"
    then have "rev ids \<noteq> []" by auto
    with a p [of "rev ids"] have "parent_loop 10 tpls tid [] = Some (rev ids)" by auto
    with \<open>rev ids \<noteq> []\<close> show "ids \<noteq> [] \<and> ParentIds tpls tid = ids" by (simp add: ParentIds_def)
  qed
qed

lemma ParentIds_last: "ParentIds tpls tid \<noteq> [] \<Longrightarrow> last (ParentIds tpls tid) = tid"
  using ParentIds_climbs [of "ParentIds tpls tid" tpls tid] by (simp add: hd_rev)

section \<open>Buckets\<close>

lemma slice_int_contains_iff [simp]: "slice_int_contains l x \<longleftrightarrow> x \<in> set l"
  by (induction l) auto

lemma slice_int_eq_iff [simp]: "slice_int_eq a b \<longleftrightarrow> a = b"
  by (induction a b rule: slice_int_eq.induct) auto

lemma slice_int_lt_iff [simp]: "slice_int_lt a b \<longleftrightarrow> set a \<subseteq> set b"
  by (induction a) auto

lemma bucket_valid_iff:
  assumes "distinct bs" "i < length bs" "set js \<subseteq> {..<length bs}"
  shows "bucket_valid bs i js \<longleftrightarrow> (\<forall>j \<in> set js. j \<noteq> i \<longrightarrow> \<not> set (bs ! i) \<subseteq> set (bs ! j))"
  using assms(3)
proof (induction js)
  case (Cons j js)
  then have "j \<noteq> i \<Longrightarrow> bs ! i \<noteq> bs ! j" using assms(1,2) by (auto simp: nth_eq_iff_index_eq)
  with Cons show ?case by auto
qed simp

lemma uniq_tpl_buckets_set:
  assumes "distinct bs"
  shows "set (uniq_tpl_buckets bs) = {b \<in> set bs. \<forall>c \<in> set bs. c \<noteq> b \<longrightarrow> \<not> set b \<subseteq> set c}"
proof -
  have "bucket_valid bs i [0..<length bs] \<longleftrightarrow> (\<forall>c \<in> set bs. c \<noteq> bs ! i \<longrightarrow> \<not> set (bs ! i) \<subseteq> set c)" if "i < length bs" for i
  proof -
    have "bucket_valid bs i [0..<length bs] \<longleftrightarrow> (\<forall>j < length bs. j \<noteq> i \<longrightarrow> \<not> set (bs ! i) \<subseteq> set (bs ! j))"
      using bucket_valid_iff [OF assms that, of "[0..<length bs]"] by (simp add: atLeast0LessThan Ball_def)
    also have "\<dots> \<longleftrightarrow> (\<forall>j < length bs. bs ! j \<noteq> bs ! i \<longrightarrow> \<not> set (bs ! i) \<subseteq> set (bs ! j))"
      using nth_eq_iff_index_eq [OF assms _ that] by blast
    finally show ?thesis by (simp add: all_set_conv_all_nth)
  qed
  then have "filter (\<lambda>i. bucket_valid bs i [0..<length bs]) [0..<length bs] =
      filter (\<lambda>i. \<forall>c \<in> set bs. c \<noteq> bs ! i \<longrightarrow> \<not> set (bs ! i) \<subseteq> set c) [0..<length bs]"
    by (intro filter_cong) simp_all
  then have "uniq_tpl_buckets bs = map ((!) bs) (filter (\<lambda>i. (\<lambda>b. \<forall>c \<in> set bs. c \<noteq> b \<longrightarrow> \<not> set b \<subseteq> set c) (bs ! i)) [0..<length bs])"
    by (simp only: uniq_tpl_buckets_def)
  also have "\<dots> = filter (\<lambda>b. \<forall>c \<in> set bs. c \<noteq> b \<longrightarrow> \<not> set b \<subseteq> set c) (map ((!) bs) [0..<length bs])"
    by (simp only: filter_map comp_def)
  finally show ?thesis by (simp add: map_nth)
qed

lemma tpl_buckets_distinct:
  assumes "distinct tids"
  shows "distinct (tpl_buckets tpls tids)"
  using assms
proof (induction tids)
  case (Cons t ts)
  have "ParentIds tpls t \<notin> set (tpl_buckets tpls ts)" if "ParentIds tpls t \<noteq> []"
  proof
    assume "ParentIds tpls t \<in> set (tpl_buckets tpls ts)"
    then obtain u where u: "u \<in> set ts" "ParentIds tpls t = ParentIds tpls u" by (auto simp: tpl_buckets_def)
    have "last (ParentIds tpls u) = t" unfolding u(2) [symmetric] by (rule ParentIds_last [OF that])
    moreover have "last (ParentIds tpls u) = u" using that unfolding u(2) by (rule ParentIds_last)
    ultimately show False using u(1) Cons.prems by simp
  qed
  with Cons.IH Cons.prems show ?case by (cases "ParentIds tpls t = []") (simp_all add: tpl_buckets_def)
qed (simp add: tpl_buckets_def)

section \<open>Strategies in force\<close>

definition stras_of :: "(int, Strategy list) gomap \<Rightarrow> int \<Rightarrow> Strategy list" where
  "stras_of tpl2 t = (case m_get tpl2 t of None \<Rightarrow> [] | Some ss \<Rightarrow> ss)"

text \<open>The strategies of a chain, root first, that no younger template of the chain replaces.\<close>

fun effective :: "(int, Strategy list) gomap \<Rightarrow> int list \<Rightarrow> Strategy list" where
  "effective tpl2 [] = []"
| "effective tpl2 (t # ts) =
     filter (\<lambda>s. list_all (\<lambda>t'. strategy_uuid s \<notin> set (map strategy_uuid (stras_of tpl2 t'))) ts) (stras_of tpl2 t)
     @ effective tpl2 ts"

lemma effective_snoc:
  "set (effective tpl2 (ts @ [t])) = {s \<in> set (effective tpl2 ts). strategy_uuid s \<notin> strategy_uuid ` set (stras_of tpl2 t)}
     \<union> set (stras_of tpl2 t)"
  by (induction ts) auto

lemma group_fold:
  "m_get (foldl (\<lambda>m s. m_append (f s) s m) m0 xs) u =
     (if filter (\<lambda>s. f s = u) xs = [] then m_get m0 u
      else Some ((case m_get m0 u of None \<Rightarrow> [] | Some vs \<Rightarrow> vs) @ filter (\<lambda>s. f s = u) xs))"
  by (induction xs arbitrary: m0) (auto simp: m_append_def split: option.split)

lemma group_fold_ok: "gomap_ok m0 \<Longrightarrow> gomap_ok (foldl (\<lambda>m s. m_append (f s) s m) m0 xs)"
  by (induction xs arbitrary: m0) (auto simp: m_append_def split: option.split)

lemma the_tid_stras_get:
  "m_get (the_tid_stras tpl2 t) u =
     (let ss = filter (\<lambda>s. strategy_uuid s = u) (stras_of tpl2 t) in if ss = [] then None else Some ss)"
  by (auto simp: the_tid_stras_def stras_of_def group_fold Let_def split: option.split)

lemma the_tid_stras_ok: "gomap_ok (the_tid_stras tpl2 t)"
  by (auto simp: the_tid_stras_def gomap_ok_def [of "[]"] intro!: group_fold_ok split: option.split)

lemma set_all_get:
  "gomap_ok n \<Longrightarrow> m_get (foldl (\<lambda>m (u, ss). m_set u ss m) m n) u = (case m_get n u of None \<Rightarrow> m_get m u | Some ss \<Rightarrow> Some ss)"
proof (induction n arbitrary: m)
  case (Cons p n)
  obtain v ss where p: "p = (v, ss)" by (cases p)
  have "v \<notin> fst ` set n" "gomap_ok n" using Cons.prems p by (auto simp: gomap_ok_def)
  then have "m_get n v = None" by (simp add: m_get_None_iff)
  with Cons.IH [OF \<open>gomap_ok n\<close>] p show ?case by (auto split: option.split)
qed simp

lemma set_all_ok: "gomap_ok m \<Longrightarrow> gomap_ok (foldl (\<lambda>m (u, ss). m_set u ss m) m n)"
  by (induction n arbitrary: m) auto

lemma bucket_stras_map_ok: "gomap_ok (bucket_stras_map tpl2 bucket)"
  by (induction bucket rule: rev_induct) (auto simp: bucket_stras_map_def gomap_ok_def [of "[]"] intro: set_all_ok)

lemma bucket_stras_map_snoc:
  "bucket_stras_map tpl2 (ts @ [t]) = foldl (\<lambda>m (u, ss). m_set u ss m) (bucket_stras_map tpl2 ts) (the_tid_stras tpl2 t)"
  by (simp add: bucket_stras_map_def)

lemma bucket_stras_map_get:
  "set (case m_get (bucket_stras_map tpl2 bucket) u of None \<Rightarrow> [] | Some ss \<Rightarrow> ss) =
     {s \<in> set (effective tpl2 bucket). strategy_uuid s = u}"
proof (induction bucket rule: rev_induct)
  case (snoc t ts)
  show ?case
  proof (cases "filter (\<lambda>s. strategy_uuid s = u) (stras_of tpl2 t) = []")
    case True
    then have "u \<notin> strategy_uuid ` set (stras_of tpl2 t)" by (auto simp: filter_empty_conv)
    with True snoc show ?thesis
      by (auto simp: bucket_stras_map_snoc set_all_get the_tid_stras_ok the_tid_stras_get effective_snoc)
  next
    case False
    then have "u \<in> strategy_uuid ` set (stras_of tpl2 t)" by (auto simp: filter_empty_conv)
    with False show ?thesis
      by (auto simp: bucket_stras_map_snoc set_all_get the_tid_stras_ok the_tid_stras_get effective_snoc)
  qed
qed (simp add: bucket_stras_map_def)

lemma bucket_stras_set: "set (concat (map snd (bucket_stras_map tpl2 bucket))) = set (effective tpl2 bucket)"
proof -
  have "s \<in> set (concat (map snd (bucket_stras_map tpl2 bucket))) \<longleftrightarrow>
      (\<exists>u. s \<in> set (case m_get (bucket_stras_map tpl2 bucket) u of None \<Rightarrow> [] | Some ss \<Rightarrow> ss))" for s
  proof
    assume "s \<in> set (concat (map snd (bucket_stras_map tpl2 bucket)))"
    then obtain u ss where "(u, ss) \<in> set (bucket_stras_map tpl2 bucket)" "s \<in> set ss" by auto
    then have "s \<in> set (case m_get (bucket_stras_map tpl2 bucket) u of None \<Rightarrow> [] | Some ss \<Rightarrow> ss)"
      using m_get_in_set [OF bucket_stras_map_ok] by simp
    then show "\<exists>u. s \<in> set (case m_get (bucket_stras_map tpl2 bucket) u of None \<Rightarrow> [] | Some ss \<Rightarrow> ss)" ..
  next
    assume "\<exists>u. s \<in> set (case m_get (bucket_stras_map tpl2 bucket) u of None \<Rightarrow> [] | Some ss \<Rightarrow> ss)"
    then obtain u where "s \<in> set (case m_get (bucket_stras_map tpl2 bucket) u of None \<Rightarrow> [] | Some ss \<Rightarrow> ss)" ..
    then obtain ss where "m_get (bucket_stras_map tpl2 bucket) u = Some ss" "s \<in> set ss"
      by (cases "m_get (bucket_stras_map tpl2 bucket) u") simp_all
    then show "s \<in> set (concat (map snd (bucket_stras_map tpl2 bucket)))" using m_get_SomeD by force
  qed
  then show ?thesis unfolding bucket_stras_map_get by auto
qed

section \<open>What is emitted\<close>

definition relabel :: "(int, Template) gomap \<Rightarrow> int \<Rightarrow> Strategy \<Rightarrow> Strategy" where
  "relabel tpls tid s = (if map_option tp_Id (st_Tpl s) \<noteq> Some tid then s\<lparr>st_Tpl := m_get tpls tid\<rparr> else s)"

lemma relabel_Id [simp]: "st_Id (relabel tpls tid s) = st_Id s"
  by (simp add: relabel_def)

definition emitted :: "(Strategy \<Rightarrow> bool) \<Rightarrow> int set \<Rightarrow> Strategy list \<times> (int, unit) gomap \<Rightarrow> bool" where
  "emitted P ids acc \<longleftrightarrow> distinct (map st_Id (fst acc)) \<and> st_Id ` set (fst acc) = ids \<and> fst ` set (snd acc) = ids
     \<and> (\<forall>s \<in> set (fst acc). P s)"

lemma emit_strategies:
  assumes "emitted P ids acc" "\<forall>s \<in> set xs. st_Tpl s \<noteq> None \<and> P (relabel tpls tid s)"
  shows "\<exists>acc'. foldM (emit_strategy tpls tid) acc xs = Some acc' \<and> emitted P (ids \<union> st_Id ` set xs) acc'"
  using assms
proof (induction xs arbitrary: acc ids)
  case (Cons s xs)
  obtain out seen where acc: "acc = (out, seen)" by (cases acc)
  obtain t where t: "st_Tpl s = Some t" using Cons.prems(2) by auto
  show ?case
  proof (cases "st_Id s \<in> ids")
    case True
    then have "emit_strategy tpls tid acc s = Some acc"
      using Cons.prems(1) acc by (auto simp: emit_strategy_def emitted_def m_get_None_iff)
    moreover have "ids \<union> st_Id ` set (s # xs) = ids \<union> st_Id ` set xs" using True by auto
    ultimately show ?thesis using Cons.IH [OF Cons.prems(1)] Cons.prems(2) by simp
  next
    case False
    let ?acc = "(out @ [relabel tpls tid s], m_set (st_Id s) () seen)"
    have "emit_strategy tpls tid acc s = Some ?acc"
      using False Cons.prems(1) acc t by (auto simp: emit_strategy_def emitted_def m_get_None_iff relabel_def)
    moreover have "emitted P (insert (st_Id s) ids) ?acc"
      using False Cons.prems acc by (auto simp: emitted_def)
    from Cons.IH [OF this] Cons.prems(2) have
      "\<exists>acc'. foldM (emit_strategy tpls tid) ?acc xs = Some acc' \<and> emitted P (insert (st_Id s) ids \<union> st_Id ` set xs) acc'" by simp
    ultimately show ?thesis by simp
  qed
qed simp

lemma emit_buckets:
  assumes "emitted P ids acc"
    "\<forall>b \<in> set bs. b \<noteq> [] \<and> (\<forall>s \<in> set (effective tpl2 b). st_Tpl s \<noteq> None \<and> P (relabel tpls (last b) s))"
  shows "\<exists>acc'. foldM (emit_bucket tpls tpl2) acc bs = Some acc'
    \<and> emitted P (ids \<union> (\<Union>b \<in> set bs. st_Id ` set (effective tpl2 b))) acc'"
  using assms
proof (induction bs arbitrary: acc ids)
  case (Cons b bs)
  let ?xs = "concat (map snd (bucket_stras_map tpl2 b))"
  have "b \<noteq> []" using Cons.prems(2) by simp
  then have "slice_get b (int (length b) - 1) = Some (last b)"
    by (simp add: slice_get_def last_conv_nth nat_diff_distrib')
  then have eb: "emit_bucket tpls tpl2 acc b = foldM (emit_strategy tpls (last b)) acc ?xs" by (simp add: emit_bucket_def)
  have "\<forall>s \<in> set ?xs. st_Tpl s \<noteq> None \<and> P (relabel tpls (last b) s)" unfolding bucket_stras_set using Cons.prems(2) by simp
  from emit_strategies [OF Cons.prems(1) this] obtain acc1 where
    1: "emit_bucket tpls tpl2 acc b = Some acc1" "emitted P (ids \<union> st_Id ` set (effective tpl2 b)) acc1"
    unfolding eb bucket_stras_set by blast
  from Cons.IH [OF 1(2)] Cons.prems(2) 1(1) show ?case by (simp add: Un_assoc)
qed simp

lemma stras_of_group: "stras_of (m_append k v m) t = (if t = k then stras_of m k @ [v] else stras_of m t)"
  by (simp add: stras_of_def m_append_def split: option.split)

lemma Tpl2Strategies_Tpl:
  assumes "s \<in> set (stras_of (Tpl2Strategies strategies) t)"
  shows "st_Tpl s \<noteq> None"
proof -
  have "\<forall>t. \<forall>s \<in> set (stras_of m t). st_Tpl s \<noteq> None \<Longrightarrow> \<forall>t. \<forall>s \<in> set (stras_of (foldl (\<lambda>ret (i, s).
      case st_Tpl s of None \<Rightarrow> ret | Some t \<Rightarrow> m_append (tp_Id t) s ret) m xs) t). st_Tpl s \<noteq> None"
    for m and xs :: "(int \<times> Strategy) list"
  proof (induction xs arbitrary: m)
    case (Cons p xs)
    obtain i s where p: "p = (i, s)" by (cases p)
    have "\<forall>t. \<forall>s \<in> set (stras_of (case st_Tpl s of None \<Rightarrow> m | Some t \<Rightarrow> m_append (tp_Id t) s m) t). st_Tpl s \<noteq> None"
      using Cons.prems by (cases "st_Tpl s") (auto simp: stras_of_group)
    from Cons.IH [OF this] p show ?case by simp
  qed simp
  from this [of "[]" strategies] assms show ?thesis by (auto simp: Tpl2Strategies_def stras_of_def [of "[]"])
qed

lemma effective_sub: "s \<in> set (effective tpl2 b) \<Longrightarrow> \<exists>t \<in> set b. s \<in> set (stras_of tpl2 t)"
  by (induction b) auto

section \<open>Agents and plugins\<close>

text \<open>The key of an agent is its host name.\<close>

definition agents_ok :: "Hbs_state \<Rightarrow> bool" where
  "agents_ok st \<longleftrightarrow> gomap_ok (Agents st) \<and> (\<forall>k v. m_get (Agents st) k = Some v \<longrightarrow> ar_Hostname (au_ReportRequest v) = k)"

lemma Put_agents_ok: "agents_ok st \<Longrightarrow> agents_ok (SafeAgents_Put hosts now req st)"
  by (auto simp: agents_ok_def SafeAgents_Put_def Let_def)

lemma stale_agent_eq:
  assumes "agents_ok st" "m_get (Agents st) key = Some v"
  shows "stale_agent before st key = Some (if au_LastUpdate v < before then SafeAgents_Delete key st else st)"
  using assms by (auto simp: stale_agent_def SafeAgents_Get_def agents_ok_def)

lemma Delete_agents_ok: "agents_ok st \<Longrightarrow> agents_ok (SafeAgents_Delete key st)"
  by (auto simp: agents_ok_def SafeAgents_Delete_def)

lemma deleteStaleAgents_loop:
  assumes "agents_ok st" "distinct keys" "set keys \<subseteq> fst ` set (Agents st)"
  shows "\<exists>st'. foldM (stale_agent before) st keys = Some st' \<and> agents_ok st'
    \<and> (\<forall>k. m_get (Agents st') k = (case m_get (Agents st) k of None \<Rightarrow> None
        | Some v \<Rightarrow> if k \<in> set keys \<and> au_LastUpdate v < before then None else Some v))"
  using assms
proof (induction keys arbitrary: st)
  case Nil
  then show ?case by (auto split: option.split)
next
  case (Cons key keys)
  then obtain v where v: "m_get (Agents st) key = Some v" by (cases "m_get (Agents st) key") (auto simp: m_get_None_iff)
  define st1 where "st1 = (if au_LastUpdate v < before then SafeAgents_Delete key st else st)"
  have 1: "stale_agent before st key = Some st1" using stale_agent_eq [OF Cons.prems(1) v] by (simp add: st1_def)
  have get: "m_get (Agents st1) k = (if k = key \<and> au_LastUpdate v < before then None else m_get (Agents st) k)" for k
    by (simp add: st1_def SafeAgents_Delete_def)
  have ok: "agents_ok st1" using Cons.prems(1) by (simp add: st1_def Delete_agents_ok)
  have "set keys \<subseteq> fst ` set (Agents st1)"
  proof
    fix k
    assume "k \<in> set keys"
    then have "m_get (Agents st) k \<noteq> None" "k \<noteq> key" using Cons.prems(2,3) by (auto simp: m_get_None_iff)
    then have "m_get (Agents st1) k \<noteq> None" using get by simp
    then show "k \<in> fst ` set (Agents st1)" by (simp add: m_get_None_iff)
  qed
  from Cons.IH [OF ok _ this] Cons.prems(2) obtain st' where
    2: "foldM (stale_agent before) st1 keys = Some st'" "agents_ok st'"
    "\<forall>k. m_get (Agents st') k = (case m_get (Agents st1) k of None \<Rightarrow> None
        | Some v \<Rightarrow> if k \<in> set keys \<and> au_LastUpdate v < before then None else Some v)" by auto
  have "m_get (Agents st') k = (case m_get (Agents st) k of None \<Rightarrow> None
      | Some v \<Rightarrow> if k \<in> set (key # keys) \<and> au_LastUpdate v < before then None else Some v)" for k
    using 2(3) get [of k] v Cons.prems(2) by (cases "m_get (Agents st) k") auto
  with 1 2(1,2) show ?case by auto
qed

text \<open>The cleaner forgets exactly the agents that have not reported for a day, and does not panic.\<close>

lemma deleteStaleAgents_exact:
  assumes "agents_ok st"
  shows "\<exists>st'. deleteStaleAgents now st = Some st' \<and> agents_ok st'
    \<and> (\<forall>k. m_get (Agents st') k = (case m_get (Agents st) k of None \<Rightarrow> None
        | Some v \<Rightarrow> if au_LastUpdate v < now - 86400 then None else Some v))"
proof -
  have "distinct (SafeAgents_Keys st)" using assms by (simp add: agents_ok_def gomap_ok_def SafeAgents_Keys_def)
  moreover have "set (SafeAgents_Keys st) \<subseteq> fst ` set (Agents st)" by (simp add: SafeAgents_Keys_def)
  ultimately obtain st' where s: "foldM (stale_agent (now - 86400)) st (SafeAgents_Keys st) = Some st'" "agents_ok st'"
    "\<forall>k. m_get (Agents st') k = (case m_get (Agents st) k of None \<Rightarrow> None
        | Some v \<Rightarrow> if k \<in> set (SafeAgents_Keys st) \<and> au_LastUpdate v < now - 86400 then None else Some v)"
    using deleteStaleAgents_loop [OF assms] by blast
  have "k \<in> set (SafeAgents_Keys st)" if "m_get (Agents st) k = Some v" for k v
    using m_get_SomeD [OF that] by (force simp: SafeAgents_Keys_def)
  then have "\<forall>k. m_get (Agents st') k = (case m_get (Agents st) k of None \<Rightarrow> None
        | Some v \<Rightarrow> if au_LastUpdate v < now - 86400 then None else Some v)"
    using s(3) by (auto split: option.split)
  with s(1,2) show ?thesis by (auto simp: deleteStaleAgents_def)
qed

lemma add_plugins_keys:
  "gomap_ok d \<Longrightarrow> gomap_ok (foldl (add_plugins gp) d gids)
    \<and> fst ` set (foldl (add_plugins gp) d gids) = fst ` set d \<union> (\<Union>gid \<in> set gids. case m_get gp gid of None \<Rightarrow> {} | Some ps \<Rightarrow> set ps)"
proof (induction gids arbitrary: d)
  case (Cons gid gids)
  have p: "gomap_ok d \<Longrightarrow> gomap_ok (foldl (\<lambda>d p. m_set p () d) d ps)
      \<and> fst ` set (foldl (\<lambda>d p. m_set p () d) d ps) = fst ` set d \<union> set ps" for d :: "(string, unit) gomap" and ps
    by (induction ps arbitrary: d) auto
  show ?case
  proof (cases "m_get gp gid")
    case None
    with Cons show ?thesis by (simp add: add_plugins_def)
  next
    case (Some ps)
    with Cons.IH [OF conjunct1 [OF p [OF Cons.prems, of ps]]] p [OF Cons.prems, of ps] show ?thesis
      by (auto simp: add_plugins_def)
  qed
qed simp

text \<open>The plugins of a host: those of all its groups, sorted and without repetition.\<close>

lemma GetPlugins_exact:
  assumes "m_get (HostMap st) hostname = Some hid" "m_get (HostGroupsMap st) hid = Some gids"
  shows "sorted (GetPlugins st hostname) \<and> distinct (GetPlugins st hostname)
    \<and> set (GetPlugins st hostname) = (\<Union>gid \<in> set gids. case m_get (GroupPlugins st) gid of None \<Rightarrow> {} | Some ps \<Rightarrow> set ps)"
  using assms add_plugins_keys [of "[]" "GroupPlugins st" gids]
  by (auto simp: GetPlugins_def KeysOfMap_def gomap_ok_def)

section \<open>Properties\<close>

text \<open>C29: The ancestry of a template is the list of templates from its root to it, when that list ends and has fewer than ten
  templates; in every other case it is empty.\<close>

theorem parent_ids_chain:
  "(ids \<noteq> [] \<and> ParentIds tpls tid = ids) \<longleftrightarrow> (climbs tpls (rev ids) \<and> hd (rev ids) = tid \<and> length ids < 10)"
  by (rule ParentIds_climbs)


definition demo_tpls :: "(int, Template) gomap" where
  "demo_tpls = map (\<lambda>(i, p). (i, \<lparr> tp_Id = i, tp_Name = [], tp_ParentId = p, tp_ActionId = 1, tp_Creator = [] \<rparr>)) [(1, 0), (2, 1)]"

definition demo_hbs_strategy :: "int \<Rightarrow> int \<Rightarrow> Strategy" where
  "demo_hbs_strategy i t = \<lparr> st_Id = i, st_Metric = ''cpu.idle'', st_Tags = [], st_Func = ''all(#3)'', st_Operator = ''<'', st_RightValue = Num 5,
     st_MaxStep = 3, st_Priority = 0, st_Note = [], st_Tpl = m_get demo_tpls t \<rparr>"

definition demo_strategies :: "(int, Strategy) gomap" where
  "demo_strategies = [(10, demo_hbs_strategy 10 1), (20, demo_hbs_strategy 20 2)]"



text \<open>Reading an expression panics exactly when there is no closing parenthesis after the opening one; when the opening
  one is missing the text from the start is read.\<close>

theorem parse_expression_panics:
  "parseExpression ex = None \<longleftrightarrow> str_index ex (CHR '')'') \<le> str_index ex (CHR ''('')"
proof -
  have "-1 \<le> str_index ex c \<and> str_index ex c \<le> int (length ex)" for c
    by (simp add: str_index_def length_takeWhile_le)
  from this [of "CHR ''(''"] this [of "CHR '')''"] show ?thesis
    by (auto simp: parseExpression_def slice_sub_def Let_def)
qed

end
