(* ===== verification/Sdk.thy ===== *)
theory Sdk
  imports CommonModel Interfaces
begin

text \<open>
  The sender of \<open>common/sdk/sender\<close>, which nodata and the aggregator use to push points to the transfer: a queue
  that is filled at the front and emptied in batches from the back.
\<close>

record JsonMetaData =
  jm_Metric :: string
  jm_Endpoint :: string
  jm_Timestamp :: int
  jm_Step :: int
  jm_Value :: goval
  jm_CounterType :: string
  jm_Tags :: string

text \<open>The batches are logged as they are posted; an error of the post is only printed, the batch is gone either way.\<close>

record Sender_state =
  MetaDataQueue :: "JsonMetaData list"
  posted :: "JsonMetaData list list"

definition SDK_LIMIT :: int where "SDK_LIMIT = 200"

fun sdk_pop :: "nat \<Rightarrow> JsonMetaData list \<Rightarrow> JsonMetaData list \<Rightarrow> JsonMetaData list \<times> JsonMetaData list" where
  "sdk_pop 0 ret l = (ret, l)"
| "sdk_pop (Suc n) ret l = sdk_pop n (ret @ [last l]) (butlast l)"

text \<open>A negative limit makes the capacity of the result negative, which panics.\<close>

definition SdkList_PopBack :: "int \<Rightarrow> JsonMetaData list \<Rightarrow> (JsonMetaData list \<times> JsonMetaData list) go" where
  "SdkList_PopBack limit l =
     (let sz = int (length l) in
      if sz = 0 then Some ([], l)
      else let limit' = (if sz < limit then sz else limit) in
        if limit' < 0 then None else Some (sdk_pop (nat limit') [] l))"

definition SdkList_PushFront :: "JsonMetaData \<Rightarrow> JsonMetaData list \<Rightarrow> JsonMetaData list" where
  "SdkList_PushFront v l = v # l"

definition MakeMetaData :: "int \<Rightarrow> string \<Rightarrow> string \<Rightarrow> string \<Rightarrow> goval \<Rightarrow> string \<Rightarrow> int list \<Rightarrow> JsonMetaData" where
  "MakeMetaData now endpoint metric tags val counterType step_and_ts =
     (let md = \<lparr> jm_Metric = metric, jm_Endpoint = endpoint, jm_Timestamp = 0, jm_Step = 0, jm_Value = val,
                 jm_CounterType = counterType, jm_Tags = tags \<rparr> in
      case step_and_ts of
        [] \<Rightarrow> md\<lparr>jm_Step := 60, jm_Timestamp := now\<rparr>
      | [step] \<Rightarrow> md\<lparr>jm_Step := step, jm_Timestamp := now\<rparr>
      | [step, ts] \<Rightarrow> md\<lparr>jm_Step := step, jm_Timestamp := ts\<rparr>
      | _ \<Rightarrow> md)"

definition MakeGaugeValue :: "int \<Rightarrow> string \<Rightarrow> string \<Rightarrow> string \<Rightarrow> goval \<Rightarrow> int list \<Rightarrow> JsonMetaData" where
  "MakeGaugeValue now endpoint metric tags val step_and_ts = MakeMetaData now endpoint metric tags val ''GAUGE'' step_and_ts"

definition MakeCounterValue :: "int \<Rightarrow> string \<Rightarrow> string \<Rightarrow> string \<Rightarrow> goval \<Rightarrow> int list \<Rightarrow> JsonMetaData" where
  "MakeCounterValue now endpoint metric tags val step_and_ts = MakeMetaData now endpoint metric tags val ''COUNTER'' step_and_ts"

definition Sdk_Push :: "int \<Rightarrow> string \<Rightarrow> string \<Rightarrow> string \<Rightarrow> goval \<Rightarrow> string \<Rightarrow> int list \<Rightarrow> Sender_state \<Rightarrow> Sender_state" where
  "Sdk_Push now endpoint metric tags val counterType step_and_ts st =
     st\<lparr>MetaDataQueue := SdkList_PushFront (MakeMetaData now endpoint metric tags val counterType step_and_ts) (MetaDataQueue st)\<rparr>"

definition PushGauge :: "int \<Rightarrow> string \<Rightarrow> string \<Rightarrow> string \<Rightarrow> goval \<Rightarrow> int list \<Rightarrow> Sender_state \<Rightarrow> Sender_state" where
  "PushGauge now endpoint metric tags val step_and_ts st =
     st\<lparr>MetaDataQueue := SdkList_PushFront (MakeGaugeValue now endpoint metric tags val step_and_ts) (MetaDataQueue st)\<rparr>"

definition PushCounter :: "int \<Rightarrow> string \<Rightarrow> string \<Rightarrow> string \<Rightarrow> goval \<Rightarrow> int list \<Rightarrow> Sender_state \<Rightarrow> Sender_state" where
  "PushCounter now endpoint metric tags val step_and_ts st =
     st\<lparr>MetaDataQueue := SdkList_PushFront (MakeCounterValue now endpoint metric tags val step_and_ts) (MetaDataQueue st)\<rparr>"

definition startSender_round :: "Sender_state \<Rightarrow> Sender_state go" where
  "startSender_round st = do {
     (L, q) \<leftarrow> SdkList_PopBack SDK_LIMIT (MetaDataQueue st);
     Some (if length L = 0 then st else st\<lparr>MetaDataQueue := q, posted := posted st @ [L]\<rparr>) }"

section \<open>The queue is a FIFO\<close>

lemma sdk_pop_eq: "n \<le> length l \<Longrightarrow> sdk_pop n ret l = (ret @ take n (rev l), take (length l - n) l)"
proof (induction n arbitrary: ret l)
  case (Suc n)
  then obtain l' x where l: "l = l' @ [x]" by (cases l rule: rev_cases) auto
  with Suc show ?case by simp
qed simp

lemma SdkList_PopBack_eq:
  "0 \<le> limit \<Longrightarrow> SdkList_PopBack limit l = Some (take (nat limit) (rev l), take (length l - nat limit) l)"
  by (auto simp: SdkList_PopBack_def Let_def sdk_pop_eq nat_le_iff)

text \<open>Nothing is lost, repeated or overtaken between the queue and the posts.\<close>

lemma startSender_round_fifo:
  "\<exists>st'. startSender_round st = Some st'
    \<and> concat (posted st') @ rev (MetaDataQueue st') = concat (posted st) @ rev (MetaDataQueue st)
    \<and> length (MetaDataQueue st') = length (MetaDataQueue st) - 200"
proof -
  let ?q = "MetaDataQueue st"
  have "take 200 (rev ?q) @ rev (take (length ?q - 200) ?q) = rev ?q"
    by (metis append_take_drop_id rev_append take_rev)
  then show ?thesis
    by (auto simp: startSender_round_def SdkList_PopBack_eq SDK_LIMIT_def)
qed

interpretation sdkq: fifo_buffer rev SdkList_PushFront
  "\<lambda>q. case SdkList_PopBack 1 q of Some (x # _, q') \<Rightarrow> (Some x, q') | _ \<Rightarrow> (None, q)"
proof
  fix q :: "JsonMetaData list" and x xs
  assume "rev q = x # xs"
  then have "q = rev xs @ [x]" by (simp add: rev_swap)
  then show "\<exists>q'. (case SdkList_PopBack 1 q of Some (x # _, q') \<Rightarrow> (Some x, q') | _ \<Rightarrow> (None, q)) = (Some x, q') \<and> rev q' = xs"
    by (simp add: SdkList_PopBack_eq)
qed (simp_all add: SdkList_PushFront_def SdkList_PopBack_def)

end
