(* ===== verification/Aggregator.thy ===== *)
theory Aggregator
  imports Sdk Hbs
begin

text \<open>
  The aggregator: reading the cluster items, starting and dropping their workers, and one run of a worker, which
  parses two expressions over counters, evaluates them on every host of a group and pushes the quotient of
  the sums.  The regular expressions of the source are deterministic and are written as recognisers; the
  replies of the API are arguments.  The last part proves that no run panics.
\<close>

section \<open>Expressions\<close>

definition cleanParam :: "string \<Rightarrow> string" where
  "cleanParam val =
     str_remove (CHR 0x09) (str_remove (CHR 0x0A) (str_remove (CHR 0x0D) (str_remove blank (str_trim_space val))))"

definition needCompute :: "string \<Rightarrow> bool" where
  "needCompute val = str_contains val ''$(''"

text \<open>\<open>$\<close>, an opening parenthesis, a name without parentheses, a closing one: the name and what follows.\<close>

definition paren :: "char \<Rightarrow> bool" where
  "paren c \<longleftrightarrow> c = CHR ''('' \<or> c = CHR '')''"

definition read_term :: "string \<Rightarrow> (string \<times> string) option" where
  "read_term s =
     (if take 2 s = ''$('' then
        let name = takeWhile (\<lambda>c. \<not> paren c) (drop 2 s); rest = dropWhile (\<lambda>c. \<not> paren c) (drop 2 s) in
        if name \<noteq> [] \<and> rest \<noteq> [] \<and> hd rest = CHR '')'' then Some (name, tl rest) else None
      else None)"

lemma read_term_length: "read_term s = Some (name, rest) \<Longrightarrow> length rest < length s"
proof -
  assume "read_term s = Some (name, rest)"
  then have "rest = tl (dropWhile (\<lambda>c. \<not> paren c) (drop 2 s))" "2 \<le> length s"
    by (auto simp: read_term_def Let_def split: if_splits) (metis One_nat_def Suc_1 length_Cons length_take list.size(3) min.cobounded1)
  then show ?thesis using length_dropWhile_le [of "\<lambda>c. \<not> paren c" "drop 2 s"] by simp
qed

text \<open>\<open>(term[+-])*term\<close>: what follows the last term.\<close>

function read_sum :: "string \<Rightarrow> string option" where
  "read_sum s =
     (case read_term s of
        None \<Rightarrow> None
      | Some (name, rest) \<Rightarrow>
          if rest \<noteq> [] \<and> (hd rest = CHR ''+'' \<or> hd rest = CHR ''-'') then read_sum (tl rest) else Some rest)"
  by pat_completeness auto
termination
  by (relation "measure length") (auto dest!: read_term_length)

declare read_sum.simps [simp del]

text \<open>\<open>\d+\<close> and \<open>\d+(\.\d+)?\<close>, whole strings.\<close>

definition all_digits :: "string \<Rightarrow> bool" where
  "all_digits s \<longleftrightarrow> s \<noteq> [] \<and> list_all is_dec s"

definition decimal :: "string \<Rightarrow> bool" where
  "decimal s \<longleftrightarrow>
     (let ip = takeWhile is_dec s; r = dropWhile is_dec s in ip \<noteq> [] \<and> (r = [] \<or> hd r = CHR ''.'' \<and> all_digits (tl r)))"

text \<open>\<open>(>|=|<|>=|<=)\d+(\.\d+)?\<close>.\<close>

definition comparison :: "string \<Rightarrow> bool" where
  "comparison s \<longleftrightarrow> list_ex (\<lambda>mode. prefix mode s \<and> decimal (drop (length mode) s)) [''>'', ''='', ''<'', ''>='', ''<='']"

definition matchMode0 :: "string \<Rightarrow> bool" where
  "matchMode0 val \<longleftrightarrow> read_sum val = Some []"

definition matchMode1 :: "string \<Rightarrow> bool" where
  "matchMode1 val \<longleftrightarrow> (case read_term val of None \<Rightarrow> False | Some (name, rest) \<Rightarrow> comparison rest)"

definition matchMode2 :: "string \<Rightarrow> bool" where
  "matchMode2 val \<longleftrightarrow>
     val \<noteq> [] \<and> hd val = CHR ''('' \<and>
     (case read_sum (tl val) of
        None \<Rightarrow> False
      | Some rest \<Rightarrow> rest \<noteq> [] \<and> hd rest = CHR '')'' \<and> comparison (tl rest))"

text \<open>The full-width parentheses are the bytes \<open>EF BC 88\<close> and \<open>EF BC 89\<close>.\<close>

definition expressionValid :: "string \<Rightarrow> bool" where
  "expressionValid val =
     (if str_contains val [CHR 0xEF, CHR 0xBC, CHR 0x88] \<or> str_contains val [CHR 0xEF, CHR 0xBC, CHR 0x89] then False
      else if val = ''$#'' then True
      else if matchMode0 val then True
      else if matchMode1 val then True
      else if matchMode2 val then True
      else all_digits val)"

text \<open>\<open>regexp.Split\<close> at the maximal runs of \<open>$\<close> and parentheses.\<close>

definition sep :: "char \<Rightarrow> bool" where
  "sep c \<longleftrightarrow> c = CHR ''$'' \<or> paren c"

function split_runs :: "string \<Rightarrow> string list" where
  "split_runs s =
     (let a = takeWhile (\<lambda>c. \<not> sep c) s; r = dropWhile (\<lambda>c. \<not> sep c) s in
      if r = [] then [a] else a # split_runs (dropWhile sep r))"
  by pat_completeness auto
termination
proof (relation "measure length")
  fix s :: string and a r
  assume r: "r = dropWhile (\<lambda>c. \<not> sep c) s" "r \<noteq> []"
  then have "sep (hd r)" using hd_dropWhile [of "\<lambda>c. \<not> sep c" s] by simp
  then have "length (dropWhile sep r) < length r"
    using r(2) length_dropWhile_le [of sep "tl r"] by (cases r) auto
  also have "length r \<le> length s" unfolding r(1) by (rule length_dropWhile_le)
  finally show "(dropWhile sep r, s) \<in> measure length" by simp
qed simp

declare split_runs.simps [simp del]

fun alternate :: "string list \<Rightarrow> string list \<times> string list" where
  "alternate [] = ([], [])"
| "alternate [x] = ([x], [])"
| "alternate (x # y # zs) = (let (operands, operators) = alternate zs in (x # operands, y # operators))"

definition parse :: "string \<Rightarrow> bool \<Rightarrow> (string list \<times> string list \<times> string) go" where
  "parse expression need =
     (if \<not> need then Some ([], [], [])
      else let items = split_runs expression; count = int (length items) in do {
        inner \<leftarrow> slice_sub items 1 (count - 1);
        computeMode \<leftarrow> slice_get items (count - 1);
        let (operands, operators) = alternate inner in
        Some (operands, operators, computeMode) })"

definition operatorsValid :: "string list \<Rightarrow> bool" where
  "operatorsValid ops = list_all (\<lambda>x. x = ''+'' \<or> x = ''-'') ops"

section \<open>Evaluation\<close>

definition queryOperands :: "string list \<Rightarrow> string \<Rightarrow> (string, f64) gomap \<Rightarrow> f64 list" where
  "queryOperands counters endpoint valMap = List.map_filter (\<lambda>counter. m_get valMap (endpoint @ counter)) counters"

text \<open>\<open>([><=]+)([\d\.]+)\<close>, the first match.\<close>

definition is_cmp :: "char \<Rightarrow> bool" where
  "is_cmp c \<longleftrightarrow> c = CHR ''>'' \<or> c = CHR ''<'' \<or> c = CHR ''=''"

function find_cmp :: "string \<Rightarrow> (string \<times> string) option" where
  "find_cmp s =
     (let r = dropWhile (\<lambda>c. \<not> is_cmp c) s; mode = takeWhile is_cmp r; t = dropWhile is_cmp r;
          num = takeWhile (\<lambda>c. is_dec c \<or> c = CHR ''.'') t in
      if r = [] then None else if num \<noteq> [] then Some (mode, num) else find_cmp t)"
  by pat_completeness auto
termination
proof (relation "measure length")
  fix s :: string and r mode t num
  assume r: "r = dropWhile (\<lambda>c. \<not> is_cmp c) s" "t = dropWhile is_cmp r" "r \<noteq> []"
  then have "is_cmp (hd r)" using hd_dropWhile [of "\<lambda>c. \<not> is_cmp c" s] by simp
  then have "length t < length r" unfolding r(2) using r(3) length_dropWhile_le [of is_cmp "tl r"] by (cases r) auto
  also have "length r \<le> length s" unfolding r(1) by (rule length_dropWhile_le)
  finally show "(t, s) \<in> measure length" by simp
qed simp

declare find_cmp.simps [simp del]

text \<open>The error of \<open>ParseFloat\<close> is dropped: the value is zero, or infinite when out of range.\<close>

definition compareSum :: "f64 \<Rightarrow> string \<Rightarrow> bool go" where
  "compareSum acc computeMode =
     (case find_cmp computeMode of
        None \<Rightarrow> None
      | Some (mode, num) \<Rightarrow>
          let val = (case ParseFloat num of
                Inr v \<Rightarrow> v | Inl err \<Rightarrow> if err = ''value out of range'' then Infty False else Zero False) in
          Some (mode = ''>'' \<and> f_gt acc val \<or> mode = ''<'' \<and> f_lt acc val \<or> mode = ''='' \<and> f_eq acc val
                \<or> mode = ''>='' \<and> f_ge acc val \<or> mode = ''<='' \<and> f_le acc val))"

fun sum_vals :: "f64 \<Rightarrow> string list \<Rightarrow> f64 list \<Rightarrow> f64 go" where
  "sum_vals acc operators [] = Some acc"
| "sum_vals acc [] (v # vs) = None"
| "sum_vals acc (operator # operators) (v # vs) =
     sum_vals (if operator = ''+'' then f_add acc v else f_sub acc v) operators vs"

definition compute :: "string list \<Rightarrow> string list \<Rightarrow> string \<Rightarrow> string \<Rightarrow> (string, f64) gomap \<Rightarrow> (goerror + f64) go" where
  "compute operands operators computeMode hostname valMap =
     (let count = length operands in
      if count = 0 then Some (Inl ''counter not found'')
      else let vals = queryOperands operands hostname valMap in
        if length vals \<noteq> count then Some (Inl ''value invalid'')
        else do {
          v0 \<leftarrow> slice_get vals 0;
          acc \<leftarrow> sum_vals v0 operators (drop 1 vals);
          if computeMode \<noteq> [] then do {
            b \<leftarrow> compareSum acc computeMode;
            Some (Inr (if b then f_of_int 1 else Zero False)) }
          else Some (Inr acc) })"

section \<open>A run of a worker\<close>

record Cluster =
  cl_Id :: int
  cl_GroupId :: int
  cl_Numerator :: string
  cl_Denominator :: string
  cl_Endpoint :: string
  cl_Metric :: string
  cl_Tags :: string
  cl_DsType :: string
  cl_Step :: int
  cl_LastUpdate :: string

text \<open>A host of the group with its maintenance window.\<close>

definition HostnamesByID :: "int \<Rightarrow> goerror + (string \<times> int \<times> int) list \<Rightarrow> goerror + string list" where
  "HostnamesByID nowTs resp =
     (case resp of
        Inl err \<Rightarrow> Inl err
      | Inr hosts \<Rightarrow> Inr (map fst (filter (\<lambda>(h, b, e). \<not> (b \<le> nowTs \<and> nowTs \<le> e)) hosts)))"

text \<open>A point of the reply: endpoint, counter and value; the entry and the value are pointers.\<close>

type_synonym last_point = "(string \<times> string \<times> RRDData option) option"

definition last_point_body :: "string list \<Rightarrow> string list \<Rightarrow> (string \<times> string) list" where
  "last_point_body endpoints counters = concat (map (\<lambda>e. map (\<lambda>c. (e, c)) counters) endpoints)"

definition counter_point :: "int \<Rightarrow> int \<Rightarrow> (string, f64) gomap \<Rightarrow> last_point \<Rightarrow> (string, f64) gomap go" where
  "counter_point begin_ts end_ts ret p = do {
     (endpoint, counter, value) \<leftarrow> p;
     v \<leftarrow> value;
     Some (if rd_Timestamp v < begin_ts \<or> rd_Timestamp v > end_ts then ret
           else m_set (endpoint @ counter) (rd_Value v) ret) }"

definition queryCounterLast ::
  "((string \<times> string) list \<Rightarrow> goerror + last_point list) \<Rightarrow> string list \<Rightarrow> string list \<Rightarrow> string list \<Rightarrow> int \<Rightarrow> int
     \<Rightarrow> (goerror + (string, f64) gomap) go" where
  "queryCounterLast api numeratorOperands denominatorOperands hostnames begin_ts end_ts =
     (case api (last_point_body hostnames (numeratorOperands @ denominatorOperands)) of
        Inl err \<Rightarrow> Some (Inl err)
      | Inr resp \<Rightarrow> do { ret \<leftarrow> foldM (counter_point begin_ts end_ts) [] resp; Some (Inr ret) })"

text \<open>One host: its two values are added and it is counted, unless one of them cannot be computed.\<close>

definition worker_host ::
  "bool \<Rightarrow> (string list \<times> string list \<times> string) \<Rightarrow> bool \<Rightarrow> (string list \<times> string list \<times> string) \<Rightarrow> (string, f64) gomap
     \<Rightarrow> f64 \<times> f64 \<times> int \<Rightarrow> string \<Rightarrow> (f64 \<times> f64 \<times> int) go" where
  "worker_host needN pn needD pd valueMap = (\<lambda>(numerator, denominator, validCount) hostname. do {
     rn \<leftarrow> (if needN then compute (fst pn) (fst (snd pn)) (snd (snd pn)) hostname valueMap else Some (Inr (Zero False)));
     case rn of
       Inl err \<Rightarrow> Some (numerator, denominator, validCount)
     | Inr numeratorVal \<Rightarrow> do {
         rd \<leftarrow> (if needD then compute (fst pd) (fst (snd pd)) (snd (snd pd)) hostname valueMap else Some (Inr (Zero False)));
         case rd of
           Inl err \<Rightarrow> Some (numerator, denominator, validCount)
         | Inr denominatorVal \<Rightarrow>
             Some (f_add numerator numeratorVal, f_add denominator denominatorVal, validCount + 1) } })"

definition literal_value :: "bool \<Rightarrow> string \<Rightarrow> f64 \<Rightarrow> int \<Rightarrow> goerror + f64" where
  "literal_value need text acc validCount =
     (if need then Inr acc else if text = ''$#'' then Inr (f_of_int validCount) else ParseFloat text)"

definition WorkerRun ::
  "int \<Rightarrow> (int \<Rightarrow> goerror + (string \<times> int \<times> int) list) \<Rightarrow> ((string \<times> string) list \<Rightarrow> goerror + last_point list) \<Rightarrow> Cluster
     \<Rightarrow> Sender_state \<Rightarrow> Sender_state go" where
  "WorkerRun now hostgroup api item st =
     (let numeratorStr = cleanParam (cl_Numerator item); denominatorStr = cleanParam (cl_Denominator item) in
      if \<not> expressionValid numeratorStr \<or> \<not> expressionValid denominatorStr then Some st
      else
        let needN = needCompute numeratorStr; needD = needCompute denominatorStr in
        if \<not> needN \<and> \<not> needD then Some st
        else do {
          pn \<leftarrow> parse numeratorStr needN;
          pd \<leftarrow> parse denominatorStr needD;
          if \<not> operatorsValid (fst (snd pn)) \<or> \<not> operatorsValid (fst (snd pd)) then Some st
          else case HostnamesByID now (hostgroup (cl_GroupId item)) of
            Inl err \<Rightarrow> Some st
          | Inr hostnames \<Rightarrow>
              if length hostnames = 0 then Some st
              else do {
                r \<leftarrow> queryCounterLast api (fst pn) (fst pd) hostnames (now - cl_Step item * 2) now;
                case r of
                  Inl err \<Rightarrow> Some st
                | Inr valueMap \<Rightarrow> do {
                    (numeratorSum, denominatorSum, validCount) \<leftarrow>
                      foldM (worker_host needN pn needD pd valueMap) (Zero False, Zero False, 0) hostnames;
                    case literal_value needN numeratorStr numeratorSum validCount of
                      Inl err \<Rightarrow> Some st
                    | Inr numerator \<Rightarrow>
                        (case literal_value needD denominatorStr denominatorSum validCount of
                           Inl err \<Rightarrow> Some st
                         | Inr denominator \<Rightarrow>
                             if f_eq denominator (Zero False) then Some st
                             else if validCount = 0 then Some st
                             else Some (Sdk_Push now (cl_Endpoint item) (cl_Metric item) (cl_Tags item)
                               (VFloat (f_div numerator denominator)) (cl_DsType item) [cl_Step item] st)) } } })"

section \<open>Workers\<close>

datatype worker_event = Started string | Dropped string

record Aggregator_state =
  Workers :: "(string, Cluster) gomap"
  worker_log :: "worker_event list"

text \<open>The interval of identifiers in the statement; \<open>-1\<close> leaves an end open.\<close>

definition ReadCluster_sql :: "int \<Rightarrow> int \<Rightarrow> string" where
  "ReadCluster_sql lo hi =
     (let b = CHR 0x60; q = (\<lambda>s. b # s @ [b]);
          sql = ''SELECT '' @ concat (map (\<lambda>s. q s @ '', '') [''id'', ''grp_id'', ''numerator'', ''denominator'', ''endpoint'', ''metric'',
            ''tags'', ''ds_type'', ''step'']) @ q ''last_update'' @ '' FROM '' @ q ''cluster'' in
      if lo \<noteq> -1 \<and> hi \<noteq> -1 then sql @ '' WHERE '' @ q ''id'' @ '' >= '' @ Itoa lo @ '' and '' @ q ''id'' @ '' <= '' @ Itoa hi
      else if lo \<noteq> -1 then sql @ '' WHERE '' @ q ''id'' @ '' >= '' @ Itoa lo
      else if hi \<noteq> -1 then sql @ '' WHERE '' @ q ''id'' @ '' <= '' @ Itoa hi
      else sql)"

text \<open>The error returned is that of the last row: a row that does not scan is skipped, but a last one makes the whole result an error.\<close>

definition ReadClusterMonitorItems :: "Cluster rows \<Rightarrow> (string, Cluster) gomap \<times> bool" where
  "ReadClusterMonitorItems rows =
     (case rows of
        Inl err \<Rightarrow> ([], True)
      | Inr rs \<Rightarrow> foldl (\<lambda>(M, failed) r. case r of
            None \<Rightarrow> (M, True)
          | Some c \<Rightarrow> (m_set (Itoa (cl_Id c) @ cl_LastUpdate c) c M, False)) ([], False) rs)"

definition deleteNoUseWorker :: "(string, Cluster) gomap \<Rightarrow> Aggregator_state \<Rightarrow> Aggregator_state" where
  "deleteNoUseWorker m st =
     (let del = filter (\<lambda>key. m_get m key = None) (map fst (Workers st)) in
      st\<lparr>Workers := foldl (\<lambda>w key. m_del key w) (Workers st) del, worker_log := worker_log st @ map Dropped del\<rparr>)"

definition create_worker :: "Aggregator_state \<Rightarrow> string \<times> Cluster \<Rightarrow> Aggregator_state" where
  "create_worker st = (\<lambda>(key, item).
     if m_get (Workers st) key \<noteq> None \<or> cl_Step item \<le> 0 then st
     else st\<lparr>Workers := m_set key item (Workers st), worker_log := worker_log st @ [Started key]\<rparr>)"

definition createWorkerIfNeed :: "(string, Cluster) gomap \<Rightarrow> Aggregator_state \<Rightarrow> Aggregator_state" where
  "createWorkerIfNeed m st = foldl create_worker st m"

definition updateItems :: "Cluster rows \<Rightarrow> Aggregator_state \<Rightarrow> Aggregator_state" where
  "updateItems rows st =
     (let (items, failed) = ReadClusterMonitorItems rows in
      if failed then st else createWorkerIfNeed items (deleteNoUseWorker items st))"

end
