(* ===== verification/AggregatorProps.thy ===== *)
theory AggregatorProps
  imports Aggregator
begin

text \<open>
  A run of an aggregator worker never panics on a reply without null entries, although the code indexes the pieces
  of the expressions without looking: the check of the expressions is what makes the indices valid.  The
  workers that run after a round are exactly those of the cluster items.
\<close>

section \<open>Splitting an expression\<close>

lemma suffix_dropWhile_keep:
  "suffix (c # t) s \<Longrightarrow> \<not> P c \<Longrightarrow> suffix (c # t) (dropWhile P s)"
proof (induction s)
  case (Cons x s)
  then show ?case by (cases "c # t = x # s") (auto simp: suffix_Cons)
qed simp

lemma suffix_dropWhile_run:
  assumes "suffix (c # t) r" "sep c" "\<forall>x \<in> set t. \<not> sep x"
  shows "suffix (c # t) (dropWhile sep r) \<or> dropWhile sep r = t"
  using assms(1)
proof (induction r)
  case (Cons x r)
  show ?case
  proof (cases "c # t = x # r")
    case True
    then show ?thesis using assms(2,3) by (cases t) auto
  next
    case False
    then have "suffix (c # t) r" using Cons.prems by (auto simp: suffix_Cons)
    then show ?thesis using Cons by (cases "sep x") auto
  qed
qed simp

lemma split_runs_free: "\<forall>x \<in> set t. \<not> sep x \<Longrightarrow> split_runs t = [t]"
  by (subst split_runs.simps) (simp add: Let_def)

lemma split_runs_last:
  assumes "suffix (c # t) s" "sep c" "\<forall>x \<in> set t. \<not> sep x"
  shows "last (split_runs s) = t \<and> 2 \<le> length (split_runs s)"
  using assms(1)
proof (induction s rule: split_runs.induct)
  case (1 s)
  let ?r = "dropWhile (\<lambda>c. \<not> sep c) s"
  have r: "suffix (c # t) ?r" using suffix_dropWhile_keep [OF 1(2)] assms(2) by simp
  have ne: "?r \<noteq> []"
  proof
    assume "?r = []"
    then have "suffix (c # t) []" using r by (simp only:)
    then show False by simp
  qed
  have e: "split_runs s = takeWhile (\<lambda>c. \<not> sep c) s # split_runs (dropWhile sep ?r)"
    unfolding split_runs.simps [of s] Let_def if_not_P [OF ne] ..
  from suffix_dropWhile_run [OF r assms(2,3)] show ?case
  proof
    assume "suffix (c # t) (dropWhile sep ?r)"
    from 1(1) [OF refl refl ne this] show ?thesis unfolding e by auto
  next
    assume "dropWhile sep ?r = t"
    then show ?thesis unfolding e using split_runs_free [OF assms(3)] by simp
  qed
qed

lemma read_term_suffix: "read_term s = Some (name, rest) \<Longrightarrow> suffix (CHR '')'' # rest) s"
proof -
  assume a: "read_term s = Some (name, rest)"
  define d where "d = dropWhile (\<lambda>c. \<not> paren c) (drop 2 s)"
  from a have "d \<noteq> [] \<and> hd d = CHR '')'' \<and> rest = tl d"
    unfolding read_term_def Let_def d_def [symmetric] by (simp split: if_splits)
  then have "d = CHR '')'' # rest" by (cases d) auto
  moreover have "suffix d (drop 2 s)" unfolding d_def by (rule suffix_dropWhile)
  ultimately show ?thesis using suffix_drop [of 2 s] suffix_order.trans by metis
qed

lemma read_sum_suffix: "read_sum s = Some rest \<Longrightarrow> suffix (CHR '')'' # rest) s"
proof (induction s rule: read_sum.induct)
  case (1 s)
  from 1(2) obtain name r where t: "read_term s = Some (name, r)"
    by (subst (asm) read_sum.simps) (auto split: option.splits)
  show ?case
  proof (cases "r \<noteq> [] \<and> (hd r = CHR ''+'' \<or> hd r = CHR ''-'')")
    case True
    then have "read_sum (tl r) = Some rest" using 1(2) t by (subst (asm) read_sum.simps) simp
    from 1(1) [OF t refl True this] have "suffix (CHR '')'' # rest) (tl r)" .
    moreover have "suffix (tl r) r" "suffix r s" using suffix_ConsD [OF read_term_suffix [OF t]] by simp_all
    ultimately show ?thesis using suffix_order.trans by blast
  next
    case False
    then have "r = rest" using 1(2) t by (subst (asm) read_sum.simps) (auto split: if_splits)
    with read_term_suffix [OF t] show ?thesis by simp
  qed
qed

section \<open>Comparisons\<close>

lemma decimal_chars:
  assumes "decimal s"
  shows "s \<noteq> []" "is_dec (hd s)" "\<forall>c \<in> set s. is_dec c \<or> c = CHR ''.''"
proof -
  let ?ip = "takeWhile is_dec s" and ?r = "dropWhile is_dec s"
  have d: "?ip \<noteq> []" "?r = [] \<or> hd ?r = CHR ''.'' \<and> all_digits (tl ?r)" using assms by (auto simp: decimal_def Let_def)
  show "s \<noteq> []" using d(1) by auto
  then show "is_dec (hd s)" using d(1) by (cases s) (auto split: if_splits)
  have "\<forall>c \<in> set ?r. is_dec c \<or> c = CHR ''.''"
  proof (cases ?r)
    case (Cons c r)
    with d(2) have "c = CHR ''.''" "all_digits r" by auto
    then show ?thesis unfolding Cons by (auto simp: all_digits_def list_all_iff)
  qed (simp only: list.set empty_iff ball_simps simp_thms)
  moreover have "\<forall>c \<in> set ?ip. is_dec c" by (auto dest: set_takeWhileD)
  ultimately have "\<forall>c \<in> set (?ip @ ?r). is_dec c \<or> c = CHR ''.''" unfolding set_append by blast
  then show "\<forall>c \<in> set s. is_dec c \<or> c = CHR ''.''" unfolding takeWhile_dropWhile_id .
qed

lemma number_char: "is_dec c \<or> c = CHR ''.'' \<Longrightarrow> \<not> sep c \<and> \<not> is_cmp c"
  by (auto simp: is_dec_def sep_def paren_def is_cmp_def)

lemma comparison_ok:
  assumes "comparison s"
  shows "\<forall>c \<in> set s. \<not> sep c" "\<exists>p. find_cmp s = Some p"
proof -
  from assms obtain mode where m: "mode \<in> set [''>'', ''='', ''<'', ''>='', ''<='']" "prefix mode s" "decimal (drop (length mode) s)"
    unfolding comparison_def list_ex_iff by blast
  from m(2,3) obtain d where s: "s = mode @ d" "decimal d" by (auto simp: prefix_def)
  note d = decimal_chars [OF s(2)]
  have mc: "mode \<noteq> []" "\<forall>c \<in> set mode. is_cmp c \<and> \<not> sep c" using m(1) by (auto simp: is_cmp_def sep_def paren_def)
  show "\<forall>c \<in> set s. \<not> sep c" using mc(2) d(3) number_char s(1) by auto
  have "dropWhile (\<lambda>c. \<not> is_cmp c) s = s" using mc s(1) by (cases mode) auto
  moreover have "\<not> is_cmp (hd d)" using d(1,3) number_char by (cases d) auto
  then have "takeWhile is_cmp d = []" "dropWhile is_cmp d = d" using d(1) by (cases d; simp)+
  then have "takeWhile is_cmp s = mode" "dropWhile is_cmp s = d"
    using mc(2) by (simp_all add: s(1) takeWhile_append2 dropWhile_append2)
  moreover have "takeWhile (\<lambda>c. is_dec c \<or> c = CHR ''.'') d \<noteq> []" using d(1,2) by (cases d) auto
  moreover have "s \<noteq> []" using s(1) mc(1) by simp
  ultimately show "\<exists>p. find_cmp s = Some p" by (subst find_cmp.simps) (simp add: Let_def)
qed

section \<open>Parsing a valid expression\<close>

lemma alternate_length: "alternate xs = (operands, operators) \<Longrightarrow> length operands \<le> length operators + 1"
  by (induction xs arbitrary: operands operators rule: alternate.induct) (auto split: prod.splits)

lemma parse_suffix:
  assumes "suffix (c # t) s" "sep c" "\<forall>x \<in> set t. \<not> sep x"
  shows "\<exists>operands operators. parse s True = Some (operands, operators, t) \<and> length operands \<le> length operators + 1"
proof -
  let ?items = "split_runs s"
  have l: "last ?items = t" "2 \<le> length ?items" using split_runs_last [OF assms] by auto
  then have "?items \<noteq> []" by auto
  then have g: "slice_get ?items (int (length ?items) - 1) = Some t"
    using l by (simp add: slice_get_def last_conv_nth nat_diff_distrib')
  obtain inner where i: "slice_sub ?items 1 (int (length ?items) - 1) = Some inner" using l(2) by (simp add: slice_sub_def)
  obtain operands operators where a: "alternate inner = (operands, operators)" by fastforce
  from g i a alternate_length [OF a] show ?thesis by (simp add: parse_def Let_def)
qed

lemma parse_valid:
  assumes "expressionValid s" "needCompute s"
  shows "\<exists>operands operators mode. parse s True = Some (operands, operators, mode)
    \<and> length operands \<le> length operators + 1 \<and> (mode = [] \<or> (\<exists>p. find_cmp mode = Some p))"
proof -
  have "CHR ''$'' \<in> set s" "CHR ''('' \<in> set s"
    using assms(2) by (auto simp: needCompute_def str_contains_def dest: set_mono_sublist)
  moreover have "\<not> is_dec (CHR ''$'')" by (simp add: is_dec_def)
  ultimately have nd: "\<not> all_digits s" "s \<noteq> ''$#''" unfolding all_digits_def list_all_iff by auto
  have close: "sep (CHR '')'')" by (simp add: sep_def paren_def)
  have "\<exists>t. suffix (CHR '')'' # t) s \<and> (t = [] \<or> comparison t)"
  proof -
    consider (0) "matchMode0 s" | (1) "matchMode1 s" | (2) "matchMode2 s"
      using assms(1) nd by (auto simp: expressionValid_def split: if_splits)
    then show ?thesis
    proof cases
      case 0
      then show ?thesis using read_sum_suffix by (auto simp: matchMode0_def)
    next
      case 1
      then obtain name rest where "read_term s = Some (name, rest)" "comparison rest"
        by (auto simp: matchMode1_def split: option.splits)
      then show ?thesis using read_term_suffix by blast
    next
      case 2
      then obtain rest where r: "read_sum (tl s) = Some rest" "rest \<noteq> []" "hd rest = CHR '')''" "comparison (tl rest)"
        by (auto simp: matchMode2_def split: option.splits)
      then have "suffix rest (tl s)" using suffix_ConsD [OF read_sum_suffix [OF r(1)]] by simp
      then have "suffix rest s" using suffix_tl suffix_order.trans by blast
      moreover have "rest = CHR '')'' # tl rest" using r(2,3) by (cases rest) auto
      ultimately show ?thesis using r(4) by metis
    qed
  qed
  then obtain t where t: "suffix (CHR '')'' # t) s" "t = [] \<or> comparison t" by blast
  then have "\<forall>x \<in> set t. \<not> sep x" using comparison_ok(1) by auto
  from parse_suffix [OF t(1) close this] t(2) comparison_ok(2) show ?thesis by blast
qed

section \<open>Evaluation does not panic\<close>

lemma sum_vals_total: "length vs \<le> length operators \<Longrightarrow> \<exists>x. sum_vals v operators vs = Some x"
  by (induction v operators vs rule: sum_vals.induct) auto

definition parsed_ok :: "string list \<times> string list \<times> string \<Rightarrow> bool" where
  "parsed_ok p \<longleftrightarrow> length (fst p) \<le> length (fst (snd p)) + 1 \<and> (snd (snd p) = [] \<or> (\<exists>q. find_cmp (snd (snd p)) = Some q))"

lemma compute_total:
  assumes "parsed_ok p"
  shows "\<exists>r. compute (fst p) (fst (snd p)) (snd (snd p)) hostname valMap = Some r"
proof (cases "fst p = [] \<or> length (queryOperands (fst p) hostname valMap) \<noteq> length (fst p)")
  case True
  then show ?thesis by (auto simp: compute_def Let_def)
next
  case False
  let ?vals = "queryOperands (fst p) hostname valMap"
  have "?vals \<noteq> []" using False by auto
  have "length (drop 1 ?vals) \<le> length (fst (snd p))" using False assms unfolding parsed_ok_def by auto
  from sum_vals_total [OF this, of "hd ?vals"] obtain x where x: "sum_vals (hd ?vals) (fst (snd p)) (drop 1 ?vals) = Some x" by blast
  have "\<exists>b. compareSum x (snd (snd p)) = Some b" if "snd (snd p) \<noteq> []"
    using that assms by (auto simp: parsed_ok_def compareSum_def Let_def)
  with x False \<open>?vals \<noteq> []\<close> show ?thesis by (auto simp: compute_def Let_def)
qed

lemma worker_host_total:
  assumes "needN \<Longrightarrow> parsed_ok pn" "needD \<Longrightarrow> parsed_ok pd"
  shows "\<exists>r. worker_host needN pn needD pd valueMap acc hostname = Some r"
proof -
  obtain n d c where acc: "acc = (n, d, c)" by (cases acc)
  have "\<exists>r. (if needN then compute (fst pn) (fst (snd pn)) (snd (snd pn)) hostname valueMap else Some (Inr (Zero False))) = Some r"
    "\<exists>r. (if needD then compute (fst pd) (fst (snd pd)) (snd (snd pd)) hostname valueMap else Some (Inr (Zero False))) = Some r"
    using compute_total [OF assms(1)] compute_total [OF assms(2)] by auto
  then show ?thesis by (auto simp: worker_host_def acc split: sum.split)
qed

text \<open>The entries of a reply without null pointers.\<close>

definition full_reply :: "last_point list \<Rightarrow> bool" where
  "full_reply resp \<longleftrightarrow> list_all (\<lambda>p. case p of Some (e, c, Some v) \<Rightarrow> True | _ \<Rightarrow> False) resp"

lemma queryCounterLast_total:
  assumes "\<forall>body resp. api body = Inr resp \<longrightarrow> full_reply resp"
  shows "\<exists>r. queryCounterLast api ns ds hostnames b e = Some r"
proof (cases "api (last_point_body hostnames (ns @ ds))")
  case (Inr resp)
  have "\<exists>ret'. counter_point b e ret p = Some ret' \<and> True" if "p \<in> set resp" for ret p
  proof -
    have "case p of Some (e, c, Some v) \<Rightarrow> True | _ \<Rightarrow> False"
      using assms [rule_format, OF Inr] that unfolding full_reply_def list_all_iff by blast
    then obtain ep cn v where "p = Some (ep, cn, Some v)" by (auto split: option.splits)
    then show ?thesis by (simp add: counter_point_def)
  qed
  then have "\<exists>ret. foldM (counter_point b e) [] resp = Some ret \<and> True" by (intro foldM_invariant) simp_all
  with Inr show ?thesis by (auto simp: queryCounterLast_def)
qed (simp add: queryCounterLast_def)

lemma parse_total:
  assumes "expressionValid s"
  shows "\<exists>p. parse s (needCompute s) = Some p \<and> (needCompute s \<longrightarrow> parsed_ok p)"
proof (cases "needCompute s")
  case True
  from parse_valid [OF assms True] True show ?thesis by (auto simp: parsed_ok_def)
qed (simp add: parse_def)

lemma worker_hosts_total:
  assumes "needN \<longrightarrow> parsed_ok pn" "needD \<longrightarrow> parsed_ok pd"
  shows "\<exists>n d c. foldM (worker_host needN pn needD pd valueMap) acc hostnames = Some (n, d, c)"
proof -
  have "\<exists>r. worker_host needN pn needD pd valueMap acc h = Some r \<and> True" for acc h
    using worker_host_total [of needN pn needD pd valueMap acc h] assms by auto
  then have "\<exists>r. foldM (worker_host needN pn needD pd valueMap) acc hostnames = Some r \<and> True" by (intro foldM_invariant) auto
  then show ?thesis by (auto simp del: foldM.simps)
qed

section \<open>Workers\<close>

lemma m_dels_get: "m_get (foldl (\<lambda>w key. m_del key w) w del) k = (if k \<in> set del then None else m_get w k)"
  by (induction del arbitrary: w) auto

lemma m_dels_ok: "gomap_ok w \<Longrightarrow> gomap_ok (foldl (\<lambda>w key. m_del key w) w del)"
  by (induction del arbitrary: w) auto

lemma create_workers_get:
  assumes "gomap_ok m"
  shows "m_get (Workers (foldl create_worker st m)) k =
    (case m_get (Workers st) k of
       Some c \<Rightarrow> Some c
     | None \<Rightarrow> (case m_get m k of Some c \<Rightarrow> if cl_Step c \<le> 0 then None else Some c | None \<Rightarrow> None))"
  using assms
proof (induction m arbitrary: st)
  case (Cons p m)
  obtain key item where p: "p = (key, item)" by (cases p)
  have "gomap_ok m" "m_get m key = None" using Cons.prems p by (auto simp: gomap_ok_def m_get_None_iff)
  with Cons.IH [OF \<open>gomap_ok m\<close>, of "create_worker st p"] p show ?case
    by (auto simp: create_worker_def split: option.split)
qed (auto split: option.split)

text \<open>After a round in which the items were read, the workers are those of the items with a positive step; one that already ran keeps its item.\<close>

lemma updateItems_workers:
  assumes "ReadClusterMonitorItems rows = (items, False)" "gomap_ok items"
  shows "m_get (Workers (updateItems rows st)) k =
    (case m_get items k of
       None \<Rightarrow> None
     | Some c \<Rightarrow> (case m_get (Workers st) k of Some w \<Rightarrow> Some w | None \<Rightarrow> if cl_Step c \<le> 0 then None else Some c))"
proof -
  have "m_get (Workers (deleteNoUseWorker items st)) k = (if m_get items k = None then None else m_get (Workers st) k)"
  proof (cases "m_get (Workers st) k")
    case (Some w)
    from m_get_SomeD [OF this] have "k \<in> set (map fst (Workers st))" by force
    with Some show ?thesis by (simp add: deleteNoUseWorker_def Let_def m_dels_get)
  qed (simp add: deleteNoUseWorker_def Let_def m_dels_get)
  then show ?thesis
    using assms by (auto simp: updateItems_def createWorkerIfNeed_def create_workers_get split: option.split)
qed

section \<open>Property\<close>

text \<open>C30: A run of a worker returns without panic whenever the reply has no null entries: it leaves the sender's queue as it is,
  or pushes one point, the quotient by a value that is not zero, with the item's endpoint, metric, tags,
  type and step.\<close>

theorem worker_run_total:
  assumes "\<forall>body resp. api body = Inr resp \<longrightarrow> full_reply resp"
  shows "\<exists>st'. WorkerRun now hostgroup api item st = Some st'
    \<and> (st' = st \<or> (\<exists>n d. \<not> f_eq d (Zero False) \<and> st' = Sdk_Push now (cl_Endpoint item) (cl_Metric item) (cl_Tags item)
        (VFloat (f_div n d)) (cl_DsType item) [cl_Step item] st))"
proof -
  let ?ns = "cleanParam (cl_Numerator item)" and ?ds = "cleanParam (cl_Denominator item)"
  show ?thesis
  proof (cases "expressionValid ?ns \<and> expressionValid ?ds \<and> (needCompute ?ns \<or> needCompute ?ds)")
    case False
    then show ?thesis by (auto simp: WorkerRun_def Let_def)
  next
    case True
    from parse_total [of ?ns] True obtain pn where
      pn: "parse ?ns (needCompute ?ns) = Some pn" "needCompute ?ns \<longrightarrow> parsed_ok pn" by blast
    from parse_total [of ?ds] True obtain pd where
      pd: "parse ?ds (needCompute ?ds) = Some pd" "needCompute ?ds \<longrightarrow> parsed_ok pd" by blast
    show ?thesis
    proof (cases "HostnamesByID now (hostgroup (cl_GroupId item))")
      case (Inl err)
      then show ?thesis using True pn(1) pd(1) by (auto simp: WorkerRun_def Let_def)
    next
      case (Inr hostnames)
      obtain r where r: "queryCounterLast api (fst pn) (fst pd) hostnames (now - cl_Step item * 2) now = Some r"
        using queryCounterLast_total [OF assms] by blast
      show ?thesis
      proof (cases r)
        case (Inl err)
        then show ?thesis using True pn(1) pd(1) Inr r by (auto simp: WorkerRun_def Let_def)
      next
        case (Inr valueMap)
        from worker_hosts_total [OF pn(2) pd(2), of valueMap "(Zero False, Zero False, 0)" hostnames] obtain n d c where
          f: "foldM (worker_host (needCompute ?ns) pn (needCompute ?ds) pd valueMap) (Zero False, Zero False, 0) hostnames = Some (n, d, c)"
          by blast
        show ?thesis
          using True pn(1) pd(1) \<open>HostnamesByID now (hostgroup (cl_GroupId item)) = Inr hostnames\<close> r Inr f
          by (auto simp: WorkerRun_def Let_def split: sum.split)
      qed
    qed
  qed
qed

theorem worker_run_total_witness:
  "\<exists>st'. WorkerRun 100 (\<lambda>_. Inr [(''h'', 0, 0)]) (\<lambda>_. Inr [Some (''h'', ''cpu'', Some \<lparr> rd_Timestamp = 90, rd_Value = Num 4 \<rparr>)])
      \<lparr> cl_Id = 1, cl_GroupId = 1, cl_Numerator = ''$(cpu)'', cl_Denominator = ''$#'', cl_Endpoint = ''e'', cl_Metric = ''m'', cl_Tags = [],
        cl_DsType = ''GAUGE'', cl_Step = 60, cl_LastUpdate = [] \<rparr> \<lparr> MetaDataQueue = [], posted = [] \<rparr> = Some st'"
proof -
  have "\<forall>body resp. (\<lambda>_ :: (string \<times> string) list. Inr [Some (''h'', ''cpu'', Some \<lparr> rd_Timestamp = 90, rd_Value = Num 4 \<rparr>)]) body
      = (Inr resp :: goerror + last_point list) \<longrightarrow> full_reply resp"
    by (auto simp: full_reply_def)
  from worker_run_total [OF this] show ?thesis by blast
qed

end
