(* ===== verification/Nodata.thy ===== *)
theory Nodata
  imports Sdk Hbs
begin

text \<open>
  The nodata module: the configuration it reads from the portal's database (\<open>config\<close>), the last points it collects
  (\<open>collector\<close>), the judgement whether a counter has stopped reporting (\<open>judge\<close>) and the mock points it sends in
  its place (\<open>sender\<close>).  The maps and bounded lists of \<open>toolkits/container\<close> and the answers of the database
  and of the API are arguments.
\<close>

section \<open>Containers\<close>

record ('m, 'v) smap =
  sm_New :: 'm
  sm_Get :: "'m \<Rightarrow> string \<Rightarrow> 'v option"
  sm_Put :: "string \<Rightarrow> 'v \<Rightarrow> 'm \<Rightarrow> 'm"
  sm_Remove :: "string \<Rightarrow> 'm \<Rightarrow> 'm"
  sm_Keys :: "'m \<Rightarrow> string list"
  sm_Slice :: "'m \<Rightarrow> 'v list"
  sm_Clear :: "'m \<Rightarrow> 'm"
  sm_Size :: "'m \<Rightarrow> int"

record ('l, 'e) limited =
  ll_New :: "int \<Rightarrow> 'l"
  ll_Front :: "'l \<Rightarrow> 'e option"
  ll_PushFrontViolently :: "'e \<Rightarrow> 'l \<Rightarrow> 'l"

record DataItem =
  di_Ts :: int
  di_Value :: f64
  di_FStatus :: string
  di_FTs :: int

record NodataStatus =
  ns_Key :: string
  ns_Status :: string
  ns_Cnt :: int
  ns_Ts :: int

record ('c, 'i, 'l, 's, 'm) nodata_ops =
  no_cfg :: "('c, NodataConfig) smap"
  no_items :: "('i, 'l) smap"
  no_list :: "('l, DataItem) limited"
  no_status :: "('s, NodataStatus) smap"
  no_mock :: "('m, JsonMetaData) smap"

record ('c, 'i, 's, 'm) Nodata_state =
  NdConfigMap :: 'c
  ItemMap :: 'i
  StatusMap :: 's
  MockMap :: 'm

section \<open>Configuration\<close>

record MockCfg =
  mc_Id :: int
  mc_Name :: string
  mc_Obj :: string
  mc_ObjType :: string
  mc_Metric :: string
  mc_Tags :: tags
  mc_Type :: string
  mc_Step :: int
  mc_Mock :: f64

definition NewNodataConfig ::
  "int \<Rightarrow> string \<Rightarrow> string \<Rightarrow> string \<Rightarrow> string \<Rightarrow> tags \<Rightarrow> string \<Rightarrow> int \<Rightarrow> f64 \<Rightarrow> NodataConfig" where
  "NewNodataConfig i name objType endpoint metric tags dstype step mock =
     \<lparr> nc_Id = i, nc_Name = name, nc_ObjType = objType, nc_Endpoint = endpoint, nc_Metric = metric, nc_Tags = tags,
       nc_Type = dstype, nc_Step = step, nc_Mock = mock \<rparr>"

definition checkMockCfg :: "MockCfg \<Rightarrow> goerror option" where
  "checkMockCfg mc =
     (if length (mc_Metric mc) < 1 then Some ''bad mockcfg, metric empty''
      else if mc_Type mc \<noteq> ''GAUGE'' then Some (''bad mockcfg, type illegal, type='' @ mc_Type mc)
      else if mc_Step mc < 1 then Some (''bad mockcfg, step illegal, step='' @ Itoa (mc_Step mc))
      else None)"

definition isSpuerNodataCfg :: "NodataConfig \<Rightarrow> NodataConfig \<Rightarrow> bool" where
  "isSpuerNodataCfg A B = (if nc_ObjType A = ''group'' \<and> nc_ObjType B = ''host'' then False else True)"

definition GetHostsFromGroup :: "(string \<Rightarrow> (int \<times> string) rows) \<Rightarrow> string \<Rightarrow> (string, int) gomap" where
  "GetHostsFromGroup db grpName =
     (case scan_rows (\<lambda>hosts (hid, hostname). if hid < 0 \<or> hostname = [] then hosts else m_set hostname hid hosts) []
        (db grpName) of
        Inl err \<Rightarrow> [] | Inr hosts \<Rightarrow> hosts)"

definition getEndpointFromHosts :: "string \<Rightarrow> string list" where
  "getEndpointFromHosts hosts = filter (\<lambda>nh. nh \<noteq> []) (map str_trim_space (str_split (CHR 0x0A) hosts))"

text \<open>The name of a group is trimmed to see whether it is empty; the query uses it untrimmed.\<close>

definition getEndpointFromGroups :: "(string \<Rightarrow> (int \<times> string) rows) \<Rightarrow> string \<Rightarrow> string list" where
  "getEndpointFromGroups db grps =
     map fst (foldl (\<lambda>hosts grp.
       if length (str_trim_space grp) < 1 then hosts
       else foldl (\<lambda>hosts (hostname, hid). if hostname \<noteq> [] then m_set hostname hostname hosts else hosts) hosts
         (GetHostsFromGroup db grp)) [] (str_split (CHR 0x0A) grps))"

definition getEndpointFromOther :: "string \<Rightarrow> string list" where
  "getEndpointFromOther other = getEndpointFromHosts other"

definition getEndpoint :: "(string \<Rightarrow> (int \<times> string) rows) \<Rightarrow> string \<Rightarrow> string \<Rightarrow> string list" where
  "getEndpoint db objType obj =
     (if objType = ''host'' then getEndpointFromHosts obj
      else if objType = ''group'' then getEndpointFromGroups db obj
      else if objType = ''other'' then getEndpointFromOther obj
      else [])"

definition mock_endpoint :: "MockCfg \<Rightarrow> (string, NodataConfig) gomap \<Rightarrow> string \<Rightarrow> (string, NodataConfig) gomap" where
  "mock_endpoint t ret ep =
     (let uuid = PK ep (mc_Metric t) (mc_Tags t);
          ncfg = NewNodataConfig (mc_Id t) (mc_Name t) (mc_ObjType t) ep (mc_Metric t) (mc_Tags t) (mc_Type t) (mc_Step t) (mc_Mock t)
      in case m_get ret uuid of
           None \<Rightarrow> m_set uuid ncfg ret
         | Some val \<Rightarrow> if isSpuerNodataCfg val ncfg then ret else m_set uuid ncfg ret)"

text \<open>A row is the scanned configuration and its tag text.\<close>

definition GetMockCfgFromDB ::
  "(string \<Rightarrow> (int \<times> string) rows) \<Rightarrow> (MockCfg \<times> string) rows \<Rightarrow> (string, NodataConfig) gomap" where
  "GetMockCfgFromDB db rows =
     (case scan_rows (\<lambda>ret (mc, tags).
        let t = mc\<lparr>mc_Tags := DictedTagstring tags\<rparr> in
        if checkMockCfg t \<noteq> None then ret
        else foldl (mock_endpoint t) ret (getEndpoint db (mc_ObjType t) (mc_Obj t))) [] rows of
        Inl err \<Rightarrow> [] | Inr ret \<Rightarrow> ret)"

definition GetNdConfig :: "('c, 'i, 'l, 's, 'm) nodata_ops \<Rightarrow> ('c, 'i, 's, 'm) Nodata_state \<Rightarrow> string \<Rightarrow> NodataConfig option" where
  "GetNdConfig ops st key = sm_Get (no_cfg ops) (NdConfigMap st) key"

definition NdConfig_Keys :: "('c, 'i, 'l, 's, 'm) nodata_ops \<Rightarrow> ('c, 'i, 's, 'm) Nodata_state \<Rightarrow> string list" where
  "NdConfig_Keys ops st = sm_Keys (no_cfg ops) (NdConfigMap st)"

definition syncNdConfig ::
  "('c, 'i, 'l, 's, 'm) nodata_ops \<Rightarrow> (string, NodataConfig) gomap \<Rightarrow> ('c, 'i, 's, 'm) Nodata_state \<Rightarrow> int \<times> ('c, 'i, 's, 'm) Nodata_state" where
  "syncNdConfig ops configs st =
     (let nm = foldl (\<lambda>nm (uuid, ndc).
            if nc_Endpoint ndc = [] then nm
            else sm_Put (no_cfg ops) (PK (nc_Endpoint ndc) (nc_Metric ndc) (nc_Tags ndc)) ndc nm) (sm_New (no_cfg ops)) configs
      in (sm_Size (no_cfg ops) nm, st\<lparr>NdConfigMap := nm\<rparr>))"

section \<open>Collector\<close>

definition GetFirstItem :: "('c, 'i, 'l, 's, 'm) nodata_ops \<Rightarrow> ('c, 'i, 's, 'm) Nodata_state \<Rightarrow> string \<Rightarrow> DataItem option" where
  "GetFirstItem ops st key =
     (case sm_Get (no_items ops) (ItemMap st) key of None \<Rightarrow> None | Some listv \<Rightarrow> ll_Front (no_list ops) listv)"

definition Nodata_AddItem ::
  "('c, 'i, 'l, 's, 'm) nodata_ops \<Rightarrow> string \<Rightarrow> DataItem \<Rightarrow> ('c, 'i, 's, 'm) Nodata_state \<Rightarrow> ('c, 'i, 's, 'm) Nodata_state" where
  "Nodata_AddItem ops key val st =
     (let l = (case sm_Get (no_items ops) (ItemMap st) key of None \<Rightarrow> ll_New (no_list ops) 3 | Some listv \<Rightarrow> listv)
      in st\<lparr>ItemMap := sm_Put (no_items ops) key (ll_PushFrontViolently (no_list ops) val l) (ItemMap st)\<rparr>)"

definition Nodata_RemoveItem ::
  "('c, 'i, 'l, 's, 'm) nodata_ops \<Rightarrow> string \<Rightarrow> ('c, 'i, 's, 'm) Nodata_state \<Rightarrow> ('c, 'i, 's, 'm) Nodata_state" where
  "Nodata_RemoveItem ops key st = st\<lparr>ItemMap := sm_Remove (no_items ops) key (ItemMap st)\<rparr>"

definition last_params :: "('c, 'i, 'l, 's, 'm) nodata_ops \<Rightarrow> ('c, 'i, 's, 'm) Nodata_state \<Rightarrow> string list \<Rightarrow> (string \<times> string) list" where
  "last_params ops st fetchKeys =
     List.map_filter (\<lambda>key. map_option (\<lambda>ndcfg. (nc_Endpoint ndcfg, Counter (nc_Metric ndcfg) (nc_Tags ndcfg)))
       (GetNdConfig ops st key)) fetchKeys"

text \<open>A point of the reply: endpoint, counter and value; the entry and the value are pointers.\<close>

definition store_point ::
  "('c, 'i, 'l, 's, 'm) nodata_ops \<Rightarrow> int \<Rightarrow> ('c, 'i, 's, 'm) Nodata_state \<Rightarrow> (string \<times> string \<times> RRDData option) option
     \<Rightarrow> ('c, 'i, 's, 'm) Nodata_state" where
  "store_point ops fts st p =
     (case p of
        Some (endpoint, counter, Some v) \<Rightarrow>
          Nodata_AddItem ops (PK2 endpoint counter)
            \<lparr> di_Ts = rd_Timestamp v, di_Value = rd_Value v, di_FStatus = ''OK'', di_FTs = fts \<rparr> st
      | _ \<Rightarrow> st)"

definition fetchItemsAndStore ::
  "('c, 'i, 'l, 's, 'm) nodata_ops \<Rightarrow> ((string \<times> string) list \<Rightarrow> goerror + (string \<times> string \<times> RRDData option) option list) \<Rightarrow> int
     \<Rightarrow> string list \<Rightarrow> ('c, 'i, 's, 'm) Nodata_state \<Rightarrow> int \<times> ('c, 'i, 's, 'm) Nodata_state" where
  "fetchItemsAndStore ops api now fetchKeys st =
     (let args = last_params ops st fetchKeys in
      if length fetchKeys < 1 \<or> length args < 1 then (0, st)
      else case api args of
        Inl err \<Rightarrow> (0, st)
      | Inr resp \<Rightarrow> (int (length resp), foldl (store_point ops now) st resp))"

definition collect_batch :: "int \<Rightarrow> int" where
  "collect_batch batch = (if batch < 100 \<or> batch > 1000 then 200 else batch)"

text \<open>The keys cut into pieces of the batch size, which is positive.\<close>

function cut_keys :: "nat \<Rightarrow> 'a list \<Rightarrow> 'a list list" where
  "cut_keys b keys = (if keys = [] \<or> b = 0 then [] else take b keys # cut_keys b (drop b keys))"
  by pat_completeness auto
termination
  by (relation "measure (\<lambda>(b, keys). length keys)") auto

declare cut_keys.simps [simp del]

text \<open>The pieces are collected concurrently; they are stored in some order, here the order of the keys.\<close>

definition collectDataOnce ::
  "('c, 'i, 'l, 's, 'm) nodata_ops \<Rightarrow> ((string \<times> string) list \<Rightarrow> goerror + (string \<times> string \<times> RRDData option) option list) \<Rightarrow> int
     \<Rightarrow> int \<Rightarrow> ('c, 'i, 's, 'm) Nodata_state \<Rightarrow> int \<times> ('c, 'i, 's, 'm) Nodata_state" where
  "collectDataOnce ops api now batch st =
     foldl (\<lambda>(cnt, st) fetchKeys. let (size, st') = fetchItemsAndStore ops api now fetchKeys st in (cnt + size, st'))
       (0, st) (cut_keys (nat (collect_batch batch)) (NdConfig_Keys ops st))"

section \<open>Status\<close>

definition LastTs :: "('c, 'i, 'l, 's, 'm) nodata_ops \<Rightarrow> ('c, 'i, 's, 'm) Nodata_state \<Rightarrow> string \<Rightarrow> int" where
  "LastTs ops st key = (case sm_Get (no_status ops) (StatusMap st) key of None \<Rightarrow> 0 | Some v \<Rightarrow> ns_Ts v)"

definition TurnOk ::
  "('c, 'i, 'l, 's, 'm) nodata_ops \<Rightarrow> string \<Rightarrow> int \<Rightarrow> ('c, 'i, 's, 'm) Nodata_state \<Rightarrow> ('c, 'i, 's, 'm) Nodata_state" where
  "TurnOk ops key ts st =
     (let ns = (case sm_Get (no_status ops) (StatusMap st) key of
            None \<Rightarrow> \<lparr> ns_Key = key, ns_Status = ''OK'', ns_Cnt = 0, ns_Ts = ts \<rparr>
          | Some v \<Rightarrow> v\<lparr>ns_Status := ''OK'', ns_Cnt := 0, ns_Ts := ts\<rparr>)
      in st\<lparr>StatusMap := sm_Put (no_status ops) key ns (StatusMap st)\<rparr>)"

definition TurnNodata ::
  "('c, 'i, 'l, 's, 'm) nodata_ops \<Rightarrow> string \<Rightarrow> int \<Rightarrow> ('c, 'i, 's, 'm) Nodata_state \<Rightarrow> ('c, 'i, 's, 'm) Nodata_state" where
  "TurnNodata ops key ts st =
     (let ns = (case sm_Get (no_status ops) (StatusMap st) key of
            None \<Rightarrow> \<lparr> ns_Key = key, ns_Status = ''NODATA'', ns_Cnt = 1, ns_Ts = ts \<rparr>
          | Some v \<Rightarrow> v\<lparr>ns_Status := ''NODATA'', ns_Cnt := ns_Cnt v + 1, ns_Ts := ts\<rparr>)
      in st\<lparr>StatusMap := sm_Put (no_status ops) key ns (StatusMap st)\<rparr>)"

definition GetNodataStatus :: "('c, 'i, 'l, 's, 'm) nodata_ops \<Rightarrow> ('c, 'i, 's, 'm) Nodata_state \<Rightarrow> string \<Rightarrow> NodataStatus" where
  "GetNodataStatus ops st key =
     (case sm_Get (no_status ops) (StatusMap st) key of
        None \<Rightarrow> \<lparr> ns_Key = [], ns_Status = [], ns_Cnt = 0, ns_Ts = 0 \<rparr> | Some v \<Rightarrow> v)"

definition GetAllNodataStatus :: "('c, 'i, 'l, 's, 'm) nodata_ops \<Rightarrow> ('c, 'i, 's, 'm) Nodata_state \<Rightarrow> NodataStatus list" where
  "GetAllNodataStatus ops st =
     List.map_filter (sm_Get (no_status ops) (StatusMap st)) (sm_Keys (no_status ops) (StatusMap st))"

section \<open>Judgement\<close>

definition genTs :: "int \<Rightarrow> int \<Rightarrow> int" where
  "genTs nowTs step = (let step' = (if step < 1 then 60 else step) in nowTs - nowTs smod step' - 2 * step')"

definition getTimeout :: "int \<Rightarrow> int" where
  "getTimeout step = (if step < 60 then 180 else step * 3)"

definition minfloat64 :: f64 where
  "minfloat64 = f_round (1 / 1000000)"

definition fCompare :: "f64 \<Rightarrow> f64 \<Rightarrow> int" where
  "fCompare left right =
     (let d = f_sub left right in
      if f_gt d (f_neg minfloat64) \<and> f_lt d minfloat64 then 0 else if f_ge d minfloat64 then 1 else -1)"

definition AddMock ::
  "('c, 'i, 'l, 's, 'm) nodata_ops \<Rightarrow> string \<Rightarrow> string \<Rightarrow> string \<Rightarrow> string \<Rightarrow> int \<Rightarrow> string \<Rightarrow> int \<Rightarrow> goval
     \<Rightarrow> ('c, 'i, 's, 'm) Nodata_state \<Rightarrow> ('c, 'i, 's, 'm) Nodata_state" where
  "AddMock ops key endpoint metric tags ts dstype step value st =
     st\<lparr>MockMap := sm_Put (no_mock ops) key
       \<lparr> jm_Metric = metric, jm_Endpoint = endpoint, jm_Timestamp = ts, jm_Step = step, jm_Value = value,
         jm_CounterType = dstype, jm_Tags = tags \<rparr> (MockMap st)\<rparr>"

definition genMock ::
  "('c, 'i, 'l, 's, 'm) nodata_ops \<Rightarrow> int \<Rightarrow> string \<Rightarrow> NodataConfig \<Rightarrow> ('c, 'i, 's, 'm) Nodata_state \<Rightarrow> ('c, 'i, 's, 'm) Nodata_state" where
  "genMock ops ts key ndcfg st =
     AddMock ops key (nc_Endpoint ndcfg) (nc_Metric ndcfg) (SortedTags (nc_Tags ndcfg)) ts (nc_Type ndcfg) (nc_Step ndcfg)
       (VFloat (nc_Mock ndcfg)) st"

definition nodata_key ::
  "('c, 'i, 'l, 's, 'm) nodata_ops \<Rightarrow> int \<Rightarrow> ('c, 'i, 's, 'm) Nodata_state \<Rightarrow> string \<Rightarrow> ('c, 'i, 's, 'm) Nodata_state" where
  "nodata_key ops now st key =
     (case GetNdConfig ops st key of
        None \<Rightarrow> st
      | Some ndcfg \<Rightarrow>
          let step = nc_Step ndcfg; mock = nc_Mock ndcfg in
          (case GetFirstItem ops st key of
             None \<Rightarrow> st
           | Some item \<Rightarrow>
               let lastTs = now - getTimeout step;
                   report = (if LastTs ops st key + step \<le> now
                             then genMock ops (genTs now step) key ndcfg (TurnNodata ops key now st) else st) in
               if di_FStatus item \<noteq> ''OK'' \<or> di_FTs item < lastTs then st
               else if fCompare mock (di_Value item) = 0 then report
               else if di_Ts item < lastTs then report
               else TurnOk ops key now st))"

definition nodata_judge ::
  "('c, 'i, 'l, 's, 'm) nodata_ops \<Rightarrow> int \<Rightarrow> ('c, 'i, 's, 'm) Nodata_state \<Rightarrow> ('c, 'i, 's, 'm) Nodata_state" where
  "nodata_judge ops now st = foldl (nodata_key ops now) st (NdConfig_Keys ops st)"

section \<open>Sending\<close>

text \<open>
  The batches of the mock points.  The loop may not end: the outer \<open>None\<close>.  A slice out of range panics: the
  inner \<open>None\<close>.
\<close>

partial_function (option) mock_loop :: "int \<Rightarrow> 'a list \<Rightarrow> int \<Rightarrow> 'a list list \<Rightarrow> 'a list list go option" where
  "mock_loop batch mocks i acc =
     (if i < int (length mocks) then
        let leftLen = int (length mocks) - i; sendSize = (if leftLen < batch then leftLen else batch) in
        case slice_sub mocks i (i + sendSize) of
          None \<Rightarrow> Some None
        | Some fetchMocks \<Rightarrow> mock_loop batch mocks (i + sendSize) (acc @ [fetchMocks])
      else Some (Some acc))"

text \<open>\<open>ok items\<close> is the outcome of posting a batch; an empty one is not posted.\<close>

definition sendItemsToTransfer :: "(JsonMetaData list \<Rightarrow> bool) \<Rightarrow> JsonMetaData list \<Rightarrow> goerror + int" where
  "sendItemsToTransfer ok items =
     (if length items < 1 then Inr 0 else if ok items then Inr (int (length items)) else Inl ''request failed'')"

definition sendMock ::
  "('c, 'i, 'l, 's, 'm) nodata_ops \<Rightarrow> int \<Rightarrow> (JsonMetaData list \<Rightarrow> bool) \<Rightarrow> ('c, 'i, 's, 'm) Nodata_state
     \<Rightarrow> (int \<times> ('c, 'i, 's, 'm) Nodata_state) go option" where
  "sendMock ops batch ok st =
     (let mocks = sm_Slice (no_mock ops) (MockMap st);
          st' = st\<lparr>MockMap := sm_Clear (no_mock ops) (MockMap st)\<rparr> in
      map_option (map_option (\<lambda>batches.
        (foldl (\<lambda>cnt items. case sendItemsToTransfer ok items of Inr cntonce \<Rightarrow> cnt + cntonce | Inl err \<Rightarrow> cnt) 0 batches, st')))
        (mock_loop batch mocks 0 []))"

definition SendMockOnce ::
  "('c, 'i, 'l, 's, 'm) nodata_ops \<Rightarrow> bool \<Rightarrow> bool \<Rightarrow> int \<Rightarrow> (JsonMetaData list \<Rightarrow> bool) \<Rightarrow> ('c, 'i, 's, 'm) Nodata_state
     \<Rightarrow> (int \<times> ('c, 'i, 's, 'm) Nodata_state) go option" where
  "SendMockOnce ops acquired enabled batch ok st =
     (if \<not> acquired then Some (Some (-1, st)) else if \<not> enabled then Some (Some (0, st)) else sendMock ops batch ok st)"

end
