(* ===== verification/NodataProps.thy ===== *)
theory NodataProps
  imports Nodata
begin

text \<open>
  What a round of the nodata judgement does to every counter, and that the mock points are sent in batches that
  cover them when the batch size is positive; with batch size zero the sender does not return.
\<close>

section \<open>The maps of the toolkit\<close>

definition smap_laws :: "('m, 'v) smap \<Rightarrow> bool" where
  "smap_laws sm \<longleftrightarrow>
     (\<forall>m k v k'. sm_Get sm (sm_Put sm k v m) k' = (if k' = k then Some v else sm_Get sm m k'))
     \<and> (\<forall>m. distinct (sm_Keys sm m)) \<and> (\<forall>m k. k \<in> set (sm_Keys sm m) \<longleftrightarrow> sm_Get sm m k \<noteq> None)"

definition maps_ok :: "('c, 'i, 'l, 's, 'm) nodata_ops \<Rightarrow> bool" where
  "maps_ok ops \<longleftrightarrow> smap_laws (no_cfg ops) \<and> smap_laws (no_status ops) \<and> smap_laws (no_mock ops)"

section \<open>One counter\<close>

text \<open>No verdict, silent (mock a point), or alive.\<close>

definition nodata_verdict :: "int \<Rightarrow> NodataConfig \<Rightarrow> DataItem \<Rightarrow> int \<Rightarrow> bool option" where
  "nodata_verdict now c item last_ts =
     (if di_FStatus item \<noteq> ''OK'' \<or> di_FTs item < now - getTimeout (nc_Step c) then None
      else if fCompare (nc_Mock c) (di_Value item) = 0 \<or> di_Ts item < now - getTimeout (nc_Step c)
      then (if last_ts + nc_Step c \<le> now then Some True else None)
      else Some False)"

definition key_verdict :: "('c, 'i, 'l, 's, 'm) nodata_ops \<Rightarrow> int \<Rightarrow> ('c, 'i, 's, 'm) Nodata_state \<Rightarrow> string \<Rightarrow> bool option" where
  "key_verdict ops now st key =
     (case (GetNdConfig ops st key, GetFirstItem ops st key) of
        (Some c, Some item) \<Rightarrow> nodata_verdict now c item (LastTs ops st key) | _ \<Rightarrow> None)"

definition mock_point :: "int \<Rightarrow> NodataConfig \<Rightarrow> JsonMetaData" where
  "mock_point now c =
     \<lparr> jm_Metric = nc_Metric c, jm_Endpoint = nc_Endpoint c, jm_Timestamp = genTs now (nc_Step c), jm_Step = nc_Step c,
       jm_Value = VFloat (nc_Mock c), jm_CounterType = nc_Type c, jm_Tags = SortedTags (nc_Tags c) \<rparr>"

definition next_status :: "bool \<Rightarrow> string \<Rightarrow> int \<Rightarrow> NodataStatus option \<Rightarrow> NodataStatus" where
  "next_status silent key now old =
     (case old of
        None \<Rightarrow> \<lparr> ns_Key = key, ns_Status = (if silent then ''NODATA'' else ''OK''), ns_Cnt = (if silent then 1 else 0), ns_Ts = now \<rparr>
      | Some v \<Rightarrow> v\<lparr>ns_Status := (if silent then ''NODATA'' else ''OK''), ns_Cnt := (if silent then ns_Cnt v + 1 else 0), ns_Ts := now\<rparr>)"

abbreviation status_at where "status_at ops st k \<equiv> sm_Get (no_status ops) (StatusMap st) k"
abbreviation mock_at where "mock_at ops st k \<equiv> sm_Get (no_mock ops) (MockMap st) k"

lemma nodata_key_eq:
  "nodata_key ops now st key =
     (case key_verdict ops now st key of
        None \<Rightarrow> st
      | Some True \<Rightarrow> genMock ops (genTs now (nc_Step (the (GetNdConfig ops st key)))) key (the (GetNdConfig ops st key)) (TurnNodata ops key now st)
      | Some False \<Rightarrow> TurnOk ops key now st)"
  by (auto simp: nodata_key_def key_verdict_def nodata_verdict_def Let_def split: option.splits bool.splits)

lemma nodata_key_frame [simp]:
  "NdConfigMap (nodata_key ops now st key) = NdConfigMap st" "ItemMap (nodata_key ops now st key) = ItemMap st"
  by (simp_all add: nodata_key_eq genMock_def AddMock_def TurnNodata_def TurnOk_def Let_def split: option.split bool.split)

lemma nodata_key_status:
  assumes "maps_ok ops"
  shows "status_at ops (nodata_key ops now st key) k =
    (if k = key then (case key_verdict ops now st key of None \<Rightarrow> status_at ops st k
        | Some silent \<Rightarrow> Some (next_status silent key now (status_at ops st k)))
     else status_at ops st k)"
proof -
  have put: "sm_Get (no_status ops) (sm_Put (no_status ops) key v m) k' = (if k' = key then Some v else sm_Get (no_status ops) m k')" for v m k'
    using assms by (simp add: maps_ok_def smap_laws_def)
  show ?thesis
    by (auto simp: nodata_key_eq genMock_def AddMock_def TurnNodata_def TurnOk_def Let_def put next_status_def split: option.split bool.split)
qed

lemma nodata_key_mock:
  assumes "maps_ok ops"
  shows "mock_at ops (nodata_key ops now st key) k =
    (if k = key \<and> key_verdict ops now st key = Some True then Some (mock_point now (the (GetNdConfig ops st key)))
     else mock_at ops st k)"
proof -
  have put: "sm_Get (no_mock ops) (sm_Put (no_mock ops) key v m) k' = (if k' = key then Some v else sm_Get (no_mock ops) m k')" for v m k'
    using assms by (simp add: maps_ok_def smap_laws_def)
  show ?thesis
    by (auto simp: nodata_key_eq genMock_def AddMock_def TurnNodata_def TurnOk_def Let_def put mock_point_def split: option.split bool.split)
qed

lemma key_verdict_cong:
  "NdConfigMap st' = NdConfigMap st \<Longrightarrow> ItemMap st' = ItemMap st \<Longrightarrow> status_at ops st' k = status_at ops st k
     \<Longrightarrow> key_verdict ops now st' k = key_verdict ops now st k"
  by (simp add: key_verdict_def GetNdConfig_def GetFirstItem_def LastTs_def split: option.split)

lemma nodata_keys:
  assumes "maps_ok ops" "distinct keys"
  shows "(status_at ops (foldl (nodata_key ops now) st keys) k =
      (if k \<in> set keys then (case key_verdict ops now st k of None \<Rightarrow> status_at ops st k
          | Some silent \<Rightarrow> Some (next_status silent k now (status_at ops st k)))
       else status_at ops st k))
    \<and> mock_at ops (foldl (nodata_key ops now) st keys) k =
      (if k \<in> set keys \<and> key_verdict ops now st k = Some True then Some (mock_point now (the (GetNdConfig ops st k)))
       else mock_at ops st k)"
  using assms(2)
proof (induction keys arbitrary: st)
  case (Cons key keys)
  let ?st = "nodata_key ops now st key"
  have "distinct keys" using Cons.prems by simp
  note IH = Cons.IH [OF this, of ?st]
  show ?case
  proof (cases "k = key")
    case True
    then have "k \<notin> set keys" using Cons.prems by simp
    with IH show ?thesis unfolding True
      by (simp add: nodata_key_status [OF assms(1)] nodata_key_mock [OF assms(1)])
  next
    case False
    then have s: "status_at ops ?st k = status_at ops st k" "mock_at ops ?st k = mock_at ops st k"
      by (simp_all add: nodata_key_status [OF assms(1)] nodata_key_mock [OF assms(1)])
    then have v: "key_verdict ops now ?st k = key_verdict ops now st k" by (intro key_verdict_cong) simp_all
    have c: "GetNdConfig ops ?st k = GetNdConfig ops st k" by (simp add: GetNdConfig_def)
    from IH False show ?thesis unfolding s v c by simp
  qed
qed simp

section \<open>Batches\<close>

lemma mock_loop_covers:
  assumes "0 < batch" "0 \<le> i" "i \<le> int (length mocks)"
  shows "\<exists>bs. mock_loop batch mocks i acc = Some (Some (acc @ bs)) \<and> concat bs = drop (nat i) mocks
    \<and> (\<forall>b \<in> set bs. b \<noteq> [] \<and> int (length b) \<le> batch)"
  using assms(2,3)
proof (induction "nat (int (length mocks) - i)" arbitrary: i acc rule: less_induct)
  case less
  show ?case
  proof (cases "i < int (length mocks)")
    case True
    define s where "s = (if int (length mocks) - i < batch then int (length mocks) - i else batch)"
    have s: "0 < s" "i + s \<le> int (length mocks)" "s \<le> batch" using True assms(1) by (auto simp: s_def)
    let ?f = "drop (nat i) (take (nat (i + s)) mocks)"
    have sub: "slice_sub mocks i (i + s) = Some ?f" using s less.prems by (simp add: slice_sub_def)
    have "nat (int (length mocks) - (i + s)) < nat (int (length mocks) - i)" "0 \<le> i + s" using s True less.prems by auto
    from less.hyps [OF this s(2), of "acc @ [?f]"] obtain bs where
      bs: "mock_loop batch mocks (i + s) (acc @ [?f]) = Some (Some ((acc @ [?f]) @ bs))" "concat bs = drop (nat (i + s)) mocks"
      "\<forall>b \<in> set bs. b \<noteq> [] \<and> int (length b) \<le> batch" by blast
    have len: "int (length ?f) = s" using s less.prems by (auto simp: min_def)
    have "mock_loop batch mocks i acc = Some (Some (acc @ ?f # bs))"
      using True sub bs(1) by (subst mock_loop.simps) (simp add: s_def Let_def)
    moreover have "concat (?f # bs) = drop (nat i) mocks"
    proof -
      have "nat (i + s) = nat i + nat s" using s less.prems by (simp add: nat_add_distrib)
      moreover have "drop (nat i) mocks = take (nat s) (drop (nat i) mocks) @ drop (nat s + nat i) mocks"
        by (metis append_take_drop_id drop_drop)
      ultimately show ?thesis using bs(2) by (simp add: drop_take add.commute)
    qed
    moreover have "\<forall>b \<in> set (?f # bs). b \<noteq> [] \<and> int (length b) \<le> batch" 
    proof -
      have "?f \<noteq> []" using len s(1) by (cases ?f) auto
      moreover have "int (length ?f) \<le> batch" using len s(3) by linarith
      ultimately show ?thesis using bs(3) by (metis set_ConsD)
    qed
    ultimately show ?thesis by blast
  next
    case False
    then have "mock_loop batch mocks i acc = Some (Some (acc @ []))" by (subst mock_loop.simps) simp
    with False less.prems show ?thesis by (intro exI [of _ "[]"]) auto
  qed
qed

text \<open>With batch size zero the loop does not return as long as there is a point to send.\<close>

lemma mock_loop_stuck:
  assumes "mock_loop batch mocks i acc = Some r"
  shows "\<not> (batch = 0 \<and> 0 \<le> i \<and> i < int (length mocks))"
  using assms
proof (rule mock_loop.raw_induct [rotated])
  fix loop :: "int \<Rightarrow> 'a list \<Rightarrow> int \<Rightarrow> 'a list list \<Rightarrow> 'a list list go option" and batch mocks i acc r
  assume IH: "\<And>batch mocks i acc r. loop batch mocks i acc = Some r \<Longrightarrow> \<not> (batch = 0 \<and> 0 \<le> i \<and> i < int (length mocks))"
    and r: "(if i < int (length mocks) then
        let leftLen = int (length mocks) - i; sendSize = (if leftLen < batch then leftLen else batch) in
        case slice_sub mocks i (i + sendSize) of
          None \<Rightarrow> Some None | Some fetchMocks \<Rightarrow> loop batch mocks (i + sendSize) (acc @ [fetchMocks])
      else Some (Some acc)) = Some r"
  show "\<not> (batch = 0 \<and> 0 \<le> i \<and> i < int (length mocks))"
  proof
    assume a: "batch = 0 \<and> 0 \<le> i \<and> i < int (length mocks)"
    then have "slice_sub mocks i (i + 0) \<noteq> None" by (simp add: slice_sub_def)
    then obtain f where "slice_sub mocks i (i + 0) = Some f" by blast
    with a r have "loop batch mocks (i + 0) (acc @ [f]) = Some r" by (simp add: Let_def)
    from IH [OF this] a show False by simp
  qed
qed

section \<open>Property\<close>


definition demo_smap :: "((string, 'v) gomap, 'v) smap" where
  "demo_smap = \<lparr> sm_New = [], sm_Get = m_get, sm_Put = m_set, sm_Remove = m_del, sm_Keys = (\<lambda>m. remdups (map fst m)), sm_Slice = map snd,
     sm_Clear = (\<lambda>_. []), sm_Size = (\<lambda>m. int (length m)) \<rparr>"

lemma demo_smap_laws: "smap_laws demo_smap"
  by (auto simp: smap_laws_def demo_smap_def m_get_None_iff image_iff)

definition demo_nops where
  "demo_nops = \<lparr> no_cfg = demo_smap, no_items = demo_smap,
     no_list = \<lparr> ll_New = (\<lambda>_. []), ll_Front = (\<lambda>l. case l of [] \<Rightarrow> None | x # _ \<Rightarrow> Some x), ll_PushFrontViolently = (\<lambda>x l. take 3 (x # l)) \<rparr>,
     no_status = demo_smap, no_mock = demo_smap \<rparr>"

definition demo_ncfg :: NodataConfig where
  "demo_ncfg = NewNodataConfig 1 ''n'' ''host'' ''h'' ''agent.alive'' [] ''GAUGE'' 60 (Num (-1))"


end
