(* ===== verification/Redis.thy ===== *)
theory Redis
  imports CommonModel Interfaces "HOL-Library.Multiset"
begin

text \<open>
  What the alarm module uses of redis and of \<open>encoding/json\<close>: lists that are filled at the left and emptied at the
  right, whose elements are JSON values.  An element is \<^const>\<open>None\<close> when its text is not JSON, as the texts
  \<open>""\<close> and \<open>"nil"\<close> are not.  The server is a parameter: the record of its commands, with what they promise as
  a predicate.
\<close>

section \<open>JSON values\<close>

text \<open>\<open>JInt\<close> is a number that is the literal of a 64 bit integer, \<open>JNum\<close> the literal of any other number.
  Strings are taken to be valid UTF-8, which the encoding keeps.\<close>

datatype json = JNull | JBool bool | JInt int | JNum string | JStr string | JArr "json list" | JObj "(string \<times> json) list"

text \<open>Decoding into a struct: field names match without regard to case, a null leaves the field as it is, an absent field
  stays zero, the last of several values counts, and \<open>null\<close> decodes to the zero struct.\<close>

definition j_fields :: "json \<Rightarrow> (string \<times> json) list option" where
  "j_fields j = (case j of JNull \<Rightarrow> Some [] | JObj fs \<Rightarrow> Some fs | _ \<Rightarrow> None)"

definition j_field :: "(json \<Rightarrow> 'a option) \<Rightarrow> 'a \<Rightarrow> string \<Rightarrow> (string \<times> json) list \<Rightarrow> 'a option" where
  "j_field conv zero name fs =
     foldM (\<lambda>acc (k, v). if map ascii_lower k = name \<and> v \<noteq> JNull then conv v else Some acc) zero fs"

definition j_str :: "string \<Rightarrow> (string \<times> json) list \<Rightarrow> string option" where
  "j_str = j_field (\<lambda>v. case v of JStr s \<Rightarrow> Some s | _ \<Rightarrow> None) []"

definition j_int :: "string \<Rightarrow> (string \<times> json) list \<Rightarrow> int option" where
  "j_int = j_field (\<lambda>v. case v of JInt i \<Rightarrow> Some i | _ \<Rightarrow> None) 0"

lemma j_field_simps [simp]:
  "j_field conv zero name [] = Some zero"
  "j_field conv zero name ((k, v) # fs) =
     (if map ascii_lower k = name \<and> v \<noteq> JNull then (case conv v of None \<Rightarrow> None | Some x \<Rightarrow> j_field conv x name fs)
      else j_field conv zero name fs)"
  by (simp_all add: j_field_def split: option.split)

section \<open>Lists of redis\<close>

text \<open>The commands the alarm module sends: the effect on the server's state, and the reply where it is read.  \<open>BRPOP\<close> without a timeout
  may wait, which is \<^const>\<open>None\<close>.\<close>

record 'r redis_ops =
  rc_LPUSH :: "string \<Rightarrow> json \<Rightarrow> 'r \<Rightarrow> 'r"
  rc_RPOP :: "string \<Rightarrow> 'r \<Rightarrow> (goerror + json option) \<times> 'r"
  rc_BRPOP :: "string list \<Rightarrow> 'r \<Rightarrow> ((goerror + Event option) \<times> 'r) option"

text \<open>The loop that empties a list: it stops at the first error, the end of the list among them, and skips what does not decode.
  It runs as long as the server answers.\<close>

partial_function (option) pop_all :: "'r redis_ops \<Rightarrow> (json \<Rightarrow> 'a option) \<Rightarrow> string \<Rightarrow> 'r \<Rightarrow> 'a list \<Rightarrow> ('a list \<times> 'r) option" where
  "pop_all rc dec q r ret =
     (case rc_RPOP rc q r of
        (Inl err, r') \<Rightarrow> Some (ret, r')
      | (Inr reply, r') \<Rightarrow> pop_all rc dec q r' (case Option.bind reply dec of None \<Rightarrow> ret | Some x \<Rightarrow> ret @ [x]))"

text \<open>What the commands promise of a server that answers: \<open>rl r q\<close> is the list at \<open>q\<close>; \<open>LPUSH\<close> adds at its left end, \<open>RPOP\<close>
  takes from its right end and reports an empty list, and neither touches another list.\<close>

definition redis_laws :: "'r redis_ops \<Rightarrow> ('r \<Rightarrow> string \<Rightarrow> json option list) \<Rightarrow> bool" where
  "redis_laws rc rl \<longleftrightarrow>
     (\<forall>q m r q'. rl (rc_LPUSH rc q m r) q' = (if q' = q then Some m # rl r q else rl r q'))
     \<and> (\<forall>q r. rl r q = [] \<longrightarrow> (\<exists>err r'. rc_RPOP rc q r = (Inl err, r') \<and> rl r' = rl r))
     \<and> (\<forall>q r. rl r q \<noteq> [] \<longrightarrow>
          (\<exists>r'. rc_RPOP rc q r = (Inr (last (rl r q)), r') \<and> rl r' = (rl r)(q := butlast (rl r q))))"

definition decoded :: "(json \<Rightarrow> 'a option) \<Rightarrow> json option list \<Rightarrow> 'a list" where
  "decoded dec ms = List.map_filter (\<lambda>m. Option.bind m dec) ms"

lemma pop_all_returns:
  assumes "redis_laws rc rl"
  shows "\<exists>r'. pop_all rc dec q r ret = Some (ret @ decoded dec (rev (rl r q)), r') \<and> rl r' = (rl r)(q := [])"
proof (induction "rl r q" arbitrary: r ret rule: rev_induct)
  case Nil
  then obtain err r' where "rc_RPOP rc q r = (Inl err, r')" "rl r' = rl r" using assms unfolding redis_laws_def by metis
  with Nil show ?case by (auto simp: pop_all.simps [of _ _ _ r] decoded_def)
next
  case (snoc m ms)
  then have l: "rl r q = ms @ [m]" by simp
  then obtain r1 where r1: "rc_RPOP rc q r = (Inr m, r1)" "rl r1 = (rl r)(q := ms)"
    using assms unfolding redis_laws_def by (metis butlast_snoc last_snoc snoc_eq_iff_butlast)
  let ?ret = "case Option.bind m dec of None \<Rightarrow> ret | Some x \<Rightarrow> ret @ [x]"
  have "pop_all rc dec q r ret = pop_all rc dec q r1 ?ret" using r1(1) by (simp add: pop_all.simps [of _ _ _ r])
  moreover obtain r' where "pop_all rc dec q r1 ?ret = Some (?ret @ decoded dec (rev ms), r')" "rl r' = (rl r1)(q := [])"
    using snoc.hyps(1) [of r1 ?ret] r1(2) by auto
  ultimately show ?case using l r1(2)
    by (auto simp: decoded_def map_filter_simps split: option.split)
qed

section \<open>A server in memory\<close>

text \<open>An instance of the commands that satisfies the laws.\<close>

record Mem_redis =
  mr_lists :: "string \<Rightarrow> json option list"
  mr_events :: "string \<Rightarrow> Event option list"

fun mem_BRPOP :: "string list \<Rightarrow> Mem_redis \<Rightarrow> ((goerror + Event option) \<times> Mem_redis) option" where
  "mem_BRPOP [] r = None"
| "mem_BRPOP (q # qs) r =
     (if mr_events r q = [] then mem_BRPOP qs r
      else Some (Inr (last (mr_events r q)), r\<lparr>mr_events := (mr_events r)(q := butlast (mr_events r q))\<rparr>))"

definition mem_ops :: "Mem_redis redis_ops" where
  "mem_ops = \<lparr>
     rc_LPUSH = (\<lambda>q m r. r\<lparr>mr_lists := (mr_lists r)(q := Some m # mr_lists r q)\<rparr>),
     rc_RPOP = (\<lambda>q r. if mr_lists r q = [] then (Inl ''redigo: nil returned'', r)
       else (Inr (last (mr_lists r q)), r\<lparr>mr_lists := (mr_lists r)(q := butlast (mr_lists r q))\<rparr>)),
     rc_BRPOP = mem_BRPOP \<rparr>"

lemma mem_ops_laws: "redis_laws mem_ops mr_lists"
  by (auto simp: redis_laws_def mem_ops_def)

end
