(* ===== verification/Alarm.thy ===== *)
theory Alarm
  imports Redis Hbs
begin

text \<open>
  The alarm module: it reads the events the judge pushed (\<open>cron/event_reader.go\<close>), records them (\<open>model/event\<close>),
  notifies the members of the teams of the event's action (\<open>api\<close>, \<open>cron/event_consumer.go\<close>, \<open>cron/callback.go\<close>),
  at once or through queues that are combined every minute (\<open>cron/combiner.go\<close>), and posts the notices of the
  three sending queues (\<open>redi\<close>, \<open>cron/*_sender.go\<close>).  What the other services answer during a handler
  is the record \<open>alarm_env\<close>; statements and requests are logs.
\<close>

section \<open>Texts\<close>

text \<open>\<open>strings.Join\<close> and \<open>strings.Split\<close> with a separator of several bytes.\<close>

fun join_with :: "string \<Rightarrow> string list \<Rightarrow> string" where
  "join_with sep [] = []"
| "join_with sep [x] = x"
| "join_with sep (x # y # ys) = x @ sep @ join_with sep (y # ys)"

fun split_at2 :: "char \<Rightarrow> char \<Rightarrow> string \<Rightarrow> string list" where
  "split_at2 a b (x # y # s) =
     (if x = a \<and> y = b then [] # split_at2 a b s
      else (case split_at2 a b (y # s) of [] \<Rightarrow> [[x]] | t # ts \<Rightarrow> (x # t) # ts))"
| "split_at2 a b s = [s]"

definition crlf :: string where "crlf = [CHR 0x0D, CHR 0x0A]"

section \<open>Data\<close>

record MailDto =
  ml_Priority :: int
  ml_Metric :: string
  ml_Subject :: string
  ml_Content :: string
  ml_Email :: string
  ml_Status :: string

record SmsDto =
  sd_Priority :: int
  sd_Metric :: string
  sd_Content :: string
  sd_Phone :: string
  sd_Status :: string

record ImDto =
  id_Priority :: int
  id_Metric :: string
  id_Content :: string
  id_IM :: string
  id_Status :: string

record Sms =
  sms_Tos :: string
  sms_Content :: string

record IM =
  im_Tos :: string
  im_Content :: string

record Mail =
  mail_Tos :: string
  mail_Subject :: string
  mail_Content :: string

record Action =
  ac_Id :: int
  ac_Uic :: string
  ac_Url :: string
  ac_Callback :: int
  ac_BeforeCallbackSms :: int
  ac_BeforeCallbackMail :: int
  ac_AfterCallbackSms :: int
  ac_AfterCallbackMail :: int

text \<open>The fields of \<open>uic.User\<close> the module reads.\<close>

record User =
  us_Name :: string
  us_Email :: string
  us_Phone :: string
  us_IM :: string

text \<open>The encodings, by the tags of the structs.\<close>

definition MailDto_json :: "MailDto \<Rightarrow> json" where
  "MailDto_json d = JObj [(''priority'', JInt (ml_Priority d)), (''metric'', JStr (ml_Metric d)), (''subject'', JStr (ml_Subject d)),
     (''content'', JStr (ml_Content d)), (''email'', JStr (ml_Email d)), (''status'', JStr (ml_Status d))]"

definition MailDto_of :: "json \<Rightarrow> MailDto option" where
  "MailDto_of j = do { fs \<leftarrow> j_fields j; p \<leftarrow> j_int ''priority'' fs; m \<leftarrow> j_str ''metric'' fs; sb \<leftarrow> j_str ''subject'' fs;
     c \<leftarrow> j_str ''content'' fs; e \<leftarrow> j_str ''email'' fs; s \<leftarrow> j_str ''status'' fs;
     Some \<lparr> ml_Priority = p, ml_Metric = m, ml_Subject = sb, ml_Content = c, ml_Email = e, ml_Status = s \<rparr> }"

definition SmsDto_json :: "SmsDto \<Rightarrow> json" where
  "SmsDto_json d = JObj [(''priority'', JInt (sd_Priority d)), (''metric'', JStr (sd_Metric d)), (''content'', JStr (sd_Content d)),
     (''phone'', JStr (sd_Phone d)), (''status'', JStr (sd_Status d))]"

definition SmsDto_of :: "json \<Rightarrow> SmsDto option" where
  "SmsDto_of j = do { fs \<leftarrow> j_fields j; p \<leftarrow> j_int ''priority'' fs; m \<leftarrow> j_str ''metric'' fs;
     c \<leftarrow> j_str ''content'' fs; e \<leftarrow> j_str ''phone'' fs; s \<leftarrow> j_str ''status'' fs;
     Some \<lparr> sd_Priority = p, sd_Metric = m, sd_Content = c, sd_Phone = e, sd_Status = s \<rparr> }"

definition ImDto_json :: "ImDto \<Rightarrow> json" where
  "ImDto_json d = JObj [(''priority'', JInt (id_Priority d)), (''metric'', JStr (id_Metric d)), (''content'', JStr (id_Content d)),
     (''im'', JStr (id_IM d)), (''status'', JStr (id_Status d))]"

definition ImDto_of :: "json \<Rightarrow> ImDto option" where
  "ImDto_of j = do { fs \<leftarrow> j_fields j; p \<leftarrow> j_int ''priority'' fs; m \<leftarrow> j_str ''metric'' fs;
     c \<leftarrow> j_str ''content'' fs; e \<leftarrow> j_str ''im'' fs; s \<leftarrow> j_str ''status'' fs;
     Some \<lparr> id_Priority = p, id_Metric = m, id_Content = c, id_IM = e, id_Status = s \<rparr> }"

definition Sms_json :: "Sms \<Rightarrow> json" where
  "Sms_json d = JObj [(''tos'', JStr (sms_Tos d)), (''content'', JStr (sms_Content d))]"

definition Sms_of :: "json \<Rightarrow> Sms option" where
  "Sms_of j = do { fs \<leftarrow> j_fields j; t \<leftarrow> j_str ''tos'' fs; c \<leftarrow> j_str ''content'' fs; Some \<lparr> sms_Tos = t, sms_Content = c \<rparr> }"

definition IM_json :: "IM \<Rightarrow> json" where
  "IM_json d = JObj [(''tos'', JStr (im_Tos d)), (''content'', JStr (im_Content d))]"

definition IM_of :: "json \<Rightarrow> IM option" where
  "IM_of j = do { fs \<leftarrow> j_fields j; t \<leftarrow> j_str ''tos'' fs; c \<leftarrow> j_str ''content'' fs; Some \<lparr> im_Tos = t, im_Content = c \<rparr> }"

definition Mail_json :: "Mail \<Rightarrow> json" where
  "Mail_json d = JObj [(''tos'', JStr (mail_Tos d)), (''subject'', JStr (mail_Subject d)), (''content'', JStr (mail_Content d))]"

definition Mail_of :: "json \<Rightarrow> Mail option" where
  "Mail_of j = do { fs \<leftarrow> j_fields j; t \<leftarrow> j_str ''tos'' fs; s \<leftarrow> j_str ''subject'' fs; c \<leftarrow> j_str ''content'' fs;
     Some \<lparr> mail_Tos = t, mail_Subject = s, mail_Content = c \<rparr> }"

section \<open>State\<close>

text \<open>An argument of a statement: a condition is kept as its two values and the operator, a time as its seconds; printing
  them is left open.\<close>

datatype sql_arg = SStr string | SInt int | SCond f64 string f64 | STime int

datatype alarm_sql =
    Insert_case "sql_arg list"
  | Update_case bool bool "sql_arg list"
  | Insert_event "sql_arg list"
  | Delete_events "sql_arg list"

record 'r Alarm_state =
  al_redis :: 'r
  Actions :: "(int, Action) gomap"
  Users :: "(string, User option list) gomap"
  al_sql :: "alarm_sql list"
  al_http :: "(string \<times> (string \<times> string) list) list"

text \<open>The configuration, the commands of redis, and the answers of the other services: the action and the users of a team the API module returns
  (\<^const>\<open>None\<close> on an error, a user is \<^const>\<open>None\<close> where the list has a null), a stored link, the reply
  to a callback, the local time of an event, the process status of the rows of a case, and the string sets.\<close>

record ('s, 'r) alarm_env =
  ae_Dashboard :: string
  ae_HighQueues :: "string list"
  ae_LowQueues :: "string list"
  ae_UserSmsQueue :: string
  ae_UserMailQueue :: string
  ae_UserIMQueue :: string
  ae_Sms :: string
  ae_Mail :: string
  ae_IM :: string
  ae_EventRetentionDays :: int
  ae_EventDeleteBatch :: int
  ae_action :: "int \<Rightarrow> Action option"
  ae_team :: "string \<Rightarrow> User option list option"
  ae_link :: "string \<Rightarrow> goerror + string"
  ae_get :: "string \<Rightarrow> (string \<times> string) list \<Rightarrow> string \<times> goerror option"
  ae_time :: "int \<Rightarrow> string"
  ae_cases :: "string \<Rightarrow> string list"
  ae_set :: "(string, 's) set_ops"
  ae_rc :: "'r redis_ops"

abbreviation upd_redis :: "('r \<Rightarrow> 'r) \<Rightarrow> 'r Alarm_state \<Rightarrow> 'r Alarm_state" where
  "upd_redis f st \<equiv> st\<lparr>al_redis := f (al_redis st)\<rparr>"

section \<open>Sending queues\<close>

definition WriteSmsModel :: "'r redis_ops \<Rightarrow> Sms \<Rightarrow> 'r \<Rightarrow> 'r" where
  "WriteSmsModel rc sms r = rc_LPUSH rc ''/sms'' (Sms_json sms) r"

definition WriteIMModel :: "'r redis_ops \<Rightarrow> IM \<Rightarrow> 'r \<Rightarrow> 'r" where
  "WriteIMModel rc im r = rc_LPUSH rc ''/im'' (IM_json im) r"

definition WriteMailModel :: "'r redis_ops \<Rightarrow> Mail \<Rightarrow> 'r \<Rightarrow> 'r" where
  "WriteMailModel rc mail r = rc_LPUSH rc ''/mail'' (Mail_json mail) r"

definition WriteSms :: "'r redis_ops \<Rightarrow> string list \<Rightarrow> string \<Rightarrow> 'r \<Rightarrow> 'r" where
  "WriteSms rc tos content r =
     (if length tos = 0 then r else WriteSmsModel rc \<lparr> sms_Tos = str_join comma tos, sms_Content = content \<rparr> r)"

definition WriteIM :: "'r redis_ops \<Rightarrow> string list \<Rightarrow> string \<Rightarrow> 'r \<Rightarrow> 'r" where
  "WriteIM rc tos content r =
     (if length tos = 0 then r else WriteIMModel rc \<lparr> im_Tos = str_join comma tos, im_Content = content \<rparr> r)"

definition WriteMail :: "'r redis_ops \<Rightarrow> string list \<Rightarrow> string \<Rightarrow> string \<Rightarrow> 'r \<Rightarrow> 'r" where
  "WriteMail rc tos subject content r =
     (if length tos = 0 then r
      else WriteMailModel rc \<lparr> mail_Tos = str_join comma tos, mail_Subject = subject, mail_Content = content \<rparr> r)"

definition PopAllSms :: "'r redis_ops \<Rightarrow> 'r \<Rightarrow> (Sms list \<times> 'r) option" where
  "PopAllSms rc r = pop_all rc Sms_of ''/sms'' r []"

definition PopAllIM :: "'r redis_ops \<Rightarrow> 'r \<Rightarrow> (IM list \<times> 'r) option" where
  "PopAllIM rc r = pop_all rc IM_of ''/im'' r []"

definition PopAllMail :: "'r redis_ops \<Rightarrow> 'r \<Rightarrow> (Mail list \<times> 'r) option" where
  "PopAllMail rc r = pop_all rc Mail_of ''/mail'' r []"

text \<open>The senders; the requests of one round are logged in the order they are started in.\<close>

definition SendSms :: "('s, 'r) alarm_env \<Rightarrow> 'r Alarm_state \<Rightarrow> Sms \<Rightarrow> 'r Alarm_state" where
  "SendSms env st sms =
     (if \<not> prefix ''http'' (map ascii_lower (ae_Sms env)) then st
      else st\<lparr>al_http := al_http st @ [(ae_Sms env, [(''tos'', sms_Tos sms), (''content'', sms_Content sms)])]\<rparr>)"

definition SendIM :: "('s, 'r) alarm_env \<Rightarrow> 'r Alarm_state \<Rightarrow> IM \<Rightarrow> 'r Alarm_state" where
  "SendIM env st im =
     st\<lparr>al_http := al_http st @ [(ae_IM env, [(''tos'', im_Tos im), (''content'', im_Content im)])]\<rparr>"

definition SendMail :: "('s, 'r) alarm_env \<Rightarrow> 'r Alarm_state \<Rightarrow> Mail \<Rightarrow> 'r Alarm_state" where
  "SendMail env st mail =
     st\<lparr>al_http := al_http st @ [(ae_Mail env, [(''tos'', mail_Tos mail), (''subject'', mail_Subject mail), (''content'', mail_Content mail)])]\<rparr>"

definition ConsumeSms_round :: "('s, 'r) alarm_env \<Rightarrow> 'r Alarm_state \<Rightarrow> 'r Alarm_state option" where
  "ConsumeSms_round env st =
     map_option (\<lambda>(L, r). foldl (SendSms env) (st\<lparr>al_redis := r\<rparr>) L) (PopAllSms (ae_rc env) (al_redis st))"

definition ConsumeIM_round :: "('s, 'r) alarm_env \<Rightarrow> 'r Alarm_state \<Rightarrow> 'r Alarm_state option" where
  "ConsumeIM_round env st =
     map_option (\<lambda>(L, r). foldl (SendIM env) (st\<lparr>al_redis := r\<rparr>) L) (PopAllIM (ae_rc env) (al_redis st))"

definition ConsumeMail_round :: "('s, 'r) alarm_env \<Rightarrow> 'r Alarm_state \<Rightarrow> 'r Alarm_state option" where
  "ConsumeMail_round env st =
     map_option (\<lambda>(L, r). foldl (SendMail env) (st\<lparr>al_redis := r\<rparr>) L) (PopAllMail (ae_rc env) (al_redis st))"

section \<open>Actions and teams\<close>

definition GetAction :: "('s, 'r) alarm_env \<Rightarrow> int \<Rightarrow> 'r Alarm_state \<Rightarrow> Action option \<times> 'r Alarm_state" where
  "GetAction env i st =
     (case (if i \<le> 0 then None else ae_action env i) of
        Some action \<Rightarrow> (Some action, st\<lparr>Actions := m_set i action (Actions st)\<rparr>)
      | None \<Rightarrow> (m_get (Actions st) i, st))"

definition CurlUic :: "('s, 'r) alarm_env \<Rightarrow> string \<Rightarrow> User option list option" where
  "CurlUic env team = (if team = [] then Some [] else ae_team env team)"

definition UsersOf :: "('s, 'r) alarm_env \<Rightarrow> string \<Rightarrow> 'r Alarm_state \<Rightarrow> User option list option \<times> 'r Alarm_state" where
  "UsersOf env team st =
     (case CurlUic env team of
        Some users \<Rightarrow> (Some users, st\<lparr>Users := m_set team users (Users st)\<rparr>)
      | None \<Rightarrow> (m_get (Users st) team, st))"

definition add_user :: "(string, User) gomap \<Rightarrow> User option \<Rightarrow> (string, User) gomap go" where
  "add_user userMap user = do { u \<leftarrow> user; Some (m_set (us_Name u) u userMap) }"

definition add_team ::
  "('s, 'r) alarm_env \<Rightarrow> (string, User) gomap \<times> 'r Alarm_state \<Rightarrow> string \<Rightarrow> ((string, User) gomap \<times> 'r Alarm_state) go" where
  "add_team env = (\<lambda>(userMap, st) team.
     if team = [] then Some (userMap, st)
     else case UsersOf env team st of
       (None, st') \<Rightarrow> Some (userMap, st')
     | (Some users, st') \<Rightarrow> do { m \<leftarrow> foldM add_user userMap users; Some (m, st') })"

definition GetUsers :: "('s, 'r) alarm_env \<Rightarrow> string \<Rightarrow> 'r Alarm_state \<Rightarrow> ((string, User) gomap \<times> 'r Alarm_state) go" where
  "GetUsers env teams st = foldM (add_team env) ([], st) (str_split comma teams)"

definition contact_set :: "(string, 's) set_ops \<Rightarrow> (User \<Rightarrow> string) \<Rightarrow> User list \<Rightarrow> 's" where
  "contact_set so f users = foldl (\<lambda>s u. if f u \<noteq> [] then so_Add so (f u) s else s) (so_New so) users"

definition ParseTeams ::
  "('s, 'r) alarm_env \<Rightarrow> string \<Rightarrow> 'r Alarm_state \<Rightarrow> ((string list \<times> string list \<times> string list) \<times> 'r Alarm_state) go" where
  "ParseTeams env teams st =
     (if teams = [] then Some (([], [], []), st)
      else do {
        (userMap, st') \<leftarrow> GetUsers env teams st;
        let users = map snd userMap;
        let so = ae_set env;
        Some ((so_ToSlice so (contact_set so us_Phone users), so_ToSlice so (contact_set so us_Email users),
               so_ToSlice so (contact_set so us_IM users)), st') })"

section \<open>Contents\<close>

definition Link :: "('s, 'r) alarm_env \<Rightarrow> Event \<Rightarrow> string go" where
  "Link env event = do {
     tplId \<leftarrow> TplId event;
     let eid = ExpressionId event;
     Some (if tplId \<noteq> 0 then ae_Dashboard env @ ''/portal/template/view/'' @ Itoa tplId
           else if eid \<noteq> 0 then ae_Dashboard env @ ''/portal/expression/view/'' @ Itoa eid
           else []) }"

definition BuildCommonSMSContent :: "('s, 'r) alarm_env \<Rightarrow> Event \<Rightarrow> string go" where
  "BuildCommonSMSContent env event = do {
     p \<leftarrow> Event_Priority event; note \<leftarrow> Event_Note event; fn \<leftarrow> Event_Func event; metric \<leftarrow> Event_Metric event;
     operator \<leftarrow> Event_Operator event; rv \<leftarrow> Event_RightValue event;
     Some (''[P'' @ Itoa p @ ''][''  @ ev_Status event @ ''][''  @ ev_Endpoint event @ ''][]['' @ note @ '' '' @ fn @ '' '' @ metric
       @ '' '' @ SortedTags (ev_PushedTags event) @ '' '' @ ReadableFloat (ev_LeftValue event) @ operator @ ReadableFloat rv
       @ ''][O'' @ Itoa (ev_CurrentStep event) @ '' '' @ ae_time env (ev_EventTime event) @ '']'') }"

definition BuildCommonIMContent :: "('s, 'r) alarm_env \<Rightarrow> Event \<Rightarrow> string go" where
  "BuildCommonIMContent env event = do {
     p \<leftarrow> Event_Priority event; note \<leftarrow> Event_Note event; fn \<leftarrow> Event_Func event; metric \<leftarrow> Event_Metric event;
     operator \<leftarrow> Event_Operator event; rv \<leftarrow> Event_RightValue event;
     Some (''[P'' @ Itoa p @ ''][''  @ ev_Status event @ ''][''  @ ev_Endpoint event @ ''][]['' @ note @ '' '' @ fn @ '' '' @ metric
       @ '' '' @ SortedTags (ev_PushedTags event) @ '' '' @ ReadableFloat (ev_LeftValue event) @ operator @ ReadableFloat rv
       @ ''][O'' @ Itoa (ev_CurrentStep event) @ '' '' @ ae_time env (ev_EventTime event) @ '']'') }"

definition BuildCommonMailContent :: "('s, 'r) alarm_env \<Rightarrow> Event \<Rightarrow> string go" where
  "BuildCommonMailContent env event = do {
     link \<leftarrow> Link env event;
     p \<leftarrow> Event_Priority event; metric \<leftarrow> Event_Metric event; fn \<leftarrow> Event_Func event; operator \<leftarrow> Event_Operator event;
     rv \<leftarrow> Event_RightValue event; note \<leftarrow> Event_Note event; maxStep \<leftarrow> Event_MaxStep event;
     Some (ev_Status event @ crlf @ ''P'' @ Itoa p @ crlf @ ''Endpoint:'' @ ev_Endpoint event @ crlf @ ''Metric:'' @ metric @ crlf
       @ ''Tags:'' @ SortedTags (ev_PushedTags event) @ crlf @ fn @ '': '' @ ReadableFloat (ev_LeftValue event) @ operator
       @ ReadableFloat rv @ crlf @ ''Note:'' @ note @ crlf @ ''Max:'' @ Itoa maxStep @ '', Current:'' @ Itoa (ev_CurrentStep event)
       @ crlf @ ''Timestamp:'' @ ae_time env (ev_EventTime event) @ crlf @ link @ crlf) }"

section \<open>Consuming an event\<close>

text \<open>The request of a callback; the tags are listed in the order the map is visited in.\<close>

definition callback_params :: "('s, 'r) alarm_env \<Rightarrow> Event \<Rightarrow> (string \<times> string) list go" where
  "callback_params env event = do {
     metric \<leftarrow> Event_Metric event; p \<leftarrow> Event_Priority event; tpl \<leftarrow> TplId event;
     Some [(''endpoint'', ev_Endpoint event), (''metric'', metric), (''status'', ev_Status event),
       (''step'', Itoa (ev_CurrentStep event)), (''priority'', Itoa p), (''time'', ae_time env (ev_EventTime event)),
       (''tpl_id'', Itoa tpl), (''exp_id'', Itoa (ExpressionId event)), (''stra_id'', Itoa (StrategyId event)),
       (''left_value'', ReadableFloat (ev_LeftValue event)),
       (''tags'', str_join comma (map (\<lambda>(k, v). k @ '':'' @ v) (ev_PushedTags event)))] }"

definition Callback :: "('s, 'r) alarm_env \<Rightarrow> Event \<Rightarrow> Action \<Rightarrow> 'r Alarm_state \<Rightarrow> (string \<times> 'r Alarm_state) go" where
  "Callback env event action st =
     (if ac_Url action = [] then Some (''callback url is blank'', st)
      else do {
        ps \<leftarrow> callback_params env event;
        let (resp, e) = ae_get env (ac_Url action) ps;
        let success = (case e of None \<Rightarrow> ''success'' | Some err \<Rightarrow> ''fail:'' @ err);
        Some (''curl '' @ ac_Url action @ '' '' @ success @ ''. resp: '' @ resp,
              st\<lparr>al_http := al_http st @ [(ac_Url action, ps)]\<rparr>) })"

definition HandleCallback :: "('s, 'r) alarm_env \<Rightarrow> Event \<Rightarrow> Action \<Rightarrow> 'r Alarm_state \<Rightarrow> 'r Alarm_state go" where
  "HandleCallback env event action st = do {
     let teams = ac_Uic action;
     ((phones, mails, ims), st1) \<leftarrow> (if teams \<noteq> [] then ParseTeams env teams st else Some (([], [], []), st));
     st2 \<leftarrow> (if teams \<noteq> [] then do {
         smsContent \<leftarrow> BuildCommonSMSContent env event;
         mailContent \<leftarrow> BuildCommonMailContent env event;
         imContent \<leftarrow> BuildCommonIMContent env event;
         let s = (if ac_BeforeCallbackSms action = 1 then upd_redis (WriteIM (ae_rc env) ims imContent \<circ> WriteSms (ae_rc env) phones smsContent) st1 else st1);
         Some (if ac_BeforeCallbackMail action = 1 then upd_redis (WriteMail (ae_rc env) mails smsContent mailContent) s else s) }
       else Some st1);
     (message, st3) \<leftarrow> Callback env event action st2;
     Some (if teams \<noteq> [] then
         let s = (if ac_AfterCallbackSms action = 1 then upd_redis (WriteIM (ae_rc env) ims message \<circ> WriteSms (ae_rc env) phones message) st3 else st3) in
         if ac_AfterCallbackMail action = 1 then upd_redis (WriteMail (ae_rc env) mails message message) s else s
       else st3) }"

definition consumeHighEvents :: "('s, 'r) alarm_env \<Rightarrow> Event \<Rightarrow> Action \<Rightarrow> 'r Alarm_state \<Rightarrow> 'r Alarm_state go" where
  "consumeHighEvents env event action st =
     (if ac_Uic action = [] then Some st
      else do {
        ((phones, mails, ims), st1) \<leftarrow> ParseTeams env (ac_Uic action) st;
        smsContent \<leftarrow> BuildCommonSMSContent env event;
        mailContent \<leftarrow> BuildCommonMailContent env event;
        imContent \<leftarrow> BuildCommonIMContent env event;
        p \<leftarrow> Event_Priority event;
        let st2 = (if p < 3 then upd_redis (WriteSms (ae_rc env) phones smsContent) st1 else st1);
        Some (upd_redis (WriteMail (ae_rc env) mails smsContent mailContent \<circ> WriteIM (ae_rc env) ims imContent) st2) })"

definition push_users :: "'r redis_ops \<Rightarrow> string \<Rightarrow> (User \<Rightarrow> json) \<Rightarrow> (string, User) gomap \<Rightarrow> 'r Alarm_state \<Rightarrow> 'r Alarm_state" where
  "push_users rc queue dto userMap st = upd_redis (\<lambda>r. foldl (\<lambda>r (_, user). rc_LPUSH rc queue (dto user) r) r userMap) st"

definition ParseUserSms :: "('s, 'r) alarm_env \<Rightarrow> Event \<Rightarrow> Action \<Rightarrow> 'r Alarm_state \<Rightarrow> 'r Alarm_state go" where
  "ParseUserSms env event action st = do {
     (userMap, st1) \<leftarrow> GetUsers env (ac_Uic action) st;
     content \<leftarrow> BuildCommonSMSContent env event;
     metric \<leftarrow> Event_Metric event;
     priority \<leftarrow> Event_Priority event;
     Some (push_users (ae_rc env) (ae_UserSmsQueue env) (\<lambda>user. SmsDto_json
         \<lparr> sd_Priority = priority, sd_Metric = metric, sd_Content = content, sd_Phone = us_Phone user, sd_Status = ev_Status event \<rparr>)
       userMap st1) }"

definition ParseUserMail :: "('s, 'r) alarm_env \<Rightarrow> Event \<Rightarrow> Action \<Rightarrow> 'r Alarm_state \<Rightarrow> 'r Alarm_state go" where
  "ParseUserMail env event action st = do {
     (userMap, st1) \<leftarrow> GetUsers env (ac_Uic action) st;
     metric \<leftarrow> Event_Metric event;
     subject \<leftarrow> BuildCommonSMSContent env event;
     content \<leftarrow> BuildCommonMailContent env event;
     priority \<leftarrow> Event_Priority event;
     Some (push_users (ae_rc env) (ae_UserMailQueue env) (\<lambda>user. MailDto_json
         \<lparr> ml_Priority = priority, ml_Metric = metric, ml_Subject = subject, ml_Content = content, ml_Email = us_Email user,
           ml_Status = ev_Status event \<rparr>)
       userMap st1) }"

definition ParseUserIm :: "('s, 'r) alarm_env \<Rightarrow> Event \<Rightarrow> Action \<Rightarrow> 'r Alarm_state \<Rightarrow> 'r Alarm_state go" where
  "ParseUserIm env event action st = do {
     (userMap, st1) \<leftarrow> GetUsers env (ac_Uic action) st;
     content \<leftarrow> BuildCommonIMContent env event;
     metric \<leftarrow> Event_Metric event;
     priority \<leftarrow> Event_Priority event;
     Some (push_users (ae_rc env) (ae_UserIMQueue env) (\<lambda>user. ImDto_json
         \<lparr> id_Priority = priority, id_Metric = metric, id_Content = content, id_IM = us_IM user, id_Status = ev_Status event \<rparr>)
       userMap st1) }"

definition consumeLowEvents :: "('s, 'r) alarm_env \<Rightarrow> Event \<Rightarrow> Action \<Rightarrow> 'r Alarm_state \<Rightarrow> 'r Alarm_state go" where
  "consumeLowEvents env event action st =
     (if ac_Uic action = [] then Some st
      else do {
        p \<leftarrow> Event_Priority event;
        st1 \<leftarrow> (if p < 3 then ParseUserSms env event action st else Some st);
        st2 \<leftarrow> ParseUserIm env event action st1;
        ParseUserMail env event action st2 })"

definition consume :: "('s, 'r) alarm_env \<Rightarrow> Event \<Rightarrow> bool \<Rightarrow> 'r Alarm_state \<Rightarrow> 'r Alarm_state go" where
  "consume env event isHigh st = do {
     actionId \<leftarrow> ActionId event;
     if actionId \<le> 0 then Some st
     else case GetAction env actionId st of
       (None, st1) \<Rightarrow> Some st1
     | (Some action, st1) \<Rightarrow> do {
         st2 \<leftarrow> (if ac_Callback action = 1 then HandleCallback env event action st1 else Some st1);
         if isHigh then consumeHighEvents env event action st2 else consumeLowEvents env event action st2 } }"

section \<open>Recording and reading events\<close>

definition counterGen :: "string \<Rightarrow> string \<Rightarrow> string" where
  "counterGen metric tags = (if tags \<noteq> [] then metric @ ''/'' @ tags else metric)"

definition event_cond :: "Event \<Rightarrow> sql_arg go" where
  "event_cond eve = do { operator \<leftarrow> Event_Operator eve; rv \<leftarrow> Event_RightValue eve; Some (SCond (ev_LeftValue eve) operator rv) }"

definition insertEvent :: "Event \<Rightarrow> 'r Alarm_state \<Rightarrow> 'r Alarm_state go" where
  "insertEvent eve st = do {
     let status = (if ev_Status eve = ''OK'' then 1 else 0);
     cond \<leftarrow> event_cond eve;
     Some (st\<lparr>al_sql := al_sql st @
       [Insert_event [SStr (ev_Id eve), SInt (ev_CurrentStep eve), cond, SInt status, STime (ev_EventTime eve)]]\<rparr>) }"

definition InsertEvent :: "('s, 'r) alarm_env \<Rightarrow> Event \<Rightarrow> 'r Alarm_state \<Rightarrow> 'r Alarm_state go" where
  "InsertEvent env eve st = do {
     let cases = ae_cases env (ev_Id eve);
     let tpl_creator = (case Tpl eve of None \<Rightarrow> [] | Some t \<Rightarrow> tp_Creator t);
     metric \<leftarrow> (if cases = [] then Event_Metric eve else Some []);
     fn \<leftarrow> Event_Func eve; cond \<leftarrow> event_cond eve; note \<leftarrow> Event_Note eve; maxStep \<leftarrow> Event_MaxStep eve;
     priority \<leftarrow> Event_Priority eve; tpl \<leftarrow> TplId eve;
     let t = STime (ev_EventTime eve);
     let ids = [SInt (ExpressionId eve), SInt (StrategyId eve), SInt tpl];
     let stmt = (case cases of
         [] \<Rightarrow> Insert_case ([SStr (ev_Id eve), SStr (ev_Endpoint eve), SStr (counterGen metric (SortedTags (ev_PushedTags eve))),
           SStr fn, cond, SStr note, SInt maxStep, SInt (ev_CurrentStep eve), SInt priority, SStr (ev_Status eve), t, t,
           SStr tpl_creator] @ ids)
       | process_status # _ \<Rightarrow>
           Update_case (process_status = ''resolved'' \<or> process_status = ''ignored'') (ev_CurrentStep eve = 1)
             ([t, SInt maxStep, SInt (ev_CurrentStep eve), SStr note, cond, SStr (ev_Status eve), SStr fn, SInt priority,
               SStr tpl_creator] @ ids @ (if ev_CurrentStep eve = 1 then [t] else []) @ [SStr (ev_Id eve)]));
     insertEvent eve (st\<lparr>al_sql := al_sql st @ [stmt]\<rparr>) }"

text \<open>The outer \<^const>\<open>None\<close> is that the reader waits; the inner one a panic.\<close>

definition popEvent :: "('s, 'r) alarm_env \<Rightarrow> string list \<Rightarrow> 'r Alarm_state \<Rightarrow> ((goerror + Event) \<times> 'r Alarm_state) go option" where
  "popEvent env queues st =
     (case rc_BRPOP (ae_rc env) queues (al_redis st) of
        None \<Rightarrow> None
      | Some (Inl err, r) \<Rightarrow> Some (Some (Inl err, st\<lparr>al_redis := r\<rparr>))
      | Some (Inr None, r) \<Rightarrow> Some (Some (Inl ''json'', st\<lparr>al_redis := r\<rparr>))
      | Some (Inr (Some event), r) \<Rightarrow>
          Some (do { st' \<leftarrow> InsertEvent env event (st\<lparr>al_redis := r\<rparr>); Some (Inr event, st') }))"

definition read_event :: "('s, 'r) alarm_env \<Rightarrow> string list \<Rightarrow> bool \<Rightarrow> 'r Alarm_state \<Rightarrow> 'r Alarm_state go option" where
  "read_event env queues isHigh st =
     (if queues = [] then None
      else map_option (\<lambda>out. do { (res, st') \<leftarrow> out; case res of Inl err \<Rightarrow> Some st' | Inr event \<Rightarrow> consume env event isHigh st' })
        (popEvent env queues st))"

definition ReadHighEvent_round :: "('s, 'r) alarm_env \<Rightarrow> 'r Alarm_state \<Rightarrow> 'r Alarm_state go option" where
  "ReadHighEvent_round env = read_event env (ae_HighQueues env) True"

definition ReadLowEvent_round :: "('s, 'r) alarm_env \<Rightarrow> 'r Alarm_state \<Rightarrow> 'r Alarm_state go option" where
  "ReadLowEvent_round env = read_event env (ae_LowQueues env) False"

definition DeleteEventOlder :: "int \<Rightarrow> int \<Rightarrow> 'r Alarm_state \<Rightarrow> 'r Alarm_state" where
  "DeleteEventOlder before batch st = st\<lparr>al_sql := al_sql st @ [Delete_events [STime before, SInt batch]]\<rparr>"

text \<open>\<open>now\<close> is in nanoseconds.\<close>

definition CleanExpiredEvent_round :: "('s, 'r) alarm_env \<Rightarrow> int \<Rightarrow> 'r Alarm_state \<Rightarrow> 'r Alarm_state" where
  "CleanExpiredEvent_round env now st =
     (let before = now + i64 (i64 (- ae_EventRetentionDays env * 24) * 3600000000000) in
      DeleteEventOlder (before div 1000000000) (ae_EventDeleteBatch env) st)"

section \<open>Combining\<close>

definition popAllSmsDto :: "('s, 'r) alarm_env \<Rightarrow> 'r \<Rightarrow> (SmsDto list \<times> 'r) option" where
  "popAllSmsDto env r = pop_all (ae_rc env) SmsDto_of (ae_UserSmsQueue env) r []"

definition popAllMailDto :: "('s, 'r) alarm_env \<Rightarrow> 'r \<Rightarrow> (MailDto list \<times> 'r) option" where
  "popAllMailDto env r = pop_all (ae_rc env) MailDto_of (ae_UserMailQueue env) r []"

definition popAllImDto :: "('s, 'r) alarm_env \<Rightarrow> 'r \<Rightarrow> (ImDto list \<times> 'r) option" where
  "popAllImDto env r = pop_all (ae_rc env) ImDto_of (ae_UserIMQueue env) r []"

definition mail_key :: "MailDto \<Rightarrow> string" where
  "mail_key d = Itoa (ml_Priority d) @ ml_Status d @ ml_Email d @ ml_Metric d"

definition combined_mail :: "('s, 'r) alarm_env \<Rightarrow> 'r \<Rightarrow> MailDto list \<Rightarrow> 'r go" where
  "combined_mail env r arr =
     (case arr of
        [] \<Rightarrow> None
      | [d] \<Rightarrow> Some (WriteMail (ae_rc env) [ml_Email d] (ml_Subject d) (ml_Content d) r)
      | d # _ \<Rightarrow> Some (WriteMail (ae_rc env) [ml_Email d]
          (''[P'' @ Itoa (ml_Priority d) @ ''][''  @ ml_Status d @ ''] '' @ Itoa (int (length arr)) @ '' '' @ ml_Metric d)
          (join_with crlf (map ml_Content arr)) r))"

definition combineMail :: "('s, 'r) alarm_env \<Rightarrow> 'r \<Rightarrow> 'r go option" where
  "combineMail env r =
     map_option (\<lambda>(dtos, r').
         let dtoMap = foldl (\<lambda>m d. m_append (mail_key d) d m) [] dtos in
         foldM (combined_mail env) r' (map snd dtoMap))
       (popAllMailDto env r)"

text \<open>The notice of several messages: the contents are stored behind a link, the third bracket of the first is quoted.\<close>

definition combined_text :: "('s, 'r) alarm_env \<Rightarrow> int \<Rightarrow> string \<Rightarrow> string \<Rightarrow> string list \<Rightarrow> string" where
  "combined_text env priority status metric contents =
     (let t = split_at2 (CHR '']'') (CHR ''['') (hd contents);
          eg = (if 3 \<le> length t then t ! 2 else []);
          h = ''[P'' @ Itoa priority @ ''][''  @ status @ ''] '' @ Itoa (int (length contents)) @ '' '' @ metric in
      case ae_link env (join_with '',,'' contents) of
        Inl err \<Rightarrow> h @ ''.  e.g. '' @ eg @ ''. detail in email''
      | Inr path \<Rightarrow>
          if path = [] then h @ ''.  e.g. '' @ eg @ ''. detail in email''
          else h @ '' e.g. '' @ eg @ '' '' @ ae_Dashboard env @ ''/portal/links/'' @ path @ '' '')"

definition im_key :: "ImDto \<Rightarrow> string" where
  "im_key d = Itoa (id_Priority d) @ id_Status d @ id_IM d @ id_Metric d"

definition combined_im :: "('s, 'r) alarm_env \<Rightarrow> 'r \<Rightarrow> ImDto list \<Rightarrow> 'r go" where
  "combined_im env r arr =
     (case arr of
        [] \<Rightarrow> None
      | [d] \<Rightarrow> Some (WriteIM (ae_rc env) [id_IM d] (id_Content d) r)
      | d # _ \<Rightarrow> Some (WriteIM (ae_rc env) [id_IM d] (combined_text env (id_Priority d) (id_Status d) (id_Metric d) (map id_Content arr)) r))"

definition combineIM :: "('s, 'r) alarm_env \<Rightarrow> 'r \<Rightarrow> 'r go option" where
  "combineIM env r =
     map_option (\<lambda>(dtos, r').
         let dtoMap = foldl (\<lambda>m d. m_append (im_key d) d m) [] dtos in
         foldM (combined_im env) r' (map snd dtoMap))
       (popAllImDto env r)"

definition sms_key :: "SmsDto \<Rightarrow> string" where
  "sms_key d = Itoa (sd_Priority d) @ sd_Status d @ sd_Phone d @ sd_Metric d"

definition combined_sms :: "('s, 'r) alarm_env \<Rightarrow> 'r \<Rightarrow> SmsDto list \<Rightarrow> 'r go" where
  "combined_sms env r arr =
     (case arr of
        [] \<Rightarrow> None
      | [d] \<Rightarrow> Some (WriteSms (ae_rc env) [sd_Phone d] (sd_Content d) r)
      | d # _ \<Rightarrow> Some (WriteSms (ae_rc env) [sd_Phone d] (combined_text env (sd_Priority d) (sd_Status d) (sd_Metric d) (map sd_Content arr)) r))"

definition combineSms :: "('s, 'r) alarm_env \<Rightarrow> 'r \<Rightarrow> 'r go option" where
  "combineSms env r =
     map_option (\<lambda>(dtos, r').
         let dtoMap = foldl (\<lambda>m d. m_append (sms_key d) d m) [] dtos in
         foldM (combined_sms env) r' (map snd dtoMap))
       (popAllSmsDto env r)"

end
