(* ===== verification/AlarmProps.thy ===== *)
theory AlarmProps
  imports Alarm
begin

text \<open>
  What the alarm module promises: no event the judge can send makes it panic, the notices of an event of low priority
  reach the sending queue, and combining neither loses nor repeats a message, nor sends it to another
  address unless two keys collide.
\<close>

section \<open>Encodings\<close>

lemma ascii_lower_names [simp]:
  "map ascii_lower ''priority'' = ''priority''" "map ascii_lower ''metric'' = ''metric''" "map ascii_lower ''subject'' = ''subject''"
  "map ascii_lower ''content'' = ''content''" "map ascii_lower ''email'' = ''email''" "map ascii_lower ''status'' = ''status''"
  "map ascii_lower ''phone'' = ''phone''" "map ascii_lower ''im'' = ''im''" "map ascii_lower ''tos'' = ''tos''"
  by code_simp+

lemma json_roundtrip [simp]:
  "MailDto_of (MailDto_json d) = Some d" "SmsDto_of (SmsDto_json ds) = Some ds" "ImDto_of (ImDto_json di) = Some di"
  "Sms_of (Sms_json s) = Some s" "IM_of (IM_json i) = Some i" "Mail_of (Mail_json m) = Some m"
  by (simp_all add: MailDto_of_def MailDto_json_def SmsDto_of_def SmsDto_json_def ImDto_of_def ImDto_json_def Sms_of_def Sms_json_def
      IM_of_def IM_json_def Mail_of_def Mail_json_def j_fields_def j_int_def j_str_def del: list.map)

section \<open>Grouping\<close>

definition by_key :: "('d \<Rightarrow> string) \<Rightarrow> 'd list \<Rightarrow> (string, 'd list) gomap" where
  "by_key key ds = foldl (\<lambda>m d. m_append (key d) d m) [] ds"

lemma mset_m_append:
  "gomap_ok m \<Longrightarrow> mset (concat (map snd (m_append k x m))) = add_mset x (mset (concat (map snd m)))"
proof (induction m)
  case Nil
  then show ?case by (simp add: m_append_def)
next
  case (Cons kv m)
  obtain k' v where kv: "kv = (k', v)" by force
  show ?case
  proof (cases "k' = k")
    case True
    with kv show ?thesis by (simp add: m_append_def)
  next
    case False
    with kv have "m_append k x (kv # m) = kv # m_append k x m" by (auto simp: m_append_def split: option.split)
    with Cons kv show ?thesis by (simp add: gomap_ok_def)
  qed
qed

lemma by_key_snoc: "by_key key (ds @ [d]) = m_append (key d) d (by_key key ds)"
  by (simp add: by_key_def)

lemma by_key_ok: "gomap_ok (by_key key ds)"
  by (induction ds rule: rev_induct) (simp_all add: by_key_snoc, simp add: by_key_def)

lemma by_key_mset: "mset (concat (map snd (by_key key ds))) = mset ds"
  by (induction ds rule: rev_induct) (simp_all add: by_key_snoc mset_m_append by_key_ok, simp add: by_key_def)

lemma by_key_get:
  "m_get (by_key key ds) k = (if filter (\<lambda>d. key d = k) ds = [] then None else Some (filter (\<lambda>d. key d = k) ds))"
proof (induction ds rule: rev_induct)
  case Nil
  then show ?case by (simp add: by_key_def)
next
  case (snoc d ds)
  then show ?case by (auto simp: by_key_snoc m_get_m_append)
qed

lemma by_key_group:
  assumes "(k, g) \<in> set (by_key key ds)"
  shows "g \<noteq> [] \<and> set g \<subseteq> set ds \<and> (\<forall>d \<in> set g. key d = k)"
proof -
  have "m_get (by_key key ds) k = Some g" using assms by_key_ok [of key ds] by (simp add: m_get_in_set)
  then show ?thesis unfolding by_key_get by (auto split: if_splits)
qed

section \<open>Pushing\<close>

definition lpushes :: "'r redis_ops \<Rightarrow> string \<Rightarrow> json list \<Rightarrow> 'r \<Rightarrow> 'r" where
  "lpushes rc q ms r = foldl (\<lambda>r m. rc_LPUSH rc q m r) r ms"

lemma lpushes_lists:
  assumes "redis_laws rc rl"
  shows "rl (lpushes rc q ms r) q' = (if q' = q then rev (map Some ms) @ rl r q else rl r q')"
proof (induction ms rule: rev_induct)
  case Nil
  then show ?case by (simp add: lpushes_def)
next
  case (snoc m ms)
  have s: "lpushes rc q (ms @ [m]) r = rc_LPUSH rc q m (lpushes rc q ms r)" by (simp add: lpushes_def)
  have "rl (rc_LPUSH rc q m r) q' = (if q' = q then Some m # rl r q else rl r q')" for r q'
    using assms by (simp add: redis_laws_def)
  then have "rl (lpushes rc q (ms @ [m]) r) q' = (if q' = q then Some m # rl (lpushes rc q ms r) q else rl (lpushes rc q ms r) q')"
    unfolding s .
  with snoc show ?case by (cases "q' = q") simp_all
qed

lemma decoded_encoded:
  assumes "\<And>x. dec (enc x) = Some x"
  shows "decoded dec (map (\<lambda>x. Some (enc x)) xs) = xs"
  using assms by (induction xs) (simp_all add: decoded_def map_filter_simps)

section \<open>Combining\<close>

definition group_mail :: "MailDto list \<Rightarrow> Mail" where
  "group_mail g =
     \<lparr> mail_Tos = ml_Email (hd g),
       mail_Subject = (if length g = 1 then ml_Subject (hd g)
         else ''[P'' @ Itoa (ml_Priority (hd g)) @ ''][''  @ ml_Status (hd g) @ ''] '' @ Itoa (int (length g)) @ '' '' @ ml_Metric (hd g)),
       mail_Content = join_with crlf (map ml_Content g) \<rparr>"

lemma combined_mail_eq: "g \<noteq> [] \<Longrightarrow> combined_mail env r g = Some (rc_LPUSH (ae_rc env) ''/mail'' (Mail_json (group_mail g)) r)"
  by (auto simp: combined_mail_def group_mail_def WriteMail_def WriteMailModel_def split: list.split)

lemma combined_mails:
  "\<forall>g \<in> set gs. g \<noteq> [] \<Longrightarrow> foldM (combined_mail env) r gs = Some (lpushes (ae_rc env) ''/mail'' (map (Mail_json \<circ> group_mail) gs) r)"
  by (induction gs arbitrary: r) (simp_all add: combined_mail_eq lpushes_def)

lemma combineMail_groups:
  assumes "redis_laws (ae_rc env) rl" "ae_UserMailQueue env \<noteq> ''/mail''"
    and dtos: "dtos = decoded MailDto_of (rev (rl r (ae_UserMailQueue env)))"
  defines "gs \<equiv> map snd (by_key mail_key dtos)"
  shows "\<exists>r'. combineMail env r = Some (Some r') \<and> rl r' (ae_UserMailQueue env) = []
    \<and> rl r' ''/mail'' = rev (map (Some \<circ> Mail_json \<circ> group_mail) gs) @ rl r ''/mail''"
proof -
  obtain r1 where r1: "popAllMailDto env r = Some (dtos, r1)" "rl r1 = (rl r)(ae_UserMailQueue env := [])"
    using pop_all_returns [OF assms(1), of MailDto_of "ae_UserMailQueue env" r "[]"] dtos by (auto simp: popAllMailDto_def)
  have "\<forall>g \<in> set gs. g \<noteq> []" using by_key_group [of _ _ mail_key dtos] by (force simp: gs_def)
  from combined_mails [OF this, of env r1]
  have "combineMail env r = Some (Some (lpushes (ae_rc env) ''/mail'' (map (Mail_json \<circ> group_mail) gs) r1))"
    using r1(1) by (simp add: combineMail_def gs_def by_key_def)
  then show ?thesis
    using lpushes_lists [OF assms(1), of "''/mail''" "map (Mail_json \<circ> group_mail) gs" r1] r1(2) assms(2)
    by (simp add: comp_assoc)
qed

section \<open>Absence of panics\<close>

text \<open>An event with a rule; a strategy carries its template.\<close>

definition event_ready :: "Event \<Rightarrow> bool" where
  "event_ready e \<longleftrightarrow> (case ev_Strategy e of Some s \<Rightarrow> st_Tpl s \<noteq> None | None \<Rightarrow> ev_Expression e \<noteq> None)"

lemma event_ready_fields:
  assumes "event_ready e"
  obtains p n m rv op fn k tpl aid where "Event_Priority e = Some p" "Event_Note e = Some n" "Event_Metric e = Some m"
    "Event_RightValue e = Some rv" "Event_Operator e = Some op" "Event_Func e = Some fn" "Event_MaxStep e = Some k"
    "TplId e = Some tpl" "ActionId e = Some aid"
proof -
  have r: "ev_Strategy e \<noteq> None \<or> ev_Expression e \<noteq> None" using assms by (auto simp: event_ready_def split: option.splits)
  have "\<exists>tpl. TplId e = Some tpl" "\<exists>aid. ActionId e = Some aid"
    using assms by (auto simp: event_ready_def TplId_def ActionId_def split: option.splits)
  then obtain tpl aid where "TplId e = Some tpl" "ActionId e = Some aid" by blast
  moreover obtain p n m rv op fn k where "Event_Priority e = Some p" "Event_Note e = Some n" "Event_Metric e = Some m"
    "Event_RightValue e = Some rv" "Event_Operator e = Some op" "Event_Func e = Some fn" "Event_MaxStep e = Some k"
    unfolding Event_Priority_def Event_Note_def Event_Metric_def Event_RightValue_def Event_Operator_def Event_Func_def Event_MaxStep_def
    using event_field_Some [OF r] by metis
  ultimately show ?thesis using that by blast
qed

definition null_free :: "(string, User option list) gomap \<Rightarrow> bool" where
  "null_free m \<longleftrightarrow> (\<forall>t us. m_get m t = Some us \<longrightarrow> None \<notin> set us)"

definition teams_ok :: "('s, 'r) alarm_env \<Rightarrow> bool" where
  "teams_ok env \<longleftrightarrow> (\<forall>t us. ae_team env t = Some us \<longrightarrow> None \<notin> set us)"

lemma add_users_total: "None \<notin> set us \<Longrightarrow> foldM add_user m us = Some (foldl (\<lambda>m u. m_set (us_Name u) u m) m (map the us))"
proof (induction us arbitrary: m)
  case (Cons a us)
  then show ?case by (cases a) (simp_all add: add_user_def)
qed simp

lemma UsersOf_ok:
  assumes "teams_ok env" "null_free (Users st)" "UsersOf env team st = (res, st')"
  shows "null_free (Users st') \<and> al_redis st' = al_redis st \<and> (\<forall>us. res = Some us \<longrightarrow> None \<notin> set us)"
proof -
  have "CurlUic env team = Some us \<Longrightarrow> None \<notin> set us" for us
    using assms(1) by (auto simp: CurlUic_def teams_ok_def split: if_splits)
  with assms(2,3) show ?thesis by (cases "CurlUic env team") (auto simp: UsersOf_def null_free_def split: if_splits)
qed

lemma GetUsers_total:
  fixes st :: "'r Alarm_state"
  assumes "teams_ok env" "null_free (Users st)"
  shows "\<exists>m st'. GetUsers env teams st = Some (m, st') \<and> null_free (Users st') \<and> al_redis st' = al_redis st"
proof -
  let ?I = "\<lambda>(m :: (string, User) gomap, s :: 'r Alarm_state). null_free (Users s) \<and> al_redis s = al_redis st"
  have "\<exists>ms'. foldM (add_team env) ([], st) (str_split comma teams) = Some ms' \<and> ?I ms'"
  proof (rule foldM_invariant)
    fix ms :: "(string, User) gomap \<times> 'r Alarm_state" and team assume I: "?I ms"
    obtain m s where ms: "ms = (m, s)" by force
    obtain res s' where u: "UsersOf env team s = (res, s')" by force
    from UsersOf_ok [OF assms(1) _ u] I ms have ok: "null_free (Users s')" "al_redis s' = al_redis st" "\<forall>us. res = Some us \<longrightarrow> None \<notin> set us"
      by auto
    show "\<exists>ms'. add_team env ms team = Some ms' \<and> ?I ms'"
      using I u ok ms by (cases res) (auto simp: add_team_def add_users_total)
  qed (use assms(2) in simp)
  then show ?thesis by (auto simp: GetUsers_def)
qed

lemma ParseTeams_total:
  assumes "teams_ok env" "null_free (Users st)"
  shows "\<exists>p m i st'. ParseTeams env teams st = Some ((p, m, i), st') \<and> null_free (Users st')"
  using GetUsers_total [OF assms, of teams] assms(2) by (cases "teams = []") (auto simp: ParseTeams_def Let_def)

lemma contents_total:
  assumes "event_ready e"
  shows "\<exists>s. BuildCommonSMSContent env e = Some s" "\<exists>s. BuildCommonIMContent env e = Some s"
    "\<exists>s. BuildCommonMailContent env e = Some s" "\<exists>ps. callback_params env e = Some ps"
  by (rule event_ready_fields [OF assms],
      simp add: BuildCommonSMSContent_def BuildCommonIMContent_def BuildCommonMailContent_def Link_def callback_params_def Let_def)+

lemma Callback_total:
  assumes "event_ready e"
  shows "\<exists>m st'. Callback env e a st = Some (m, st') \<and> Users st' = Users st"
  using contents_total(4) [OF assms, of env] by (auto simp: Callback_def Let_def split: prod.split)

lemma HandleCallback_total:
  assumes "event_ready e" "teams_ok env" "null_free (Users st)"
  shows "\<exists>st'. HandleCallback env e a st = Some st' \<and> null_free (Users st')"
proof (cases "ac_Uic a = []")
  case True
  from Callback_total [OF assms(1), of env a st] obtain m st' where "Callback env e a st = Some (m, st')" "Users st' = Users st"
    by blast
  with True assms(3) show ?thesis by (simp add: HandleCallback_def)
next
  case False
  from ParseTeams_total [OF assms(2,3), of "ac_Uic a"] obtain p m i st1 where
    t: "ParseTeams env (ac_Uic a) st = Some ((p, m, i), st1)" "null_free (Users st1)" by blast
  from contents_total [OF assms(1), of env] obtain s im ml where
    c: "BuildCommonSMSContent env e = Some s" "BuildCommonIMContent env e = Some im" "BuildCommonMailContent env e = Some ml" by metis
  define st2 where "st2 = (let s' = (if ac_BeforeCallbackSms a = 1 then upd_redis (WriteIM (ae_rc env) i im \<circ> WriteSms (ae_rc env) p s) st1 else st1) in
    if ac_BeforeCallbackMail a = 1 then upd_redis (WriteMail (ae_rc env) m s ml) s' else s')"
  have "Users st2 = Users st1" by (simp add: st2_def Let_def)
  moreover from Callback_total [OF assms(1), of env a st2] obtain msg st3 where
    "Callback env e a st2 = Some (msg, st3)" "Users st3 = Users st2" by blast
  ultimately show ?thesis using False t c by (simp add: HandleCallback_def st2_def Let_def)
qed

lemma consumeHighEvents_total:
  assumes "event_ready e" "teams_ok env" "null_free (Users st)"
  shows "\<exists>st'. consumeHighEvents env e a st = Some st' \<and> null_free (Users st')"
proof (cases "ac_Uic a = []")
  case False
  from ParseTeams_total [OF assms(2,3), of "ac_Uic a"] obtain p m i st1 where
    t: "ParseTeams env (ac_Uic a) st = Some ((p, m, i), st1)" "null_free (Users st1)" by blast
  from contents_total [OF assms(1), of env] obtain s im ml where
    "BuildCommonSMSContent env e = Some s" "BuildCommonIMContent env e = Some im" "BuildCommonMailContent env e = Some ml" by metis
  moreover obtain q where "Event_Priority e = Some q" by (rule event_ready_fields [OF assms(1)])
  ultimately show ?thesis using t False by (simp add: consumeHighEvents_def Let_def)
qed (use assms(3) in \<open>simp add: consumeHighEvents_def\<close>)

lemma ParseUser_total:
  assumes "event_ready e" "teams_ok env" "null_free (Users st)"
  shows "\<exists>st'. ParseUserSms env e a st = Some st' \<and> null_free (Users st')" "\<exists>st'. ParseUserIm env e a st = Some st' \<and> null_free (Users st')"
    "\<exists>st'. ParseUserMail env e a st = Some st' \<and> null_free (Users st')"
proof -
  from GetUsers_total [OF assms(2,3), of "ac_Uic a"] obtain m st1 where
    u: "GetUsers env (ac_Uic a) st = Some (m, st1)" "null_free (Users st1)" by blast
  from contents_total [OF assms(1), of env] obtain s im ml where
    c: "BuildCommonSMSContent env e = Some s" "BuildCommonIMContent env e = Some im" "BuildCommonMailContent env e = Some ml" by metis
  obtain q k where f: "Event_Priority e = Some q" "Event_Metric e = Some k" by (rule event_ready_fields [OF assms(1)])
  show "\<exists>st'. ParseUserSms env e a st = Some st' \<and> null_free (Users st')"
    using u by (simp add: ParseUserSms_def c f push_users_def)
  show "\<exists>st'. ParseUserIm env e a st = Some st' \<and> null_free (Users st')"
    using u by (simp add: ParseUserIm_def c f push_users_def)
  show "\<exists>st'. ParseUserMail env e a st = Some st' \<and> null_free (Users st')"
    using u by (simp add: ParseUserMail_def c f push_users_def)
qed

lemma consumeLowEvents_total:
  assumes "event_ready e" "teams_ok env" "null_free (Users st)"
  shows "\<exists>st'. consumeLowEvents env e a st = Some st' \<and> null_free (Users st')"
proof (cases "ac_Uic a = []")
  case False
  obtain p where p: "Event_Priority e = Some p" by (rule event_ready_fields [OF assms(1)])
  obtain st1 where 1: "(if p < 3 then ParseUserSms env e a st else Some st) = Some st1" "null_free (Users st1)"
    using ParseUser_total(1) [OF assms, of a] assms(3) by (cases "p < 3") auto
  obtain st2 where 2: "ParseUserIm env e a st1 = Some st2" "null_free (Users st2)"
    using ParseUser_total(2) [OF assms(1,2) 1(2), of a] by blast
  from ParseUser_total(3) [OF assms(1,2) 2(2), of a] False p 1(1) 2(1) show ?thesis by (simp add: consumeLowEvents_def)
qed (use assms(3) in \<open>simp add: consumeLowEvents_def\<close>)

lemma consume_total:
  assumes "event_ready e" "teams_ok env" "null_free (Users st)"
  shows "\<exists>st'. consume env e isHigh st = Some st' \<and> null_free (Users st')"
proof -
  obtain i where i: "ActionId e = Some i" by (rule event_ready_fields [OF assms(1)])
  obtain act st1 where a: "GetAction env i st = (act, st1)" by force
  then have n1: "null_free (Users st1)" using assms(3) by (auto simp: GetAction_def split: option.splits)
  show ?thesis
  proof (cases "i \<le> 0 \<or> act = None")
    case True
    with i a n1 assms(3) show ?thesis by (auto simp: consume_def)
  next
    case False
    then obtain action where act: "act = Some action" by blast
    obtain st2 where 2: "(if ac_Callback action = 1 then HandleCallback env e action st1 else Some st1) = Some st2" "null_free (Users st2)"
      using HandleCallback_total [OF assms(1,2) n1, of action] n1 by (cases "ac_Callback action = 1") auto
    from consumeHighEvents_total [OF assms(1,2) 2(2), of action] consumeLowEvents_total [OF assms(1,2) 2(2), of action]
    show ?thesis using False i a act 2(1) by (simp add: consume_def)
  qed
qed

lemma InsertEvent_total:
  assumes "event_ready e"
  shows "\<exists>st'. InsertEvent env e st = Some st' \<and> Users st' = Users st \<and> al_redis st' = al_redis st"
  by (rule event_ready_fields [OF assms]) (simp add: InsertEvent_def insertEvent_def event_cond_def Let_def)

section \<open>Members of the teams\<close>

definition team_members :: "('s, 'r) alarm_env \<Rightarrow> string \<Rightarrow> (string, User) gomap" where
  "team_members env teams = foldl (\<lambda>m u. m_set (us_Name u) u m) []
     (concat (map (\<lambda>t. if t = [] then [] else map the (the (ae_team env t))) (str_split comma teams)))"

lemma add_teams_eq:
  assumes "teams_ok env" "\<forall>t \<in> set ts. t \<noteq> [] \<longrightarrow> ae_team env t \<noteq> None"
  shows "\<exists>st'. foldM (add_team env) (m, st) ts =
      Some (foldl (\<lambda>m u. m_set (us_Name u) u m) m (concat (map (\<lambda>t. if t = [] then [] else map the (the (ae_team env t))) ts)), st')
    \<and> al_redis st' = al_redis st"
  using assms(2)
proof (induction ts arbitrary: m st)
  case (Cons t ts)
  show ?case
  proof (cases "t = []")
    case True
    with Cons show ?thesis by (simp add: add_team_def)
  next
    case False
    then obtain us where us: "ae_team env t = Some us" using Cons.prems by auto
    then have "None \<notin> set us" using assms(1) by (auto simp: teams_ok_def)
    then have "add_team env (m, st) t = Some (foldl (\<lambda>m u. m_set (us_Name u) u m) m (map the us), st\<lparr>Users := m_set t us (Users st)\<rparr>)"
      using False us by (simp add: add_team_def UsersOf_def CurlUic_def add_users_total)
    with Cons.IH [of "foldl (\<lambda>m u. m_set (us_Name u) u m) m (map the us)" "st\<lparr>Users := m_set t us (Users st)\<rparr>"] Cons.prems False us
    show ?thesis by simp
  qed
qed simp

lemma GetUsers_eq:
  assumes "teams_ok env" "\<forall>t \<in> set (str_split comma teams). t \<noteq> [] \<longrightarrow> ae_team env t \<noteq> None"
  shows "\<exists>st'. GetUsers env teams st = Some (team_members env teams, st') \<and> al_redis st' = al_redis st"
  using add_teams_eq [OF assms, of "[]" st] by (simp add: GetUsers_def team_members_def)

lemma push_users_redis: "al_redis (push_users rc q dto m st) = lpushes rc q (map (dto \<circ> snd) m) (al_redis st)"
proof -
  have "foldl (\<lambda>r (_, user). rc_LPUSH rc q (dto user) r) r m = lpushes rc q (map (dto \<circ> snd) m) r" for r
    by (induction m arbitrary: r) (auto simp: lpushes_def)
  then show ?thesis by (simp add: push_users_def)
qed

definition mail_dto :: "('s, 'r) alarm_env \<Rightarrow> Event \<Rightarrow> User \<Rightarrow> MailDto" where
  "mail_dto env e u = \<lparr> ml_Priority = the (Event_Priority e), ml_Metric = the (Event_Metric e),
     ml_Subject = the (BuildCommonSMSContent env e), ml_Content = the (BuildCommonMailContent env e), ml_Email = us_Email u,
     ml_Status = ev_Status e \<rparr>"

lemma mail_key_dto: "mail_key (mail_dto env e u) = mail_key (mail_dto env e u') \<Longrightarrow> us_Email u = us_Email u'"
  by (simp add: mail_key_def mail_dto_def)

lemma ParseUserMail_redis:
  assumes "event_ready e" "teams_ok env" "\<forall>t \<in> set (str_split comma (ac_Uic a)). t \<noteq> [] \<longrightarrow> ae_team env t \<noteq> None"
  shows "\<exists>st'. ParseUserMail env e a st = Some st'
    \<and> al_redis st' = lpushes (ae_rc env) (ae_UserMailQueue env) (map (MailDto_json \<circ> mail_dto env e \<circ> snd) (team_members env (ac_Uic a))) (al_redis st)"
proof -
  from GetUsers_eq [OF assms(2,3)] obtain st1 where u: "GetUsers env (ac_Uic a) st = Some (team_members env (ac_Uic a), st1)"
    "al_redis st1 = al_redis st" by blast
  from contents_total [OF assms(1), of env] obtain s ml where
    c: "BuildCommonSMSContent env e = Some s" "BuildCommonMailContent env e = Some ml" by metis
  obtain q k where f: "Event_Priority e = Some q" "Event_Metric e = Some k" by (rule event_ready_fields [OF assms(1)])
  show ?thesis using u by (simp add: ParseUserMail_def c f push_users_redis mail_dto_def comp_def)
qed

lemma ParseUser_others:
  assumes "event_ready e" "teams_ok env" "\<forall>t \<in> set (str_split comma (ac_Uic a)). t \<noteq> [] \<longrightarrow> ae_team env t \<noteq> None"
  shows "\<exists>st' ms. ParseUserSms env e a st = Some st' \<and> al_redis st' = lpushes (ae_rc env) (ae_UserSmsQueue env) ms (al_redis st)"
    "\<exists>st' ms. ParseUserIm env e a st = Some st' \<and> al_redis st' = lpushes (ae_rc env) (ae_UserIMQueue env) ms (al_redis st)"
proof -
  from GetUsers_eq [OF assms(2,3)] obtain st1 where u: "GetUsers env (ac_Uic a) st = Some (team_members env (ac_Uic a), st1)"
    "al_redis st1 = al_redis st" by blast
  from contents_total [OF assms(1), of env] obtain s ml where
    c: "BuildCommonSMSContent env e = Some s" "BuildCommonIMContent env e = Some ml" by metis
  obtain q k where f: "Event_Priority e = Some q" "Event_Metric e = Some k" by (rule event_ready_fields [OF assms(1)])
  show "\<exists>st' ms. ParseUserSms env e a st = Some st' \<and> al_redis st' = lpushes (ae_rc env) (ae_UserSmsQueue env) ms (al_redis st)"
    using u by (force simp: ParseUserSms_def c f push_users_redis)
  show "\<exists>st' ms. ParseUserIm env e a st = Some st' \<and> al_redis st' = lpushes (ae_rc env) (ae_UserIMQueue env) ms (al_redis st)"
    using u by (force simp: ParseUserIm_def c f push_users_redis)
qed

lemma consumeLowEvents_mails:
  assumes "event_ready e" "teams_ok env" "\<forall>t \<in> set (str_split comma (ac_Uic a)). t \<noteq> [] \<longrightarrow> ae_team env t \<noteq> None" "ac_Uic a \<noteq> []"
    and "redis_laws (ae_rc env) rl" "ae_UserMailQueue env \<notin> {ae_UserSmsQueue env, ae_UserIMQueue env}"
  shows "\<exists>st'. consumeLowEvents env e a st = Some st'
    \<and> rl (al_redis st') (ae_UserMailQueue env) =
        rev (map (Some \<circ> MailDto_json \<circ> mail_dto env e \<circ> snd) (team_members env (ac_Uic a))) @ rl (al_redis st) (ae_UserMailQueue env)"
proof -
  let ?q = "ae_UserMailQueue env"
  note push = lpushes_lists [OF assms(5)]
  obtain p where p: "Event_Priority e = Some p" by (rule event_ready_fields [OF assms(1)])
  obtain st0 ms where sms: "ParseUserSms env e a st = Some st0" "al_redis st0 = lpushes (ae_rc env) (ae_UserSmsQueue env) ms (al_redis st)"
    using ParseUser_others(1) [OF assms(1-3), of st] by blast
  have "rl (al_redis st0) ?q = rl (al_redis st) ?q" using assms(6) by (simp add: sms(2) push)
  then obtain st1 where 1: "(if p < 3 then ParseUserSms env e a st else Some st) = Some st1" "rl (al_redis st1) ?q = rl (al_redis st) ?q"
    using sms(1) by (cases "p < 3") auto
  obtain st2 ms where im: "ParseUserIm env e a st1 = Some st2" "al_redis st2 = lpushes (ae_rc env) (ae_UserIMQueue env) ms (al_redis st1)"
    using ParseUser_others(2) [OF assms(1-3), of st1] by blast
  have 2: "rl (al_redis st2) ?q = rl (al_redis st1) ?q" using assms(6) by (simp add: im(2) push)
  obtain st3 where 3: "ParseUserMail env e a st2 = Some st3"
    "al_redis st3 = lpushes (ae_rc env) ?q (map (MailDto_json \<circ> mail_dto env e \<circ> snd) (team_members env (ac_Uic a))) (al_redis st2)"
    using ParseUserMail_redis [OF assms(1-3), of st2] by blast
  have "consumeLowEvents env e a st = Some st3" using assms(4) p 1(1) im(1) 3(1) by (simp add: consumeLowEvents_def)
  then show ?thesis using 1(2) 2 by (simp add: 3(2) push comp_assoc)
qed

lemma join_with_sublist: "x \<in> set xs \<Longrightarrow> sublist x (join_with sep xs)"
proof (induction sep xs rule: join_with.induct)
  case (3 sep y z zs)
  show ?case
  proof (cases "x = y")
    case False
    with 3 have "sublist x (join_with sep (z # zs))" by simp
    then obtain ps ss where "join_with sep (z # zs) = ps @ x @ ss" by (auto simp: sublist_def)
    then have "join_with sep (y # z # zs) = (y @ sep @ ps) @ x @ ss" by simp
    then show ?thesis unfolding sublist_def by blast
  qed simp
qed simp_all

section \<open>Properties\<close>

text \<open>C33: Combining the queued mails empties their queue and writes one mail per group of messages with the same key: the groups
  contain every message exactly once, and when equal keys mean equal priority, status, address and metric
  each mail goes to the address of all its messages.\<close>

theorem combine_mail_delivers:
  assumes "redis_laws (ae_rc env) rl" "ae_UserMailQueue env \<noteq> ''/mail''"
    and "\<forall>d \<in> set dtos. \<forall>d' \<in> set dtos. mail_key d = mail_key d' \<longrightarrow> ml_Email d = ml_Email d'"
    and "rl r (ae_UserMailQueue env) = map (Some \<circ> MailDto_json) dtos"
  shows "\<exists>r' gs. combineMail env r = Some (Some r') \<and> rl r' (ae_UserMailQueue env) = []
    \<and> rl r' ''/mail'' = rev (map (Some \<circ> Mail_json \<circ> group_mail) gs) @ rl r ''/mail''
    \<and> mset (concat gs) = mset dtos \<and> distinct (map (mail_key \<circ> hd) gs)
    \<and> (\<forall>g \<in> set gs. g \<noteq> [] \<and> (\<forall>d \<in> set g. mail_key d = mail_key (hd g) \<and> ml_Email d = mail_Tos (group_mail g)))"
proof -
  let ?q = "ae_UserMailQueue env" and ?gs = "map snd (by_key mail_key (rev dtos))"
  have "rev dtos = decoded MailDto_of (rev (rl r ?q))"
    using decoded_encoded [of MailDto_of MailDto_json "rev dtos"] by (simp add: assms(4) rev_map comp_def)
  from combineMail_groups [OF assms(1,2) this] obtain r' where r': "combineMail env r = Some (Some r')" "rl r' ?q = []"
    "rl r' ''/mail'' = rev (map (Some \<circ> Mail_json \<circ> group_mail) ?gs) @ rl r ''/mail''" by blast
  have grp: "g \<noteq> [] \<and> set g \<subseteq> set dtos \<and> (\<forall>d \<in> set g. mail_key d = k)" if "(k, g) \<in> set (by_key mail_key (rev dtos))" for k g
    using by_key_group [OF that] by simp
  have keys: "map (mail_key \<circ> hd) ?gs = map fst (by_key mail_key (rev dtos))"
    using grp by (force simp: comp_def)
  have dist: "distinct (map (mail_key \<circ> hd) ?gs)" unfolding keys using by_key_ok [of mail_key "rev dtos"] by (simp add: gomap_ok_def)
  have addr: "\<forall>g \<in> set ?gs. g \<noteq> [] \<and> (\<forall>d \<in> set g. mail_key d = mail_key (hd g) \<and> ml_Email d = mail_Tos (group_mail g))"
  proof
    fix g assume "g \<in> set ?gs"
    then obtain k where k: "(k, g) \<in> set (by_key mail_key (rev dtos))" by force
    from grp [OF this] have g: "g \<noteq> []" "set g \<subseteq> set dtos" "\<forall>d \<in> set g. mail_key d = k" by simp_all
    then have h: "hd g \<in> set g" by simp
    have "mail_key d = mail_key (hd g) \<and> ml_Email d = mail_Tos (group_mail g)" if "d \<in> set g" for d
    proof -
      have "mail_key d = mail_key (hd g)" using g(3) h that by simp
      moreover have "ml_Email d = ml_Email (hd g)"
        by (rule assms(3) [rule_format, OF _ _ calculation]) (use g(2) h that in auto)
      ultimately show ?thesis by (simp add: group_mail_def)
    qed
    with g(1) show "g \<noteq> [] \<and> (\<forall>d \<in> set g. mail_key d = mail_key (hd g) \<and> ml_Email d = mail_Tos (group_mail g))" by blast
  qed
  have "mset (concat ?gs) = mset dtos" using by_key_mset [of mail_key "rev dtos"] by simp
  with r' dist addr show ?thesis by blast
qed

definition demo_mail :: "string \<Rightarrow> string \<Rightarrow> string \<Rightarrow> MailDto" where
  "demo_mail email metric content = \<lparr> ml_Priority = 4, ml_Metric = metric, ml_Subject = ''s'', ml_Content = content, ml_Email = email,
     ml_Status = ''PROBLEM'' \<rparr>"

definition list_set_ops :: "('e, 'e list) set_ops" where
  "list_set_ops = \<lparr> so_New = [], so_Add = (\<lambda>x s. if x \<in> set s then s else s @ [x]), so_Exists = (\<lambda>s x. x \<in> set s), so_ToSlice = (\<lambda>s. s) \<rparr>"

definition demo_users :: "User list" where
  "demo_users = [\<lparr> us_Name = ''ann'', us_Email = ''ann@x.cn'', us_Phone = ''1'', us_IM = ''a'' \<rparr>,
     \<lparr> us_Name = ''bob'', us_Email = ''bob@x.cn'', us_Phone = ''2'', us_IM = ''b'' \<rparr>]"

definition demo_env :: "(string list, Mem_redis) alarm_env" where
  "demo_env = \<lparr> ae_Dashboard = ''http://d'', ae_HighQueues = [''event:p0''], ae_LowQueues = [''event:p4''],
     ae_UserSmsQueue = ''/queue/user/sms'', ae_UserMailQueue = ''/queue/user/mail'', ae_UserIMQueue = ''/queue/user/im'',
     ae_Sms = ''http://sms'', ae_Mail = ''http://mail'', ae_IM = ''http://im'', ae_EventRetentionDays = 7, ae_EventDeleteBatch = 100,
     ae_action = (\<lambda>i. Some \<lparr> ac_Id = i, ac_Uic = ''ops'', ac_Url = [], ac_Callback = 0, ac_BeforeCallbackSms = 0,
       ac_BeforeCallbackMail = 0, ac_AfterCallbackSms = 0, ac_AfterCallbackMail = 0 \<rparr>),
     ae_team = (\<lambda>_. Some (map Some demo_users)), ae_link = (\<lambda>_. Inr ''1''), ae_get = (\<lambda>_ _. ([], None)), ae_time = (\<lambda>_. ''now''),
     ae_cases = (\<lambda>_. []), ae_set = list_set_ops, ae_rc = mem_ops \<rparr>"

definition demo_redis :: "MailDto list \<Rightarrow> Mem_redis" where
  "demo_redis dtos = \<lparr> mr_lists = (\<lambda>_. [])(''/queue/user/mail'' := map (Some \<circ> MailDto_json) dtos), mr_events = (\<lambda>_. []) \<rparr>"

theorem combine_mail_delivers_witness:
  "\<exists>r'. combineMail demo_env (demo_redis [demo_mail ''ann@x.cn'' ''cpu'' ''one'', demo_mail ''ann@x.cn'' ''cpu'' ''two'']) = Some (Some r')
    \<and> mr_lists r' ''/queue/user/mail'' = []"
proof -
  let ?ds = "[demo_mail ''ann@x.cn'' ''cpu'' ''one'', demo_mail ''ann@x.cn'' ''cpu'' ''two'']"
  have laws: "redis_laws (ae_rc demo_env) mr_lists" by (simp add: demo_env_def mem_ops_laws)
  have q: "ae_UserMailQueue demo_env \<noteq> ''/mail''" by (simp add: demo_env_def)
  have l: "mr_lists (demo_redis ?ds) (ae_UserMailQueue demo_env) = map (Some \<circ> MailDto_json) ?ds" by (simp add: demo_env_def demo_redis_def)
  have k: "\<forall>d \<in> set ?ds. \<forall>d' \<in> set ?ds. mail_key d = mail_key d' \<longrightarrow> ml_Email d = ml_Email d'" by (simp add: demo_mail_def)
  from combine_mail_delivers [where env = demo_env and rl = mr_lists and r = "demo_redis ?ds", OF laws q k l] obtain r' where
    "combineMail demo_env (demo_redis ?ds) = Some (Some r')" "mr_lists r' (ae_UserMailQueue demo_env) = []" by (elim exE conjE)
  moreover have "ae_UserMailQueue demo_env = ''/queue/user/mail''" by (simp add: demo_env_def)
  ultimately show ?thesis by metis
qed



definition demo_low_rule :: Expression where
  "demo_low_rule = \<lparr> ex_Id = 1, ex_Metric = ''cpu.idle'', ex_Tags = [], ex_Func = ''all(#3)'', ex_Operator = ''<'', ex_RightValue = Num 5,
     ex_MaxStep = 3, ex_Priority = 4, ex_Note = ''busy'', ex_ActionId = 7 \<rparr>"

definition demo_low :: Event where
  "demo_low = \<lparr> ev_Id = ''e_1_x'', ev_Strategy = None, ev_Expression = Some demo_low_rule, ev_Status = ''PROBLEM'', ev_Endpoint = ''h'',
     ev_LeftValue = Num 2, ev_CurrentStep = 1, ev_EventTime = 60, ev_PushedTags = [] \<rparr>"


end
