(* ===== verification/Pipeline.thy ===== *)
theory Pipeline
  imports Judge HbsProps AlarmProps
begin

text \<open>
  The modules together: the judge runs on the strategies the heartbeat server computes, and the alarm module consumes the
  events the judge pushed.  The strategies of the heartbeat server carry a template, which is what the alarm
  module needs of them.
\<close>

section \<open>Strategies of the heartbeat server\<close>

lemma ParentIds_last_known:
  assumes "b = ParentIds tpls tid" "b \<noteq> []"
  shows "m_get tpls (last b) \<noteq> None"
proof -
  have c: "climbs tpls (rev b)" using ParentIds_climbs [of b tpls tid] assms by simp
  from assms(2) have "rev b = last b # rev (butlast b)" by (metis append_butlast_last_id rev.simps(2) rev_rev_ident rev_append append_Cons append_Nil)
  with c show ?thesis by (auto split: option.splits)
qed

lemma uniq_tpl_buckets_sub: "set (uniq_tpl_buckets bs) \<subseteq> set bs"
  by (auto simp: uniq_tpl_buckets_def)

lemma CalcInheritStrategies_Tpl:
  assumes "CalcInheritStrategies tpls tids tpl2 = Some ss"
  shows "\<forall>s \<in> set ss. st_Tpl s \<noteq> None"
proof -
  let ?I = "\<lambda>acc :: Strategy list \<times> (int, unit) gomap. \<forall>s \<in> set (fst acc). st_Tpl s \<noteq> None"
  from assms obtain acc where acc: "foldM (emit_bucket tpls tpl2) ([], []) (uniq_tpl_buckets (tpl_buckets tpls tids)) = Some acc" "ss = fst acc"
    by (auto simp: CalcInheritStrategies_def split: bind_splits)
  have "?I acc"
  proof (rule foldM_preserves [OF _ _ acc(1)])
    fix a b a' assume I: "?I a" and b: "b \<in> set (uniq_tpl_buckets (tpl_buckets tpls tids))" and e: "emit_bucket tpls tpl2 a b = Some a'"
    from b have "b \<in> set (tpl_buckets tpls tids)" using uniq_tpl_buckets_sub by blast
    then obtain tid where t: "b = ParentIds tpls tid" "b \<noteq> []" by (auto simp: tpl_buckets_def)
    then have "nat (int (length b) - 1) = length b - 1" by simp
    with t(2) have l: "slice_get b (int (length b) - 1) = Some (last b)" by (simp add: slice_get_def last_conv_nth)
    have f: "foldM (emit_strategy tpls (last b)) a (concat (map snd (bucket_stras_map tpl2 b))) = Some a'"
      using e l by (simp add: emit_bucket_def Let_def)
    show "?I a'"
    proof (rule foldM_preserves [OF _ _ f])
      fix x s x' assume "?I x" "emit_strategy tpls (last b) x s = Some x'"
      with ParentIds_last_known [OF t] show "?I x'"
        by (cases x) (auto simp: emit_strategy_def split: if_splits bind_splits)
    qed (rule I)
  qed simp
  with acc(2) show ?thesis by simp
qed

lemma GetStrategies_Tpl:
  assumes "GetStrategies hs = Some hss"
  shows "\<forall>h \<in> set hss. \<forall>s \<in> set (hs_Strategies h). st_Tpl s \<noteq> None"
proof (cases "HostTemplateIds hs = [] \<or> MonitoredHosts hs = [] \<or> TemplateCache hs = [] \<or> Strategies hs = []")
  case False
  then have "foldM (host_strategies hs (Tpl2Strategies (Strategies hs))) [] (HostTemplateIds hs) = Some hss"
    using assms by (simp add: GetStrategies_def)
  then show ?thesis
    by (rule foldM_preserves [rotated 2])
      (auto simp: host_strategies_def split: option.splits bind_splits if_splits dest!: CalcInheritStrategies_Tpl)
qed (use assms in \<open>simp add: GetStrategies_def\<close>)

section \<open>Events of the judge\<close>

definition adds_ready :: "Judge_state \<Rightarrow> Judge_state \<Rightarrow> bool" where
  "adds_ready st st' \<longleftrightarrow> js_StrategyMap st' = js_StrategyMap st
     \<and> (\<forall>qe \<in> set (js_redis st'). qe \<in> set (js_redis st) \<or> event_ready (snd qe))"

definition strategies_ready :: "Judge_state \<Rightarrow> bool" where
  "strategies_ready st \<longleftrightarrow> (\<forall>k ss. m_get (js_StrategyMap st) k = Some ss \<longrightarrow> (\<forall>s \<in> set ss. st_Tpl s \<noteq> None))"

lemma adds_ready_refl [simp]: "adds_ready st st"
  by (simp add: adds_ready_def)

lemma adds_ready_trans [trans]: "adds_ready a b \<Longrightarrow> adds_ready b c \<Longrightarrow> adds_ready a c"
  by (auto simp: adds_ready_def)

lemma adds_ready_strategies: "adds_ready st st' \<Longrightarrow> strategies_ready st' = strategies_ready st"
  by (simp add: adds_ready_def strategies_ready_def)

lemma sendEvent_ready:
  "sendEvent cfg e st = Some st' \<Longrightarrow> event_ready e \<Longrightarrow> adds_ready st st'"
  by (auto simp: sendEvent_def adds_ready_def Let_def split: if_splits bind_splits)

lemma event_ready_notice [simp]: "event_ready (e\<lparr>ev_Status := s, ev_CurrentStep := n\<rparr>) = event_ready e"
  by (simp add: event_ready_def split: option.split)

lemma sendEventIfNeed_ready:
  "sendEventIfNeed cfg hs trig now e maxStep st = Some st' \<Longrightarrow> event_ready e \<Longrightarrow> adds_ready st st'"
  by (auto simp: sendEventIfNeed_def Let_def intro: sendEvent_ready split: if_splits option.splits bind_splits)

lemma judgeItemWithStrategy_ready:
  assumes "judgeItemWithStrategy cfg L s t now st = Some st'" "st_Tpl s \<noteq> None"
  shows "adds_ready st st'"
proof -
  have r: "event_ready (strategy_event s t lv)" for lv using assms(2) by (simp add: event_ready_def strategy_event_def)
  show ?thesis using assms(1)
    by (auto simp: judgeItemWithStrategy_def split: bind_splits sum.splits if_splits dest: sendEventIfNeed_ready [OF _ r])
qed

lemma judgeItemWithExpression_ready:
  assumes "judgeItemWithExpression cfg L x t now st = Some st'"
  shows "adds_ready st st'"
proof -
  have r: "event_ready (expression_event x t lv)" for lv by (simp add: event_ready_def expression_event_def)
  show ?thesis using assms
    by (auto simp: judgeItemWithExpression_def split: bind_splits sum.splits if_splits dest: sendEventIfNeed_ready [OF _ r])
qed

lemma CheckStrategy_ready:
  assumes "CheckStrategy cfg L t now st = Some st'" "strategies_ready st"
  shows "adds_ready st st'"
proof (cases "m_get (js_StrategyMap st) (ji_Endpoint t @ ''/'' @ ji_Metric t)")
  case None
  with assms show ?thesis by (simp add: CheckStrategy_def)
next
  case (Some ss)
  then have ss: "\<forall>s \<in> set ss. st_Tpl s \<noteq> None" using assms(2) unfolding strategies_ready_def by blast
  from Some assms have f: "foldM (\<lambda>st s. if \<not> tags_subset (st_Tags s) (ji_Tags t) then Some st
      else judgeItemWithStrategy cfg L s t now st) st ss = Some st'" by (simp add: CheckStrategy_def)
  show ?thesis
  proof (rule foldM_preserves [OF _ _ f])
    fix a s b assume a: "adds_ready st a" "s \<in> set ss"
      and b: "(if \<not> tags_subset (st_Tags s) (ji_Tags t) then Some a else judgeItemWithStrategy cfg L s t now a) = Some b"
    show "adds_ready st b"
    proof (cases "tags_subset (st_Tags s) (ji_Tags t)")
      case True
      then have "adds_ready a b" using b ss a(2) judgeItemWithStrategy_ready by simp
      with a(1) show ?thesis by (rule adds_ready_trans)
    qed (use a b in simp)
  qed simp
qed

lemma handle_expression_ready:
  assumes "handle_expression cfg L t now hs x = Some hs'"
  shows "adds_ready (snd hs) (snd hs')"
  using assms judgeItemWithExpression_ready
  by (cases hs) (auto simp: handle_expression_def split: if_splits bind_splits)

lemma CheckExpression_ready:
  assumes "CheckExpression cfg L t now st = Some st'"
  shows "adds_ready st st'"
proof -
  let ?I = "\<lambda>hs. adds_ready st (snd hs)"
  have inner: "?I hs'" if "?I hs" "foldM (handle_expression cfg L t now) hs xs = Some hs'" for hs hs' xs
    using that(2)
    by (rule foldM_preserves [where I = ?I, rotated 2])
      (use that(1) in \<open>auto intro: adds_ready_trans dest: handle_expression_ready\<close>)
  from assms obtain handled where "foldM (\<lambda>hs key.
      case m_get (js_ExpressionMap st) key of
        None \<Rightarrow> Some hs
      | Some xs \<Rightarrow> foldM (handle_expression cfg L t now) hs (filterRelatedExpressions xs t))
      ([], st) (buildKeysFromMetricAndTags t) = Some (handled, st')"
    by (auto simp: CheckExpression_def buildKeysFromMetricAndTags_def Let_def split: bind_splits)
  then have "?I (handled, st')"
    by (rule foldM_preserves [where I = ?I, rotated 2]) (auto split: option.splits dest: inner)
  then show ?thesis by simp
qed

lemma Judge_ready:
  assumes "Judge cfg L t now st = Some st'" "strategies_ready st"
  shows "adds_ready st st'"
proof -
  from assms(1) obtain st1 where "CheckStrategy cfg L t now st = Some st1" "CheckExpression cfg L t now st1 = Some st'"
    by (auto simp: Judge_def split: bind_splits)
  from adds_ready_trans [OF CheckStrategy_ready [OF this(1) assms(2)] CheckExpression_ready [OF this(2)]] show ?thesis .
qed

lemma Send_item_ready:
  assumes "Send_item cfg now st pitem = Some st'" "strategies_ready st"
  shows "adds_ready st st'"
proof -
  have put: "adds_ready st (st\<lparr>js_HistoryBigMap := m\<rparr>)" "strategies_ready (st\<lparr>js_HistoryBigMap := m\<rparr>)" for m
    using assms(2) by (simp_all add: adds_ready_def strategies_ready_def)
  have j: "adds_ready st st'" if "Judge cfg L v now (st\<lparr>js_HistoryBigMap := m\<rparr>) = Some st'" for L v m
    using put(1) Judge_ready [OF that put(2)] by (rule adds_ready_trans)
  from assms(1) show ?thesis
    by (auto simp: Send_item_def JudgeItemMap_PushFrontAndMaintain_def Let_def put(1) split: bind_splits if_splits option.splits dest: j)
qed

lemma Send_ready:
  assumes "Send cfg now items st = Some st'" "strategies_ready st"
  shows "adds_ready st st'"
proof -
  have f: "foldM (Send_item cfg now) st items = Some st'" using assms(1) by (simp add: Send_def)
  have "adds_ready st st' \<and> strategies_ready st'"
  proof (rule foldM_preserves [where I = "\<lambda>s. adds_ready st s \<and> strategies_ready s", OF _ _ f])
    fix a x b assume a: "adds_ready st a \<and> strategies_ready a" and b: "Send_item cfg now a x = Some b"
    from Send_item_ready [OF b] a have "adds_ready a b" by blast
    with a show "adds_ready st b \<and> strategies_ready b" using adds_ready_trans adds_ready_strategies by blast
  qed (use assms(2) in simp)
  then show ?thesis by blast
qed

section \<open>The judge on the heartbeat server\<close>

text \<open>A judge that gets its strategies from the heartbeat server, in any of its states; a call may fail.\<close>

inductive served :: "Judge_config \<Rightarrow> Judge_state \<Rightarrow> bool" for cfg where
  served_start: "served cfg judge_start"
| served_send: "served cfg st \<Longrightarrow> Send cfg now items st = Some st' \<Longrightarrow> served cfg st'"
| served_strategies: "served cfg st \<Longrightarrow> GetStrategies hs = Some hss \<Longrightarrow> served cfg (syncStrategies (Inr hss) st)"
| served_failure: "served cfg st \<Longrightarrow> served cfg (syncStrategies (Inl err) st)"
| served_expressions: "served cfg st \<Longrightarrow> served cfg (syncExpression ereply st)"
| served_filter: "served cfg st \<Longrightarrow> served cfg (syncFilter st)"
| served_clean: "served cfg st \<Longrightarrow> cleanStale now st = Some st' \<Longrightarrow> served cfg st'"

definition judge_ready :: "Judge_state \<Rightarrow> bool" where
  "judge_ready st \<longleftrightarrow> strategies_ready st \<and> (\<forall>qe \<in> set (js_redis st). event_ready (snd qe))"

lemma strategies_ready_sync:
  assumes "\<forall>h \<in> set hss. \<forall>s \<in> set (hs_Strategies h). st_Tpl s \<noteq> None"
  shows "strategies_ready (syncStrategies (Inr hss) st)"
proof -
  have "\<forall>ks \<in> set (strategy_pairs hss). st_Tpl (snd ks) \<noteq> None" using assms by (auto simp: strategy_pairs_def)
  then have "\<not> (\<exists>k ss s. m_get (js_StrategyMap (rebuildStrategyMap hss st)) k = Some ss \<and> s \<in> set ss \<and> st_Tpl s = None)"
    unfolding rebuildStrategyMap_pairs m_appends_values by blast
  then show ?thesis unfolding strategies_ready_def syncStrategies_def sum.case by metis
qed

lemma cleanStale_ready:
  assumes "cleanStale now st = Some st'"
  shows "adds_ready st st'"
proof -
  from assms have "foldM (\<lambda>st p. do {
      m \<leftarrow> m_get (js_HistoryBigMap st) p;
      Some (st\<lparr>js_HistoryBigMap := m_set p (JudgeItemMap_CleanStale (i64 (now - 3600 * 24 * 7)) m) (js_HistoryBigMap st)\<rparr>) })
      st hex_pairs = Some st'" by (simp add: cleanStale_def Let_def)
  then show ?thesis
    by (rule foldM_preserves [rotated 2]) (auto simp: adds_ready_def split: bind_splits)
qed

lemma judge_ready_adds: "judge_ready st \<Longrightarrow> adds_ready st st' \<Longrightarrow> judge_ready st'"
  using adds_ready_strategies [of st st'] unfolding judge_ready_def adds_ready_def by blast

lemma served_ready: "served cfg st \<Longrightarrow> judge_ready st"
proof (induction rule: served.induct)
  case served_start
  then show ?case by (simp add: judge_ready_def strategies_ready_def judge_start_def InitHistoryBigMap_def)
next
  case (served_send st now items st')
  then show ?case using Send_ready judge_ready_adds unfolding judge_ready_def by blast
next
  case (served_strategies st hs hss)
  have "js_redis (syncStrategies (Inr hss) st) = js_redis st"
    by (simp add: syncStrategies_def rebuildStrategyMap_def SafeStrategyMap_ReInit_def)
  with served_strategies strategies_ready_sync [OF GetStrategies_Tpl [OF served_strategies(2)], of st] show ?case
    by (simp add: judge_ready_def)
next
  case (served_expressions st ereply)
  then show ?case
    by (cases ereply) (simp_all add: syncExpression_def rebuildExpressionMap_def SafeExpressionMap_ReInit_def judge_ready_def strategies_ready_def)
next
  case (served_filter st)
  then show ?case by (simp add: syncFilter_def SafeFilterMap_ReInit_def judge_ready_def strategies_ready_def Let_def)
next
  case (served_clean st now st')
  then show ?case using cleanStale_ready judge_ready_adds by blast
qed (simp add: syncStrategies_def)

text \<open>One event handled by the alarm module: recorded, then consumed from a queue of high or low priority.\<close>

definition handle_event :: "'r Alarm_state \<Rightarrow> ('s, 'r) alarm_env \<times> Event \<times> bool \<Rightarrow> 'r Alarm_state go" where
  "handle_event st = (\<lambda>(env, event, isHigh). do { st' \<leftarrow> InsertEvent env event st; consume env event isHigh st' })"

lemma handle_event_total:
  assumes "event_ready e" "teams_ok env" "null_free (Users st)"
  shows "\<exists>st'. handle_event st (env, e, isHigh) = Some st' \<and> null_free (Users st')"
proof -
  from InsertEvent_total [OF assms(1), of env st] obtain st1 where 1: "InsertEvent env e st = Some st1" "Users st1 = Users st" by blast
  from consume_total [OF assms(1,2), of st1 isHigh] 1 assms(3) show ?thesis by (simp add: handle_event_def)
qed

lemma handle_events_total:
  assumes "\<forall>(env, e, isHigh) \<in> set xs. event_ready e \<and> teams_ok env" "null_free (Users st)"
  shows "\<exists>st'. foldM handle_event st xs = Some st' \<and> null_free (Users st')"
  by (rule foldM_invariant) (use assms handle_event_total in fastforce)+

section \<open>An event from end to end\<close>

definition pipe_strategy :: Strategy where
  "pipe_strategy = (demo_hbs_strategy 10 1)\<lparr>st_Func := ''all(#1)''\<rparr>"

definition pipe_hbs :: Hbs_state where
  "pipe_hbs = \<lparr> Agents = [], ExpressionCache = [], HostGroupsMap = [], HostMap = [],
     MonitoredHosts = [(1, \<lparr> ho_Id = 1, ho_Name = ''h'' \<rparr>)], GroupPlugins = [], Strategies = [(10, pipe_strategy)], GroupTemplates = [],
     TemplateCache = demo_tpls, HostTemplateIds = [(1, [1])], executed = [] \<rparr>"

definition pipe_config :: Judge_config where
  "pipe_config = \<lparr> jc_Remain = 5, jc_MinInterval = 300, jc_QueuePattern = (\<lambda>p. ''event:p'' @ Itoa p) \<rparr>"

definition pipe_item :: JudgeItem where
  "pipe_item = \<lparr> ji_Endpoint = ''h'', ji_Metric = ''cpu.idle'', ji_Value = Num 2, ji_Timestamp = 60, ji_JudgeType = ''GAUGE'', ji_Tags = [] \<rparr>"

definition pipe_state :: Judge_state where
  "pipe_state = syncFilter (syncStrategies (Inr [\<lparr> hs_Hostname = ''h'', hs_Strategies = [pipe_strategy] \<rparr>]) judge_start)"

lemma pipe_served: "served pipe_config pipe_state"
proof -
  have "GetStrategies pipe_hbs = Some [\<lparr> hs_Hostname = ''h'', hs_Strategies = [pipe_strategy] \<rparr>]" by code_simp
  from served_filter [OF served_strategies [OF served_start this]] show ?thesis by (simp add: pipe_state_def)
qed

lemma judge_start_maps:
  "js_StrategyMap judge_start = []" "js_ExpressionMap judge_start = []" "js_LastEvents judge_start = []" "js_redis judge_start = []"
  by (simp_all add: judge_start_def InitHistoryBigMap_def)

lemma pipe_state_maps:
  "js_StrategyMap pipe_state = [(''h/cpu.idle'', [pipe_strategy])]" "js_ExpressionMap pipe_state = []" "js_LastEvents pipe_state = []"
  "js_redis pipe_state = []" "js_FilterMap pipe_state = [(''cpu.idle'', ''cpu.idle'')]"
  "js_HistoryBigMap pipe_state = js_HistoryBigMap judge_start"
proof -
  have m: "st_Metric pipe_strategy = ''cpu.idle''" by (simp add: pipe_strategy_def demo_hbs_strategy_def)
  note defs = pipe_state_def syncFilter_def SafeFilterMap_ReInit_def syncStrategies_def rebuildStrategyMap_def SafeStrategyMap_ReInit_def
  show "js_StrategyMap pipe_state = [(''h/cpu.idle'', [pipe_strategy])]" by (simp add: defs m m_append_def)
  show "js_ExpressionMap pipe_state = []" "js_LastEvents pipe_state = []" "js_redis pipe_state = []"
    "js_HistoryBigMap pipe_state = js_HistoryBigMap judge_start" by (simp_all add: defs judge_start_maps)
  show "js_FilterMap pipe_state = [(''cpu.idle'', ''cpu.idle'')]" by (simp add: defs m judge_start_maps m_append_def)
qed

lemma judge_start_shard: "p \<in> set hex_pairs \<Longrightarrow> m_get (js_HistoryBigMap judge_start) p = Some []"
proof -
  have "m_get (foldl (\<lambda>m p. m_set p NewJudgeItemMap m) m ps) p = (if p \<in> set ps then Some [] else m_get m p)" for m ps
    by (induction ps arbitrary: m) (auto simp: NewJudgeItemMap_def)
  then show "p \<in> set hex_pairs \<Longrightarrow> m_get (js_HistoryBigMap judge_start) p = Some []"
    by (simp add: judge_start_def InitHistoryBigMap_def)
qed

lemma pipe_Compute:
  "ParseFuncFromString ''all(#1)'' ''<'' (Num 5) = Some (Inr (AllFunction 1 ''<'' (Num 5)))"
  "AllFunction_Compute 1 ''<'' (Num 5) [pipe_item] = Some ([\<lparr> hd_Timestamp = 60, hd_Value = Num 2 \<rparr>], Num 2, True, True)"
  by code_simp+

lemma pipe_event:
  "\<exists>st'. Send pipe_config 200 [Some pipe_item] pipe_state = Some st'
    \<and> map snd (js_redis st') = [(strategy_event pipe_strategy pipe_item (Num 2))\<lparr>ev_Status := ''PROBLEM'', ev_CurrentStep := 1\<rparr>]"
proof -
  let ?pk = "JudgeItem_PrimaryKey pipe_item"
  let ?st = "pipe_state\<lparr>js_HistoryBigMap := m_set (take 2 ?pk) (JudgeItemMap_Set ?pk [pipe_item] []) (js_HistoryBigMap pipe_state)\<rparr>"
  have shard: "slice_sub ?pk 0 2 = Some (take 2 ?pk)" by (simp add: slice_sub_def)
  have push: "Send pipe_config 200 [Some pipe_item] pipe_state = Judge pipe_config [pipe_item] pipe_item 200 ?st"
    using judge_start_shard [OF PrimaryKey_shard(2) [of pipe_item]] shard
    by (simp add: Send_def Send_item_def SafeFilterMap_Exists_def pipe_state_maps JudgeItemMap_PushFrontAndMaintain_def JudgeItemMap_Get_def Let_def
        pipe_item_def split: option.split)
  have st: "st_Func pipe_strategy = ''all(#1)''" "st_Operator pipe_strategy = ''<''" "st_RightValue pipe_strategy = Num 5"
    "st_MaxStep pipe_strategy = 3" "st_Tags pipe_strategy = []" "st_Priority pipe_strategy = 0"
    by (simp_all add: pipe_strategy_def demo_hbs_strategy_def)
  let ?e = "(strategy_event pipe_strategy pipe_item (Num 2))\<lparr>ev_Status := ''PROBLEM'', ev_CurrentStep := 1\<rparr>"
  have "event_marshals ?e"
    by (simp add: event_marshals_def strategy_event_def finite_f64_def is_nan_def is_inf_def st)
  then have send: "sendEvent pipe_config ?e ?st = Some (?st\<lparr>js_LastEvents := SafeEventMap_Set (ev_Id ?e) ?e [], js_redis := [(''event:p'' @ Itoa 0, ?e)]\<rparr>)"
    by (simp add: sendEvent_def pipe_state_maps Event_Priority_def event_field_def strategy_event_def Let_def st pipe_config_def)
  have it: "ji_Endpoint pipe_item = ''h''" "ji_Metric pipe_item = ''cpu.idle''" "ji_Tags pipe_item = []" by (simp_all add: pipe_item_def)
  have tags: "tags_subset ([] :: tags) ([] :: tags)" by code_simp
  have "CheckStrategy pipe_config [pipe_item] pipe_item 200 ?st = sendEvent pipe_config ?e ?st"
    by (simp add: CheckStrategy_def pipe_state_maps it st tags judgeItemWithStrategy_def pipe_Compute sendEventIfNeed_def
        SafeEventMap_Get_def Let_def split: option.split)
  then show ?thesis unfolding push Judge_def send
    by (simp add: CheckExpression_def buildKeysFromMetricAndTags_def pipe_state_maps it Let_def)
qed

section \<open>Property\<close>

text \<open>C32: The alarm module handles every event a judge pushed that runs on the strategies of the heartbeat server: recording and
  consuming any sequence of them, from queues of high or low priority, does not panic, as long as the user
  lists of the API module have no null entries.\<close>

theorem judged_events_handled:
  assumes "served cfg st" "\<forall>(env, e, isHigh) \<in> set xs. e \<in> snd ` set (js_redis st) \<and> teams_ok env"
  shows "\<exists>st'. foldM handle_event \<lparr> al_redis = r, Actions = [], Users = [], al_sql = [], al_http = [] \<rparr> xs = Some st'"
proof -
  have "\<forall>qe \<in> set (js_redis st). event_ready (snd qe)" using served_ready [OF assms(1)] by (simp add: judge_ready_def)
  with assms(2) have "\<forall>(env, e, isHigh) \<in> set xs. event_ready e \<and> teams_ok env" by fastforce
  moreover have "null_free (Users \<lparr> al_redis = r, Actions = [], Users = [], al_sql = [], al_http = [] \<rparr>)" by (simp add: null_free_def)
  ultimately have "\<exists>st'. foldM handle_event \<lparr> al_redis = r, Actions = [], Users = [], al_sql = [], al_http = [] \<rparr> xs = Some st'
      \<and> null_free (Users st')" by (rule handle_events_total)
  then show ?thesis by (elim exE conjE) (rule exI)
qed

theorem judged_events_handled_witness:
  "\<exists>st st'. Send pipe_config 200 [Some pipe_item] pipe_state = Some st \<and> js_redis st \<noteq> []
    \<and> foldM handle_event \<lparr> al_redis = demo_redis [], Actions = [], Users = [], al_sql = [], al_http = [] \<rparr>
        (map (\<lambda>qe. (demo_env, snd qe, True)) (js_redis st)) = Some st'"
proof -
  obtain st where st: "Send pipe_config 200 [Some pipe_item] pipe_state = Some st"
    "map snd (js_redis st) = [(strategy_event pipe_strategy pipe_item (Num 2))\<lparr>ev_Status := ''PROBLEM'', ev_CurrentStep := 1\<rparr>]"
    using pipe_event by (elim exE conjE)
  have "teams_ok demo_env" by (auto simp: teams_ok_def demo_env_def)
  then have "\<forall>(env, e, isHigh) \<in> set (map (\<lambda>qe. (demo_env, snd qe, True)) (js_redis st)). e \<in> snd ` set (js_redis st) \<and> teams_ok env"
    by auto
  from judged_events_handled [OF served_send [OF pipe_served st(1)] this, of "demo_redis []"] obtain st' where
    "foldM handle_event \<lparr> al_redis = demo_redis [], Actions = [], Users = [], al_sql = [], al_http = [] \<rparr>
        (map (\<lambda>qe. (demo_env, snd qe, True)) (js_redis st)) = Some st'" ..
  moreover have "js_redis st \<noteq> []" using st(2) by (cases "js_redis st") simp_all
  ultimately show ?thesis using st(1) by (intro exI conjI)
qed

end
