(* ===== verification/Api.thy ===== *)
theory Api
  imports Redis CommonUtils
begin

text \<open>
  The users, teams and sessions of the API module (\<open>modules/api/app\<close>): \<open>model/uic\<close>, \<open>helper\<close>, \<open>utils\<close> and
  \<open>controller/uic\<close>.  The database behind the object-relational mapper is a parameter, the record of the queries and commands the
  handlers issue on an abstract state.  A handler returns the calls of \<open>JSONR\<close> it makes, in order, and the new
  state of the database.
\<close>

section \<open>Rows\<close>

record uic_User =
  uu_ID :: int
  uu_Name :: string
  uu_Cnname :: string
  uu_Passwd :: string
  uu_Email :: string
  uu_Phone :: string
  uu_IM :: string
  uu_QQ :: string
  uu_Role :: int

definition no_User :: uic_User where
  "no_User = \<lparr> uu_ID = 0, uu_Name = [], uu_Cnname = [], uu_Passwd = [], uu_Email = [], uu_Phone = [], uu_IM = [],
     uu_QQ = [], uu_Role = 0 \<rparr>"

record Session =
  ss_ID :: int
  ss_Uid :: int
  ss_Sig :: string
  ss_Expired :: int

definition no_Session :: Session where
  "no_Session = \<lparr> ss_ID = 0, ss_Uid = 0, ss_Sig = [], ss_Expired = 0 \<rparr>"

record Team =
  tm_ID :: int
  tm_Name :: string
  tm_Resume :: string
  tm_Creator :: int

record RelTeamUser =
  rt_ID :: int
  rt_Tid :: int
  rt_Uid :: int

record CTeam =
  ct_Team :: Team
  ct_TeamCreator :: string
  ct_Users :: "uic_User list"

section \<open>Inputs\<close>

text \<open>The bodies of requests.  What \<open>Bind\<close> returns is an argument of a handler: the error, or the struct.  Bodies
  of one or two members are passed as such.\<close>

record APIUserUpdateInput =
  ui_Cnname :: string
  ui_Email :: string
  ui_Phone :: string
  ui_IM :: string
  ui_QQ :: string

record APIUserInput = APIUserUpdateInput +
  ui_Name :: string
  ui_Passwd :: string

record APICreateTeamInput =
  ti_Name :: string
  ti_Resume :: string
  ti_UserIDs :: "int list"

record APIUpdateTeamInput = APICreateTeamInput +
  ti_ID :: int

section \<open>The database\<close>

text \<open>The statements of the handlers.  A query that finds no row is an error, as the mapper reports it for a single struct.
  Queries of users by name are one operation, names being unique in the schema.  \<open>q_user_pk\<close> finds by primary key,
  without a condition when that is zero.  \<open>q_rel\<close> takes the struct whose non-zero members
  are the condition; \<open>q_team_member\<close> is the union of the teams a user is a member or the creator of; a pair after a pattern is the
  offset and number of rows.  Commands return the error or the number of rows.\<close>

record 'd uic_ops =
  q_user_by_name :: "string \<Rightarrow> 'd \<Rightarrow> goerror + uic_User"
  q_user_by_id :: "int \<Rightarrow> 'd \<Rightarrow> goerror + uic_User"
  q_user_pk :: "int \<Rightarrow> 'd \<Rightarrow> goerror + uic_User"
  q_users_by_names :: "string list \<Rightarrow> 'd \<Rightarrow> goerror + uic_User list"
  q_users_by_ids :: "int list \<Rightarrow> 'd \<Rightarrow> goerror + uic_User list"
  q_users_brief :: "int list \<Rightarrow> 'd \<Rightarrow> goerror + uic_User list"
  q_users_match :: "string \<Rightarrow> (int \<times> int) option \<Rightarrow> 'd \<Rightarrow> goerror + uic_User list"
  c_user :: "uic_User \<Rightarrow> 'd \<Rightarrow> (goerror + uic_User) \<times> 'd"
  s_user :: "uic_User \<Rightarrow> 'd \<Rightarrow> (goerror + int) \<times> 'd"
  u_user :: "int \<Rightarrow> APIUserUpdateInput \<Rightarrow> 'd \<Rightarrow> goerror option \<times> 'd"
  d_user :: "int \<Rightarrow> int \<Rightarrow> 'd \<Rightarrow> (goerror + int) \<times> 'd"
  q_session_of :: "int \<Rightarrow> 'd \<Rightarrow> goerror + Session"
  q_session :: "string \<Rightarrow> int \<Rightarrow> 'd \<Rightarrow> goerror + Session"
  c_session :: "Session \<Rightarrow> 'd \<Rightarrow> 'd"
  d_session :: "Session \<Rightarrow> 'd \<Rightarrow> goerror option \<times> 'd"
  q_team_by_id :: "int \<Rightarrow> 'd \<Rightarrow> goerror + Team"
  q_team_by_name :: "string \<Rightarrow> 'd \<Rightarrow> goerror + Team"
  q_team_member :: "int \<Rightarrow> int \<Rightarrow> 'd \<Rightarrow> goerror + Team"
  q_team_creator :: "int \<Rightarrow> int \<Rightarrow> 'd \<Rightarrow> goerror + Team"
  q_teams_match :: "string \<Rightarrow> (int \<times> int) option \<Rightarrow> 'd \<Rightarrow> goerror + Team list"
  q_teams_of :: "string \<Rightarrow> int \<Rightarrow> 'd \<Rightarrow> goerror + Team list"
  q_teams_by_names :: "string list \<Rightarrow> 'd \<Rightarrow> goerror + Team list"
  q_teams_by_ids :: "int list \<Rightarrow> 'd \<Rightarrow> goerror + Team list"
  c_team :: "Team \<Rightarrow> 'd \<Rightarrow> (goerror + int \<times> Team) \<times> 'd"
  u_team :: "int \<Rightarrow> string \<Rightarrow> string \<Rightarrow> 'd \<Rightarrow> goerror option \<times> 'd"
  d_team :: "int \<Rightarrow> 'd \<Rightarrow> (goerror + int) \<times> 'd"
  q_rel :: "RelTeamUser \<Rightarrow> 'd \<Rightarrow> goerror + RelTeamUser"
  q_rels_of_team :: "int \<Rightarrow> 'd \<Rightarrow> goerror + RelTeamUser list"
  q_rels_of_user :: "int \<Rightarrow> 'd \<Rightarrow> goerror + RelTeamUser list"
  q_rels_in :: "int \<Rightarrow> int list \<Rightarrow> 'd \<Rightarrow> goerror + RelTeamUser list"
  q_rels_not_in :: "int \<Rightarrow> int list \<Rightarrow> 'd \<Rightarrow> goerror + RelTeamUser list"
  c_rel :: "RelTeamUser \<Rightarrow> 'd \<Rightarrow> goerror option \<times> 'd"
  d_rel :: "RelTeamUser \<Rightarrow> 'd \<Rightarrow> goerror option \<times> 'd"
  d_rels :: "int \<Rightarrow> 'd \<Rightarrow> int \<times> 'd"

text \<open>A struct after a query whose error is not looked at.\<close>

definition scanned :: "'a \<Rightarrow> goerror + 'a \<Rightarrow> 'a" where
  "scanned z r = (case r of Inl err \<Rightarrow> z | Inr x \<Rightarrow> x)"

text \<open>The settings read through \<open>viper\<close>, and the hash of the third-party package \<open>str\<close>.\<close>

record api_env =
  en_access_control :: bool
  en_signup_disable :: bool
  en_skip_auth :: bool
  en_default_token :: string
  en_salt :: string
  en_Md5Encode :: "string \<Rightarrow> string"

section \<open>Helpers\<close>

text \<open>What a handler answers with, and what \<open>JSONR\<close> writes: the tag of \<open>Passwd\<close> keeps it out of the encoding of a user.\<close>

datatype payload =
    PStr string | PErr goerror | PNil | PUser uic_User | PUsers "uic_User list" | PSig string string
  | PLogin string string bool | PTeams "Team list" | PCTeams "CTeam list" | PTeam Team "uic_User list" string

datatype body = Error string | Msg string | Json payload

definition user_json :: "uic_User \<Rightarrow> uic_User" where
  "user_json u = u \<lparr> uu_Passwd := [] \<rparr>"

definition payload_json :: "payload \<Rightarrow> payload" where
  "payload_json p = (case p of PUser u \<Rightarrow> PUser (user_json u) | PUsers us \<Rightarrow> PUsers (map user_json us)
     | PCTeams cs \<Rightarrow> PCTeams (map (\<lambda>c. c \<lparr> ct_Users := map user_json (ct_Users c) \<rparr>) cs)
     | PTeam t us n \<Rightarrow> PTeam t (map user_json us) n | _ \<Rightarrow> p)"

definition JSONR :: "int \<Rightarrow> payload \<Rightarrow> int \<times> body" where
  "JSONR wcode msg =
     (if wcode = 200 then (200, case msg of PStr s \<Rightarrow> Msg s | _ \<Rightarrow> Json (payload_json msg))
      else (wcode, case msg of PStr s \<Rightarrow> Error s | PErr e \<Rightarrow> Error e
                     | _ \<Rightarrow> Error ''system type error. please ask admin for help''))"

type_synonym 'd handled = "(int \<times> body) list \<times> 'd"

definition PageParser :: "string \<Rightarrow> string \<Rightarrow> goerror + int \<times> int" where
  "PageParser page limit =
     (if page \<noteq> [] then
        (case Atoi page of
           Inl err \<Rightarrow> Inl err
         | Inr p \<Rightarrow>
             if limit = [] then Inl ''You set page but skip limit params, please check your input''
             else (case Atoi limit of
                     Inl err \<Rightarrow> Inl err
                   | Inr l \<Rightarrow>
                       if p \<le> 0 \<or> l \<le> 0 then Inl ''limit or page can not set to 0 or less than 0''
                       else if p = 1 then Inr (0, l)
                       else Inr (i64 ((p - 1) * l), l)))
      else Inr (-1, -1))"

text \<open>The condition the handlers put on the result: both numbers set.\<close>

abbreviation page_of :: "int \<times> int \<Rightarrow> (int \<times> int) option" where
  "page_of pl \<equiv> (if snd pl \<noteq> -1 \<and> fst pl \<noteq> -1 then Some pl else None)"

definition HasDangerousCharacters :: "string \<Rightarrow> bool" where
  "HasDangerousCharacters s \<longleftrightarrow> str_contains s ''<'' \<or> str_contains s ''>'' \<or> str_contains s ''&''
     \<or> str_contains s [CHR 0x27] \<or> str_contains s [CHR 0x22]"

definition HashIt :: "api_env \<Rightarrow> string \<Rightarrow> string" where
  "HashIt env passwd = en_Md5Encode env (en_salt env @ passwd)"

definition GenerateUUID :: "string \<Rightarrow> string" where
  "GenerateUUID uuid = str_remove (CHR ''-'') uuid"

definition User_IsAdmin :: "api_env \<Rightarrow> uic_User \<Rightarrow> bool" where
  "User_IsAdmin env this \<longleftrightarrow> \<not> en_access_control env \<or> uu_Role this = 2 \<or> uu_Role this = 1"

section \<open>Sessions\<close>

record WebSession =
  ws_Name :: string
  ws_Sig :: string

text \<open>The header \<open>Apitoken\<close>: empty, not JSON (with the decoder's error), or a JSON value.  The error of a value of another type is
  shortened.\<close>

datatype token = NoToken | BadToken goerror | Token json

definition GetSession :: "token \<Rightarrow> goerror + WebSession" where
  "GetSession tok =
     (case tok of
        NoToken \<Rightarrow> Inl ''token key is not set''
      | BadToken err \<Rightarrow> Inl err
      | Token j \<Rightarrow>
          (case (do { fs \<leftarrow> j_fields j; n \<leftarrow> j_str ''name'' fs; s \<leftarrow> j_str ''sig'' fs; Some (n, s) }) of
             None \<Rightarrow> Inl ''json: cannot unmarshal''
           | Some (name, sig) \<Rightarrow>
               if name = [] then Inl ''token key:name is empty''
               else if sig = [] then Inl ''token key:sig is empty''
               else Inr \<lparr> ws_Name = name, ws_Sig = sig \<rparr>))"

definition SessionChecking :: "'d uic_ops \<Rightarrow> api_env \<Rightarrow> token \<Rightarrow> 'd \<Rightarrow> bool \<times> goerror option" where
  "SessionChecking ops env tok d =
     (case GetSession tok of
        Inl err \<Rightarrow> (False, Some err)
      | Inr w \<Rightarrow>
          if en_default_token env \<noteq> [] \<and> ws_Sig w = en_default_token env then (True, None)
          else let user = scanned no_User (q_user_by_name ops (ws_Name w) d) in
               if uu_ID user = 0 then (False, Some ''not found this user'')
               else let session = scanned no_Session (q_session ops (ws_Sig w) (uu_ID user) d) in
                    if ss_ID session = 0 then (False, Some ''session not found'') else (True, None))"

definition h_GetUser :: "'d uic_ops \<Rightarrow> token \<Rightarrow> 'd \<Rightarrow> goerror + uic_User" where
  "h_GetUser ops tok d = (case GetSession tok of Inl err \<Rightarrow> Inl err | Inr w \<Rightarrow> q_user_by_name ops (ws_Name w) d)"

text \<open>The middleware: the answer it aborts with, or none when it lets the request pass.  It dereferences the error in the log
  line.\<close>

definition AuthSessionMidd :: "'d uic_ops \<Rightarrow> api_env \<Rightarrow> token \<Rightarrow> 'd \<Rightarrow> (int \<times> body) option go" where
  "AuthSessionMidd ops env tok d =
     (let (auth, err) = SessionChecking ops env tok d in
      if \<not> en_skip_auth env \<and> (err \<noteq> None \<or> \<not> auth) then
        (case err of None \<Rightarrow> None | Some e \<Rightarrow> Some (Some (JSONR 401 (PErr e))))
      else Some None)"

text \<open>The stored session of a user, or a new one that lasts thirty days.  \<open>now\<close> is the clock and \<open>uuid\<close> the identifier
  drawn.\<close>

definition session_for :: "'d uic_ops \<Rightarrow> int \<Rightarrow> string \<Rightarrow> int \<Rightarrow> 'd \<Rightarrow> (goerror + Session) \<times> 'd" where
  "session_for ops now uuid uid d =
     (let s = q_session_of ops uid d;
          session = scanned no_Session s
      in case (case s of Inl err \<Rightarrow> if err \<noteq> ''record not found'' then Some err else None | Inr _ \<Rightarrow> None) of
           Some err \<Rightarrow> (Inl err, d)
         | None \<Rightarrow>
             if ss_ID session = 0
             then (let new = session \<lparr> ss_Sig := GenerateUUID uuid, ss_Expired := i64 (now + 3600 * 24 * 30), ss_Uid := uid \<rparr>
                   in (Inr new, c_session ops new d))
             else (Inr session, d))"

definition Login :: "'d uic_ops \<Rightarrow> api_env \<Rightarrow> int \<Rightarrow> string \<Rightarrow> goerror + string \<times> string \<Rightarrow> 'd \<Rightarrow> 'd handled" where
  "Login ops env now uuid inputs d =
     (case inputs of
        Inl err \<Rightarrow> ([JSONR 400 (PStr ''name or password is blank'')], d)
      | Inr (name, password) \<Rightarrow>
          let user = scanned no_User (q_user_by_name ops name d) in
          if uu_ID user = 0 then ([JSONR 400 (PStr ''no such user'')], d)
          else if uu_Passwd user \<noteq> HashIt env password then ([JSONR 400 (PStr ''password error'')], d)
          else (case session_for ops now uuid (uu_ID user) d of
                  (Inl err, d') \<Rightarrow> ([JSONR 400 (PErr err)], d')
                | (Inr session, d') \<Rightarrow> ([JSONR 200 (PLogin (ss_Sig session) (uu_Name user) (User_IsAdmin env user))], d')))"

definition AdminLogin :: "'d uic_ops \<Rightarrow> api_env \<Rightarrow> int \<Rightarrow> string \<Rightarrow> token \<Rightarrow> goerror + string \<Rightarrow> 'd \<Rightarrow> 'd handled" where
  "AdminLogin ops env now uuid tok inputs d =
     (case inputs of
        Inl err \<Rightarrow> ([JSONR 400 (PStr ''name is blank'')], d)
      | Inr name \<Rightarrow>
          (case h_GetUser ops tok d of
             Inl err \<Rightarrow> ([JSONR 400 (PStr err)], d)
           | Inr adminuser \<Rightarrow>
               let user = scanned (no_User \<lparr> uu_Name := name \<rparr>) (q_user_by_name ops name d) in
               if uu_ID user = 0 then ([JSONR 400 (PStr ''no such user'')], d)
               else if uu_Role user \<ge> uu_Role adminuser
               then ([JSONR 400 (PStr ''API_USER not admin, no permissions can do this'')], d)
               else (case session_for ops now uuid (uu_ID user) d of
                       (Inl err, d') \<Rightarrow> ([JSONR 400 (PErr err)], d')
                     | (Inr session, d') \<Rightarrow>
                         ([JSONR 200 (PLogin (ss_Sig session) (uu_Name user) (User_IsAdmin env user))], d'))))"

text \<open>When the deletion fails, both answers are written.\<close>

definition Logout :: "'d uic_ops \<Rightarrow> token \<Rightarrow> 'd \<Rightarrow> 'd handled" where
  "Logout ops tok d =
     (case GetSession tok of
        Inl err \<Rightarrow> ([JSONR 400 (PStr err)], d)
      | Inr w \<Rightarrow>
          let user = scanned no_User (q_user_by_name ops (ws_Name w) d);
              session = scanned no_Session (q_session ops (ws_Sig w) (uu_ID user) d)
          in if ss_ID session = 0 then ([JSONR 400 (PStr ''not found this kind of session in database.'')], d)
             else (let (err, d') = d_session ops session d in
                   ((case err of None \<Rightarrow> [] | Some e \<Rightarrow> [JSONR 400 (PErr e)]) @ [JSONR 200 (PStr ''logout successful'')], d')))"

definition AuthSession :: "'d uic_ops \<Rightarrow> api_env \<Rightarrow> token \<Rightarrow> 'd \<Rightarrow> 'd handled" where
  "AuthSession ops env tok d =
     (let (auth, err) = SessionChecking ops env tok d in
      if err \<noteq> None \<or> \<not> auth then ([JSONR 401 (case err of None \<Rightarrow> PNil | Some e \<Rightarrow> PErr e)], d)
      else ([JSONR 200 (PStr ''session is valid!'')], d))"

definition CreateRoot :: "'d uic_ops \<Rightarrow> api_env \<Rightarrow> string \<Rightarrow> 'd \<Rightarrow> 'd handled" where
  "CreateRoot ops env password d =
     (if password = [] then ([JSONR 400 (PStr ''password is empty, please check it'')], d)
      else (case s_user ops (no_User \<lparr> uu_Name := ''root'', uu_Passwd := HashIt env password \<rparr>) d of
              (Inl err, d') \<Rightarrow> ([JSONR 400 (PErr err)], d')
            | (Inr n, d') \<Rightarrow> ([JSONR 200 (PStr ''root created!'')], d')))"

section \<open>Users\<close>

text \<open>The answer that refuses to create a user while signing up is disabled, unless the token names an administrator.\<close>

definition signup_refused :: "'d uic_ops \<Rightarrow> api_env \<Rightarrow> token \<Rightarrow> 'd \<Rightarrow> string option" where
  "signup_refused ops env tok d =
     (let msg = ''sign up is not enabled, please contact administrator'' in
      case h_GetUser ops tok d of
        Inl err \<Rightarrow> Some (if str_contains err ''token key is not set'' then msg else msg @ ''. '' @ err)
      | Inr user \<Rightarrow>
          if User_IsAdmin env user then None
          else Some (msg @ ''. '' @ ''You are not admin, no permissions can do this''))"

definition CreateUser :: "'d uic_ops \<Rightarrow> api_env \<Rightarrow> int \<Rightarrow> string \<Rightarrow> token \<Rightarrow> goerror + APIUserInput \<Rightarrow> 'd \<Rightarrow> 'd handled" where
  "CreateUser ops env now uuid tok inputs d =
     (case inputs of
        Inl err \<Rightarrow> ([JSONR 400 (PErr err)], d)
      | Inr i \<Rightarrow>
          if HasDangerousCharacters (ui_Cnname i) then ([JSONR 400 (PStr ''name pattern is invalid'')], d)
          else (case (if en_signup_disable env then signup_refused ops env tok d else None) of
            Some msg \<Rightarrow> ([JSONR 400 (PStr msg)], d)
          | None \<Rightarrow>
              if uu_ID (scanned no_User (q_user_by_name ops (ui_Name i) d)) \<noteq> 0
              then ([JSONR 400 (PStr ''name is already existing'')], d)
              else (case c_user ops (no_User \<lparr> uu_Name := ui_Name i, uu_Passwd := HashIt env (ui_Passwd i),
                           uu_Cnname := ui_Cnname i, uu_Email := ui_Email i, uu_Phone := ui_Phone i, uu_IM := ui_IM i,
                           uu_QQ := ui_QQ i, uu_Role := (if ui_Name i = ''root'' then 2 else 0) \<rparr>) d of
                      (Inl err, d1) \<Rightarrow> ([JSONR 400 (PErr err)], d1)
                    | (Inr user, d1) \<Rightarrow>
                        (case session_for ops now uuid (uu_ID user) d1 of
                           (Inl err, d2) \<Rightarrow> ([JSONR 400 (PErr err)], d2)
                         | (Inr session, d2) \<Rightarrow> ([JSONR 200 (PSig (ss_Sig session) (uu_Name user))], d2)))))"

definition UpdateCurrentUser :: "'d uic_ops \<Rightarrow> token \<Rightarrow> goerror + APIUserUpdateInput \<Rightarrow> 'd \<Rightarrow> 'd handled" where
  "UpdateCurrentUser ops tok inputs d =
     (case inputs of
        Inl err \<Rightarrow> ([JSONR 417 (PErr err)], d)
      | Inr i \<Rightarrow>
          if HasDangerousCharacters (ui_Cnname i) then ([JSONR 400 (PStr ''name pattern is invalid'')], d)
          else (case GetSession tok of
                  Inl err \<Rightarrow> ([JSONR 400 (PErr err)], d)
                | Inr w \<Rightarrow>
                    let user = scanned no_User (q_user_by_name ops (ws_Name w) d) in
                    if uu_ID user = 0 then ([JSONR 400 (PStr ''name is not existing'')], d)
                    else (case u_user ops (uu_ID user) i d of
                            (Some err, d') \<Rightarrow> ([JSONR 417 (PErr err)], d')
                          | (None, d') \<Rightarrow> ([JSONR 200 (PStr ''user info updated'')], d'))))"

text \<open>A failed \<open>Bind\<close> is answered but does not end the handler, which goes on with empty passwords.\<close>

definition ChangePassword :: "'d uic_ops \<Rightarrow> api_env \<Rightarrow> token \<Rightarrow> goerror + string \<times> string \<Rightarrow> 'd \<Rightarrow> 'd handled" where
  "ChangePassword ops env tok inputs d =
     (let (rs, old, new) = (case inputs of Inl err \<Rightarrow> ([JSONR 400 (PErr err)], [], []) | Inr (old, new) \<Rightarrow> ([], old, new)) in
      case GetSession tok of
        Inl err \<Rightarrow> (rs @ [JSONR 400 (PErr err)], d)
      | Inr w \<Rightarrow>
          (case q_user_by_name ops (ws_Name w) d of
             Inl err \<Rightarrow> (rs @ [JSONR 417 (PErr err)], d)
           | Inr user \<Rightarrow>
               if uu_Passwd user \<noteq> HashIt env old
               then (rs @ [JSONR 400 (PStr ''oldPassword is not match current one'')], d)
               else (case s_user ops (user \<lparr> uu_Passwd := HashIt env new \<rparr>) d of
                       (Inl err, d') \<Rightarrow> (rs @ [JSONR 417 (PErr err)], d')
                     | (Inr n, d') \<Rightarrow> (rs @ [JSONR 200 (PStr ''password updated!'')], d'))))"

definition UserInfo :: "'d uic_ops \<Rightarrow> token \<Rightarrow> 'd \<Rightarrow> 'd handled" where
  "UserInfo ops tok d =
     (case h_GetUser ops tok d of Inl err \<Rightarrow> ([JSONR 417 (PErr err)], d) | Inr user \<Rightarrow> ([JSONR 200 (PUser user)], d))"

text \<open>The identifier in the path, which several handlers read the same way.\<close>

abbreviation uid_param :: "string \<Rightarrow> payload + int" where
  "uid_param uidtmp \<equiv>
     (if uidtmp = [] then Inl (PStr ''user id is missing'')
      else (case Atoi uidtmp of Inl err \<Rightarrow> Inl (PErr err) | Inr uid \<Rightarrow> Inr uid))"

definition api_GetUser :: "'d uic_ops \<Rightarrow> string \<Rightarrow> 'd \<Rightarrow> 'd handled" where
  "api_GetUser ops uidtmp d =
     (case uid_param uidtmp of
        Inl p \<Rightarrow> ([JSONR 400 p], d)
      | Inr uid \<Rightarrow>
          (case q_user_by_id ops uid d of
             Inl err \<Rightarrow> ([JSONR 500 (PErr err)], d)
           | Inr fuser \<Rightarrow> ([JSONR 200 (PUser fuser)], d)))"

definition UpdateUser :: "'d uic_ops \<Rightarrow> string \<Rightarrow> goerror + APIUserUpdateInput \<Rightarrow> 'd \<Rightarrow> 'd handled" where
  "UpdateUser ops uidtmp inputs d =
     (case uid_param uidtmp of
        Inl p \<Rightarrow> ([JSONR 400 p], d)
      | Inr uid \<Rightarrow>
          (case inputs of
             Inl err \<Rightarrow> ([JSONR 417 (PErr err)], d)
           | Inr i \<Rightarrow>
               if HasDangerousCharacters (ui_Cnname i) then ([JSONR 400 (PStr ''name pattern is invalid'')], d)
               else if uu_ID (scanned no_User (q_user_by_id ops uid d)) = 0
               then ([JSONR 400 (PStr ''user does not exist'')], d)
               else (case u_user ops uid i d of
                       (Some err, d') \<Rightarrow> ([JSONR 417 (PErr err)], d')
                     | (None, d') \<Rightarrow> ([JSONR 200 (PStr ''user info updated'')], d'))))"

definition GetUserByName :: "'d uic_ops \<Rightarrow> string \<Rightarrow> 'd \<Rightarrow> 'd handled" where
  "GetUserByName ops name d =
     (if name = [] then ([JSONR 400 (PStr ''user name is missing'')], d)
      else (case q_user_by_name ops name d of
              Inl err \<Rightarrow> ([JSONR 417 (PErr err)], d)
            | Inr fuser \<Rightarrow> ([JSONR 200 (PUser fuser)], d)))"

text \<open>Without team names the handler answers with the error of the conversion before, which is none.\<close>

definition IsUserInTeams :: "'d uic_ops \<Rightarrow> string \<Rightarrow> string \<Rightarrow> 'd \<Rightarrow> 'd handled" where
  "IsUserInTeams ops uidtmp teams_raw d =
     (case uid_param uidtmp of
        Inl p \<Rightarrow> ([JSONR 400 p], d)
      | Inr uid \<Rightarrow>
          if teams_raw = [] then ([JSONR 400 PNil], d)
          else (case (case q_user_by_id ops uid d of
                        Inl err \<Rightarrow> Inl err
                      | Inr user \<Rightarrow>
                          (case q_teams_by_names ops (str_split comma teams_raw) d of
                             Inl err \<Rightarrow> Inl err
                           | Inr teams \<Rightarrow> q_rels_in ops uid (map tm_ID teams) d)) of
                  Inl err \<Rightarrow> ([JSONR 417 (PErr err)], d)
                | Inr tus \<Rightarrow> ([JSONR 200 (PStr (if tus = [] then ''false'' else ''true''))], d)))"

definition GetUserTeams :: "'d uic_ops \<Rightarrow> string \<Rightarrow> 'd \<Rightarrow> 'd handled" where
  "GetUserTeams ops uidtmp d =
     (case uid_param uidtmp of
        Inl p \<Rightarrow> ([JSONR 400 p], d)
      | Inr uid \<Rightarrow>
          (case (case q_user_by_id ops uid d of
                   Inl err \<Rightarrow> Inl err
                 | Inr user \<Rightarrow>
                     (case q_rels_of_user ops uid d of
                        Inl err \<Rightarrow> Inl err
                      | Inr tus \<Rightarrow> q_teams_by_ids ops (map rt_Tid tus) d)) of
             Inl err \<Rightarrow> ([JSONR 417 (PErr err)], d)
           | Inr teams \<Rightarrow> ([JSONR 200 (PTeams teams)], d)))"

text \<open>The check that opens the handlers of administrators; \<open>code\<close> is the status for a token without a user.\<close>

definition need_admin :: "'d uic_ops \<Rightarrow> api_env \<Rightarrow> token \<Rightarrow> int \<Rightarrow> 'd \<Rightarrow> (int \<times> body) + uic_User" where
  "need_admin ops env tok code d =
     (case h_GetUser ops tok d of
        Inl err \<Rightarrow> Inl (JSONR code (PErr err))
      | Inr cuser \<Rightarrow> if User_IsAdmin env cuser then Inr cuser else Inl (JSONR 400 (PStr ''you don't have permission!'')))"

definition AdminChangeUserProfile ::
  "'d uic_ops \<Rightarrow> api_env \<Rightarrow> token \<Rightarrow> goerror + int \<times> APIUserUpdateInput \<Rightarrow> 'd \<Rightarrow> 'd handled" where
  "AdminChangeUserProfile ops env tok inputs d =
     (case inputs of
        Inl err \<Rightarrow> ([JSONR 417 (PErr err)], d)
      | Inr (uid, i) \<Rightarrow>
          (case need_admin ops env tok 417 d of
             Inl r \<Rightarrow> ([r], d)
           | Inr cuser \<Rightarrow>
               (case u_user ops uid i d of
                  (Some err, d') \<Rightarrow> ([JSONR 417 (PErr err)], d')
                | (None, d') \<Rightarrow> ([JSONR 200 (PStr ''user profile updated'')], d'))))"

definition AdminUserDelete :: "'d uic_ops \<Rightarrow> api_env \<Rightarrow> token \<Rightarrow> goerror + int \<Rightarrow> 'd \<Rightarrow> 'd handled" where
  "AdminUserDelete ops env tok inputs d =
     (case inputs of
        Inl err \<Rightarrow> ([JSONR 400 (PErr err)], d)
      | Inr uid \<Rightarrow>
          (case need_admin ops env tok 417 d of
             Inl r \<Rightarrow> ([r], d)
           | Inr cuser \<Rightarrow>
               (case d_user ops uid (uu_Role cuser) d of
                  (Inl err, d') \<Rightarrow> ([JSONR 417 (PErr err)], d')
                | (Inr n, d') \<Rightarrow>
                    if n = 0 then ([JSONR 417 (PStr ''you have no such permission or sth goes wrong'')], d')
                    else ([JSONR 200 (PStr (''user '' @ Itoa uid @ '' has been delete, affect row: '' @ Itoa n))], d'))))"

definition AdminChangePassword :: "'d uic_ops \<Rightarrow> api_env \<Rightarrow> token \<Rightarrow> goerror + int \<times> string \<Rightarrow> 'd \<Rightarrow> 'd handled" where
  "AdminChangePassword ops env tok inputs d =
     (case inputs of
        Inl err \<Rightarrow> ([JSONR 400 (PErr err)], d)
      | Inr (uid, passwd) \<Rightarrow>
          (case need_admin ops env tok 417 d of
             Inl r \<Rightarrow> ([r], d)
           | Inr cuser \<Rightarrow>
               (case q_user_by_id ops uid d of
                  Inl err \<Rightarrow> ([JSONR 417 (PErr err)], d)
                | Inr user \<Rightarrow>
                    (case s_user ops (user \<lparr> uu_Passwd := HashIt env passwd \<rparr>) d of
                       (Inl err, d') \<Rightarrow> ([JSONR 417 (PErr err)], d')
                     | (Inr n, d') \<Rightarrow> ([JSONR 200 (PStr ''password updated!'')], d')))))"

definition UserList :: "'d uic_ops \<Rightarrow> string \<Rightarrow> string \<Rightarrow> string \<Rightarrow> 'd \<Rightarrow> 'd handled" where
  "UserList ops page limit q d =
     (case PageParser page limit of
        Inl err \<Rightarrow> ([JSONR 400 (PStr err)], d)
      | Inr pl \<Rightarrow>
          (case q_users_match ops q (page_of pl) d of
             Inl err \<Rightarrow> ([JSONR 417 (PErr err)], d)
           | Inr us \<Rightarrow> ([JSONR 200 (PUsers us)], d)))"

text \<open>The query of the user is not checked: for an unknown identifier the zero struct is saved.\<close>

definition ChangeRoleOfUser :: "'d uic_ops \<Rightarrow> api_env \<Rightarrow> token \<Rightarrow> goerror + int \<times> string \<Rightarrow> 'd \<Rightarrow> 'd handled" where
  "ChangeRoleOfUser ops env tok inputs d =
     (case inputs of
        Inl err \<Rightarrow> ([JSONR 400 (PErr err)], d)
      | Inr (uid, admin) \<Rightarrow>
          (case need_admin ops env tok 400 d of
             Inl r \<Rightarrow> ([r], d)
           | Inr cuser \<Rightarrow>
               let user = scanned no_User (q_user_pk ops uid d);
                   user' = (if admin = ''yes'' then user \<lparr> uu_Role := 1 \<rparr>
                            else if admin = ''no'' then user \<lparr> uu_Role := 0 \<rparr> else user)
               in (case s_user ops user' d of
                     (Inl err, d') \<Rightarrow> ([JSONR 417 (PErr err)], d')
                   | (Inr n, d') \<Rightarrow>
                       ([JSONR 200 (PStr (''user role update sccuessful, affect row: '' @ Itoa n))], d'))))"

section \<open>Teams\<close>

definition Team_Members :: "'d uic_ops \<Rightarrow> Team \<Rightarrow> 'd \<Rightarrow> goerror + uic_User list" where
  "Team_Members ops this d =
     (case q_rels_of_team ops (tm_ID this) d of
        Inl err \<Rightarrow> Inl err
      | Inr tmapping \<Rightarrow>
          let uids = map rt_Uid tmapping in
          if uids = [] then Inr [] else q_users_brief ops uids d)"

text \<open>The name of the creator; the error is only logged.\<close>

definition Team_GetCreatorName :: "'d uic_ops \<Rightarrow> Team \<Rightarrow> 'd \<Rightarrow> string" where
  "Team_GetCreatorName ops this d =
     (case q_user_pk ops (tm_Creator this) d of Inl err \<Rightarrow> ''unknown'' | Inr user \<Rightarrow> uu_Name user)"

primrec teams_outputs :: "'d uic_ops \<Rightarrow> 'd \<Rightarrow> Team list \<Rightarrow> CTeam list \<Rightarrow> goerror + CTeam list" where
  "teams_outputs ops d [] outputs = Inr outputs"
| "teams_outputs ops d (t # ts) outputs =
     (case Team_Members ops t d of
        Inl err \<Rightarrow> Inl err
      | Inr users \<Rightarrow>
          teams_outputs ops d ts
            (outputs @ [\<lparr> ct_Team = t, ct_TeamCreator = Team_GetCreatorName ops t d, ct_Users = users \<rparr>]))"

definition Teams :: "'d uic_ops \<Rightarrow> api_env \<Rightarrow> token \<Rightarrow> string \<Rightarrow> string \<Rightarrow> string \<Rightarrow> 'd \<Rightarrow> 'd handled" where
  "Teams ops env tok page limit query d =
     (case PageParser page limit of
        Inl err \<Rightarrow> ([JSONR 400 (PStr err)], d)
      | Inr pl \<Rightarrow>
          (case h_GetUser ops tok d of
             Inl err \<Rightarrow> ([JSONR 400 (PErr err)], d)
           | Inr user \<Rightarrow>
               (case (if User_IsAdmin env user then q_teams_match ops query (page_of pl) d
                      else q_teams_of ops query (uu_ID user) d) of
                  Inl err \<Rightarrow> ([JSONR 400 (PErr err)], d)
                | Inr teams \<Rightarrow>
                    (case teams_outputs ops d teams [] of
                       Inl err \<Rightarrow> ([JSONR 400 (PErr err)], d)
                     | Inr outputs \<Rightarrow> ([JSONR 200 (PCTeams outputs)], d)))))"

primrec create_rels :: "'d uic_ops \<Rightarrow> int \<Rightarrow> int list \<Rightarrow> 'd \<Rightarrow> goerror option \<times> 'd" where
  "create_rels ops tid [] d = (None, d)"
| "create_rels ops tid (u # us) d =
     (case c_rel ops \<lparr> rt_ID = 0, rt_Tid = tid, rt_Uid = u \<rparr> d of
        (Some err, d') \<Rightarrow> (Some err, d')
      | (None, d') \<Rightarrow> create_rels ops tid us d')"

definition CreateTeam :: "'d uic_ops \<Rightarrow> token \<Rightarrow> goerror + APICreateTeamInput \<Rightarrow> 'd \<Rightarrow> 'd handled" where
  "CreateTeam ops tok inputs d =
     (case inputs of
        Inl err \<Rightarrow> ([JSONR 400 (PErr err)], d)
      | Inr cteam \<Rightarrow>
          (case h_GetUser ops tok d of
             Inl err \<Rightarrow> ([JSONR 400 (PErr err)], d)
           | Inr user \<Rightarrow>
               (case c_team ops \<lparr> tm_ID = 0, tm_Name = ti_Name cteam, tm_Resume = ti_Resume cteam, tm_Creator = uu_ID user \<rparr> d of
                  (Inl err, d1) \<Rightarrow> ([JSONR 400 (PErr err)], d1)
                | (Inr (n, team), d1) \<Rightarrow>
                    (case create_rels ops (tm_ID team) (ti_UserIDs cteam) d1 of
                       (Some err, d2) \<Rightarrow> ([JSONR 400 (PErr err)], d2)
                     | (None, d2) \<Rightarrow>
                         ([JSONR 200 (PStr (''team created! Afftect row: '' @ Itoa n @ '', Affect refer: ''
                                             @ Itoa (int (length (ti_UserIDs cteam)))))], d2)))))"

text \<open>The team a user may manage: any for an administrator, otherwise one of which the user is the creator or a member.\<close>

definition managed_team :: "'d uic_ops \<Rightarrow> api_env \<Rightarrow> uic_User \<Rightarrow> int \<Rightarrow> 'd \<Rightarrow> goerror + Team" where
  "managed_team ops env user tid d =
     (if User_IsAdmin env user then q_team_by_id ops tid d else q_team_member ops tid (uu_ID user) d)"

primrec delete_rels :: "'d uic_ops \<Rightarrow> RelTeamUser list \<Rightarrow> 'd \<Rightarrow> goerror option \<times> 'd" where
  "delete_rels ops [] d = (None, d)"
| "delete_rels ops (man # ms) d =
     (case d_rel ops man d of (Some err, d') \<Rightarrow> (Some err, d') | (None, d') \<Rightarrow> delete_rels ops ms d')"

primrec add_rels :: "'d uic_ops \<Rightarrow> int \<Rightarrow> int list \<Rightarrow> 'd \<Rightarrow> goerror option \<times> 'd" where
  "add_rels ops tid [] d = (None, d)"
| "add_rels ops tid (i # us) d =
     (let ur = \<lparr> rt_ID = 0, rt_Tid = tid, rt_Uid = i \<rparr>;
          ur' = scanned ur (q_rel ops ur d)
      in if rt_ID ur' = 0 then
           (case c_rel ops ur' d of (Some err, d') \<Rightarrow> (Some err, d') | (None, d') \<Rightarrow> add_rels ops tid us d')
         else add_rels ops tid us d)"

definition bindUsers :: "'d uic_ops \<Rightarrow> int \<Rightarrow> int list \<Rightarrow> 'd \<Rightarrow> goerror option \<times> 'd" where
  "bindUsers ops tid users d =
     (case q_rels_not_in ops tid users d of
        Inl err \<Rightarrow> (Some err, d)
      | Inr needDeleteMan \<Rightarrow>
          (case delete_rels ops needDeleteMan d of
             (Some err, d') \<Rightarrow> (Some err, d')
           | (None, d') \<Rightarrow> add_rels ops tid users d'))"

definition UpdateTeam :: "'d uic_ops \<Rightarrow> api_env \<Rightarrow> token \<Rightarrow> goerror + APIUpdateTeamInput \<Rightarrow> 'd \<Rightarrow> 'd handled" where
  "UpdateTeam ops env tok inputs d =
     (case inputs of
        Inl err \<Rightarrow> ([JSONR 400 (PErr err)], d)
      | Inr cteam \<Rightarrow>
          (case h_GetUser ops tok d of
             Inl err \<Rightarrow> ([JSONR 400 (PErr err)], d)
           | Inr user \<Rightarrow>
               (case managed_team ops env user (ti_ID cteam) d of
                  Inl err \<Rightarrow> ([JSONR 400 (PErr err)], d)
                | Inr team \<Rightarrow>
                    (case u_team ops (ti_ID cteam) (ti_Name cteam) (ti_Resume cteam) d of
                       (Some err, d1) \<Rightarrow> ([JSONR 400 (PErr err)], d1)
                     | (None, d1) \<Rightarrow>
                         (case bindUsers ops (ti_ID cteam) (ti_UserIDs cteam) d1 of
                            (Some err, d2) \<Rightarrow> ([JSONR 400 (PErr err)], d2)
                          | (None, d2) \<Rightarrow> ([JSONR 200 (PStr ''team updated!'')], d2))))))"

text \<open>When the query of the users fails, the answer carries the error of the token, which is none.\<close>

definition AddTeamUsers :: "'d uic_ops \<Rightarrow> api_env \<Rightarrow> token \<Rightarrow> goerror + int \<times> string list \<Rightarrow> 'd \<Rightarrow> 'd handled" where
  "AddTeamUsers ops env tok inputs d =
     (case inputs of
        Inl err \<Rightarrow> ([JSONR 400 (PErr err)], d)
      | Inr (tid, names) \<Rightarrow>
          (case h_GetUser ops tok d of
             Inl err \<Rightarrow> ([JSONR 400 (PErr err)], d)
           | Inr cuser \<Rightarrow>
               (case managed_team ops env cuser tid d of
                  Inl err \<Rightarrow> ([JSONR 400 (PErr err)], d)
                | Inr team \<Rightarrow>
                    (case q_users_by_names ops names d of
                       Inl err \<Rightarrow> ([JSONR 400 PNil], d)
                     | Inr users \<Rightarrow>
                         if users = [] then ([JSONR 400 (PStr ''empty users'')], d)
                         else (case add_rels ops tid (map uu_ID users) d of
                                 (Some err, d') \<Rightarrow> ([JSONR 400 (PErr err)], d')
                               | (None, d') \<Rightarrow> ([JSONR 200 (PStr ''add successful'')], d'))))))"

text \<open>The struct of the query is filled before, so its identifier is not zero when no row is found.\<close>

definition DeleteTeam :: "'d uic_ops \<Rightarrow> api_env \<Rightarrow> token \<Rightarrow> string \<Rightarrow> 'd \<Rightarrow> 'd handled" where
  "DeleteTeam ops env tok teamIdStr d =
     (case Atoi teamIdStr of
        Inl err \<Rightarrow> ([JSONR 400 (PStr err)], d)
      | Inr teamId \<Rightarrow>
          if teamId = 0 then ([JSONR 400 (PStr ''team_id is empty'')], d)
          else (case h_GetUser ops tok d of
            Inl err \<Rightarrow> ([JSONR 400 (PStr err)], d)
          | Inr user \<Rightarrow>
              let (r, d1) =
                (if User_IsAdmin env user then d_team ops teamId d
                 else let found = q_team_creator ops teamId (uu_ID user) d;
                          team = scanned \<lparr> tm_ID = teamId, tm_Name = [], tm_Resume = [], tm_Creator = uu_ID user \<rparr> found
                      in if tm_ID team = 0 then (Inl ''You don't have permission'', d)
                         else (case found of Inl err \<Rightarrow> (Inl err, d) | Inr _ \<Rightarrow> (Inr 1, snd (d_team ops teamId d))))
              in (case r of
                    Inl err \<Rightarrow> ([JSONR 417 (PErr err)], d1)
                  | Inr n \<Rightarrow>
                      let (n2, d2) = d_rels ops teamId d1 in
                      ([JSONR 200 (PStr (''team '' @ Itoa teamId @ '' is deleted. Affect row: '' @ Itoa n
                                          @ '' / refer delete: '' @ Itoa n2))], d2))))"

text \<open>The answer on a team: its row, and the users of its relations.  The name of the creator is never filled.\<close>

definition team_output :: "'d uic_ops \<Rightarrow> Team \<Rightarrow> int \<Rightarrow> 'd \<Rightarrow> payload" where
  "team_output ops team tid d =
     (let uids = map rt_Uid (scanned [] (q_rels_of_team ops tid d)) in
      PTeam team (if uids = [] then [] else scanned [] (q_users_by_ids ops uids d)) [])"

text \<open>\<open>Atoi\<close> returns zero with a syntax error and the nearest integer with a range error.\<close>

definition GetTeam :: "'d uic_ops \<Rightarrow> string \<Rightarrow> 'd \<Rightarrow> 'd handled" where
  "GetTeam ops team_id_str d =
     (case Atoi team_id_str of
        Inl err \<Rightarrow> ([JSONR 400 (if err = ''invalid syntax'' then PStr ''team_id is empty'' else PErr err)], d)
      | Inr team_id \<Rightarrow>
          if team_id = 0 then ([JSONR 400 (PStr ''team_id is empty'')], d)
          else (case q_team_by_id ops team_id d of
                  Inl err \<Rightarrow> ([JSONR 400 (PErr err)], d)
                | Inr team \<Rightarrow> ([JSONR 200 (team_output ops team team_id d)], d)))"

definition GetTeamByName :: "'d uic_ops \<Rightarrow> string \<Rightarrow> 'd \<Rightarrow> 'd handled" where
  "GetTeamByName ops name d =
     (if name = [] then ([JSONR 400 (PStr ''team name is missing'')], d)
      else (case q_team_by_name ops name d of
              Inl err \<Rightarrow> ([JSONR 400 (PErr err)], d)
            | Inr team \<Rightarrow> ([JSONR 200 (team_output ops team (tm_ID team) d)], d)))"

section \<open>Routes\<close>

text \<open>A request: the handler and what it reads of path, query and body.\<close>

datatype uic_req =
    R_AuthSession | R_Login "goerror + string \<times> string" | R_Logout | R_CreateUser "goerror + APIUserInput"
  | R_UserInfo | R_GetUser string | R_UpdateUser string "goerror + APIUserUpdateInput" | R_GetUserByName string
  | R_UpdateCurrentUser "goerror + APIUserUpdateInput" | R_ChangePassword "goerror + string \<times> string"
  | R_UserList string string string | R_IsUserInTeams string string | R_GetUserTeams string
  | R_ChangeRoleOfUser "goerror + int \<times> string" | R_AdminChangePassword "goerror + int \<times> string"
  | R_AdminChangeUserProfile "goerror + int \<times> APIUserUpdateInput" | R_AdminUserDelete "goerror + int"
  | R_AdminLogin "goerror + string"
  | R_Teams string string string | R_GetTeam string | R_GetTeamByName string
  | R_CreateTeam "goerror + APICreateTeamInput" | R_UpdateTeam "goerror + APIUpdateTeamInput"
  | R_AddTeamUsers "goerror + int \<times> string list" | R_DeleteTeam string

text \<open>The routes outside the groups that use the middleware.\<close>

definition public_route :: "uic_req \<Rightarrow> bool" where
  "public_route req = (case req of R_AuthSession \<Rightarrow> True | R_Login _ \<Rightarrow> True | R_Logout \<Rightarrow> True | R_CreateUser _ \<Rightarrow> True | _ \<Rightarrow> False)"

definition uic_handler :: "'d uic_ops \<Rightarrow> api_env \<Rightarrow> int \<Rightarrow> string \<Rightarrow> token \<Rightarrow> uic_req \<Rightarrow> 'd \<Rightarrow> 'd handled" where
  "uic_handler ops env now uuid tok req =
     (case req of
        R_AuthSession \<Rightarrow> AuthSession ops env tok
      | R_Login i \<Rightarrow> Login ops env now uuid i
      | R_Logout \<Rightarrow> Logout ops tok
      | R_CreateUser i \<Rightarrow> CreateUser ops env now uuid tok i
      | R_UserInfo \<Rightarrow> UserInfo ops tok
      | R_GetUser uid \<Rightarrow> api_GetUser ops uid
      | R_UpdateUser uid i \<Rightarrow> UpdateUser ops uid i
      | R_GetUserByName n \<Rightarrow> GetUserByName ops n
      | R_UpdateCurrentUser i \<Rightarrow> UpdateCurrentUser ops tok i
      | R_ChangePassword i \<Rightarrow> ChangePassword ops env tok i
      | R_UserList p l q \<Rightarrow> UserList ops p l q
      | R_IsUserInTeams uid ts \<Rightarrow> IsUserInTeams ops uid ts
      | R_GetUserTeams uid \<Rightarrow> GetUserTeams ops uid
      | R_ChangeRoleOfUser i \<Rightarrow> ChangeRoleOfUser ops env tok i
      | R_AdminChangePassword i \<Rightarrow> AdminChangePassword ops env tok i
      | R_AdminChangeUserProfile i \<Rightarrow> AdminChangeUserProfile ops env tok i
      | R_AdminUserDelete i \<Rightarrow> AdminUserDelete ops env tok i
      | R_AdminLogin i \<Rightarrow> AdminLogin ops env now uuid tok i
      | R_Teams p l q \<Rightarrow> Teams ops env tok p l q
      | R_GetTeam t \<Rightarrow> GetTeam ops t
      | R_GetTeamByName n \<Rightarrow> GetTeamByName ops n
      | R_CreateTeam i \<Rightarrow> CreateTeam ops tok i
      | R_UpdateTeam i \<Rightarrow> UpdateTeam ops env tok i
      | R_AddTeamUsers i \<Rightarrow> AddTeamUsers ops env tok i
      | R_DeleteTeam t \<Rightarrow> DeleteTeam ops env tok t)"

definition Routes :: "'d uic_ops \<Rightarrow> api_env \<Rightarrow> int \<Rightarrow> string \<Rightarrow> token \<Rightarrow> uic_req \<Rightarrow> 'd \<Rightarrow> 'd handled go" where
  "Routes ops env now uuid tok req d =
     (if public_route req then Some (uic_handler ops env now uuid tok req d)
      else (case AuthSessionMidd ops env tok d of
              None \<Rightarrow> None
            | Some (Some r) \<Rightarrow> Some ([r], d)
            | Some None \<Rightarrow> Some (uic_handler ops env now uuid tok req d)))"

end
