(* ===== verification/ApiProps.thy ===== *)
theory ApiProps
  imports Api
begin

text \<open>
  Properties of the users, teams and sessions of the API module: which requests may change the database, that an account
  can be used after its creation, and what binding users to a team does.
\<close>

section \<open>Who may write\<close>

text \<open>The users whose request may change the database.  Every user may update any profile, as \<open>UpdateUser\<close> has no check.\<close>

definition permitted :: "'d uic_ops \<Rightarrow> api_env \<Rightarrow> uic_User \<Rightarrow> 'd \<Rightarrow> uic_req \<Rightarrow> bool" where
  "permitted ops env u d req =
     (case req of
        R_UpdateUser _ _ \<Rightarrow> True
      | R_UpdateCurrentUser _ \<Rightarrow> True
      | R_CreateTeam _ \<Rightarrow> True
      | R_ChangePassword (Inr (old, _)) \<Rightarrow> uu_Passwd u = HashIt env old
      | R_ChangePassword (Inl _) \<Rightarrow> uu_Passwd u = HashIt env []
      | R_ChangeRoleOfUser _ \<Rightarrow> User_IsAdmin env u
      | R_AdminChangePassword _ \<Rightarrow> User_IsAdmin env u
      | R_AdminChangeUserProfile _ \<Rightarrow> User_IsAdmin env u
      | R_AdminUserDelete _ \<Rightarrow> User_IsAdmin env u
      | R_AdminLogin (Inr n) \<Rightarrow> (\<exists>t. q_user_by_name ops n d = Inr t \<and> uu_Role t < uu_Role u)
      | R_UpdateTeam (Inr c) \<Rightarrow> User_IsAdmin env u \<or> (\<exists>t. q_team_member ops (ti_ID c) (uu_ID u) d = Inr t)
      | R_AddTeamUsers (Inr (tid, _)) \<Rightarrow> User_IsAdmin env u \<or> (\<exists>t. q_team_member ops tid (uu_ID u) d = Inr t)
      | R_DeleteTeam s \<Rightarrow> User_IsAdmin env u \<or> (\<exists>tid t. Atoi s = Inr tid \<and> q_team_creator ops tid (uu_ID u) d = Inr t)
      | _ \<Rightarrow> False)"

text \<open>The handlers that only read.\<close>

lemma readers_keep:
  "snd (UserInfo ops tok d) = d" "snd (api_GetUser ops uid d) = d" "snd (GetUserByName ops n d) = d"
  "snd (UserList ops p l q d) = d" "snd (IsUserInTeams ops uid ts d) = d" "snd (GetUserTeams ops uid d) = d"
  "snd (Teams ops env tok p l q d) = d" "snd (GetTeam ops t d) = d" "snd (GetTeamByName ops n d) = d"
  by (simp_all add: UserInfo_def api_GetUser_def GetUserByName_def UserList_def IsUserInTeams_def GetUserTeams_def
      Teams_def GetTeam_def GetTeamByName_def split: sum.split)

text \<open>The handlers that write name a user of the database.\<close>

lemma need_admin_Inr: "need_admin ops env tok code d = Inr u \<longleftrightarrow> h_GetUser ops tok d = Inr u \<and> User_IsAdmin env u"
  by (auto simp: need_admin_def split: sum.splits if_splits)

lemma admin_writes:
  "snd (ChangeRoleOfUser ops env tok i1 d) = d \<or> (\<exists>u. h_GetUser ops tok d = Inr u \<and> User_IsAdmin env u)"
  "snd (AdminChangePassword ops env tok i2 d) = d \<or> (\<exists>u. h_GetUser ops tok d = Inr u \<and> User_IsAdmin env u)"
  "snd (AdminChangeUserProfile ops env tok i3 d) = d \<or> (\<exists>u. h_GetUser ops tok d = Inr u \<and> User_IsAdmin env u)"
  "snd (AdminUserDelete ops env tok i4 d) = d \<or> (\<exists>u. h_GetUser ops tok d = Inr u \<and> User_IsAdmin env u)"
  by (auto simp: ChangeRoleOfUser_def AdminChangePassword_def AdminChangeUserProfile_def AdminUserDelete_def need_admin_Inr
      split: sum.split)

lemma managed_team_Inr:
  "managed_team ops env u tid d = Inr t \<Longrightarrow> User_IsAdmin env u \<or> (\<exists>t. q_team_member ops tid (uu_ID u) d = Inr t)"
  by (auto simp: managed_team_def split: if_splits)

lemma team_writes:
  "snd (UpdateTeam ops env tok i1 d) = d \<or> (\<exists>u. h_GetUser ops tok d = Inr u \<and> permitted ops env u d (R_UpdateTeam i1))"
  "snd (AddTeamUsers ops env tok i2 d) = d \<or> (\<exists>u. h_GetUser ops tok d = Inr u \<and> permitted ops env u d (R_AddTeamUsers i2))"
  by (auto simp: UpdateTeam_def AddTeamUsers_def permitted_def split: sum.split dest: managed_team_Inr)

lemma delete_team_writes:
  "snd (DeleteTeam ops env tok t d) = d \<or> (\<exists>u. h_GetUser ops tok d = Inr u \<and> permitted ops env u d (R_DeleteTeam t))"
  by (auto simp: DeleteTeam_def permitted_def Let_def split: sum.split)

lemma user_writes:
  "snd (CreateTeam ops tok i1 d) = d \<or> (\<exists>u. h_GetUser ops tok d = Inr u)"
  "snd (AdminLogin ops env now uuid tok i2 d) = d \<or> (\<exists>u. h_GetUser ops tok d = Inr u \<and> permitted ops env u d (R_AdminLogin i2))"
  by (auto simp: CreateTeam_def AdminLogin_def permitted_def Let_def scanned_def no_User_def split: sum.split)

lemma own_writes:
  "snd (UpdateCurrentUser ops tok i1 d) = d \<or> (\<exists>u. h_GetUser ops tok d = Inr u)"
  "snd (ChangePassword ops env tok i2 d) = d \<or> (\<exists>u. h_GetUser ops tok d = Inr u \<and> permitted ops env u d (R_ChangePassword i2))"
  by (auto simp: UpdateCurrentUser_def ChangePassword_def h_GetUser_def permitted_def Let_def scanned_def no_User_def split: sum.split)

text \<open>What the middleware lets pass.\<close>

lemma SessionChecking_error: "SessionChecking ops env tok d = (auth, err) \<Longrightarrow> auth \<longleftrightarrow> err = None"
  by (auto simp: SessionChecking_def Let_def split: sum.splits if_splits)

lemma AuthSessionMidd_total: "AuthSessionMidd ops env tok d \<noteq> None"
  using SessionChecking_error [of ops env tok d]
  by (auto simp: AuthSessionMidd_def split: prod.split option.split)

lemma AuthSessionMidd_passes:
  assumes "AuthSessionMidd ops env tok d = Some None" "\<not> en_skip_auth env" "en_default_token env = []"
  shows "\<exists>w u s. GetSession tok = Inr w \<and> q_user_by_name ops (ws_Name w) d = Inr u \<and> uu_ID u \<noteq> 0
           \<and> q_session ops (ws_Sig w) (uu_ID u) d = Inr s \<and> ss_ID s \<noteq> 0"
  using assms
  by (auto simp: AuthSessionMidd_def SessionChecking_def Let_def scanned_def no_User_def no_Session_def
      split: sum.splits if_splits option.splits prod.splits)

lemma handler_writes:
  assumes "\<not> public_route req" "snd (uic_handler ops env now uuid tok req d) \<noteq> d"
  shows "(\<exists>i uid. req = R_UpdateUser uid i) \<or> (\<exists>u. h_GetUser ops tok d = Inr u \<and> permitted ops env u d req)"
proof (cases req)
  case (R_ChangeRoleOfUser i)
  then show ?thesis using assms(2) admin_writes(1) [of ops env tok i d] by (auto simp: uic_handler_def permitted_def)
next
  case (R_AdminChangePassword i)
  then show ?thesis using assms(2) admin_writes(2) [of ops env tok i d] by (auto simp: uic_handler_def permitted_def)
next
  case (R_AdminChangeUserProfile i)
  then show ?thesis using assms(2) admin_writes(3) [of ops env tok i d] by (auto simp: uic_handler_def permitted_def)
next
  case (R_AdminUserDelete i)
  then show ?thesis using assms(2) admin_writes(4) [of ops env tok i d] by (auto simp: uic_handler_def permitted_def)
next
  case (R_CreateTeam i)
  then show ?thesis using assms(2) user_writes(1) [of ops tok i d] by (auto simp: uic_handler_def permitted_def)
next
  case (R_UpdateCurrentUser i)
  then show ?thesis using assms(2) own_writes(1) [of ops tok i d] by (auto simp: uic_handler_def permitted_def)
next
  case (R_AdminLogin i)
  then show ?thesis using assms(2) user_writes(2) [of ops env now uuid tok i d] by (simp add: uic_handler_def)
next
  case (R_ChangePassword i)
  then show ?thesis using assms(2) own_writes(2) [of ops env tok i d] by (simp add: uic_handler_def)
next
  case (R_UpdateTeam i)
  then show ?thesis using assms(2) team_writes(1) [of ops env tok i d] by (simp add: uic_handler_def)
next
  case (R_AddTeamUsers i)
  then show ?thesis using assms(2) team_writes(2) [of ops env tok i d] by (simp add: uic_handler_def)
next
  case (R_DeleteTeam t)
  then show ?thesis using assms(2) delete_team_writes [of ops env tok t d] by (simp add: uic_handler_def)
qed (use assms in \<open>simp_all add: uic_handler_def public_route_def readers_keep\<close>)


section \<open>Creating an account\<close>

text \<open>What is relied on of the database: a created user has a new identifier, is found by name and has no session; a created
  session is found by its user and by its signature, and leaves the users alone.  The handlers ignore the error of creating a
  session, so this law says that it succeeds.\<close>

definition account_laws :: "'d uic_ops \<Rightarrow> bool" where
  "account_laws ops \<longleftrightarrow>
     (\<forall>u u' d d'. c_user ops u d = (Inr u', d') \<longrightarrow>
        uu_ID u' \<noteq> 0 \<and> u' = u \<lparr> uu_ID := uu_ID u' \<rparr> \<and> q_user_by_name ops (uu_Name u) d' = Inr u'
        \<and> q_session_of ops (uu_ID u') d' = Inl ''record not found'')
     \<and> (\<forall>s d. q_session_of ops (ss_Uid s) d = Inl ''record not found'' \<longrightarrow> (\<exists>i. i \<noteq> 0
          \<and> q_session_of ops (ss_Uid s) (c_session ops s d) = Inr (s \<lparr> ss_ID := i \<rparr>)
          \<and> q_session ops (ss_Sig s) (ss_Uid s) (c_session ops s d) = Inr (s \<lparr> ss_ID := i \<rparr>)))
     \<and> (\<forall>s d n. q_user_by_name ops n (c_session ops s d) = q_user_by_name ops n d)"

lemma account_laws_user:
  assumes "account_laws ops" "c_user ops u d = (Inr u', d')"
  shows "uu_ID u' \<noteq> 0" "u' = u \<lparr> uu_ID := uu_ID u' \<rparr>" "q_user_by_name ops (uu_Name u) d' = Inr u'"
    "q_session_of ops (uu_ID u') d' = Inl ''record not found''"
  using assms unfolding account_laws_def by blast+

lemma account_laws_session:
  assumes "account_laws ops" "q_session_of ops (ss_Uid s) d = Inl ''record not found''"
  obtains i where "i \<noteq> 0" "q_session_of ops (ss_Uid s) (c_session ops s d) = Inr (s \<lparr> ss_ID := i \<rparr>)"
    "q_session ops (ss_Sig s) (ss_Uid s) (c_session ops s d) = Inr (s \<lparr> ss_ID := i \<rparr>)"
  using assms unfolding account_laws_def by blast

lemma account_laws_keep: "account_laws ops \<Longrightarrow> q_user_by_name ops n (c_session ops s d) = q_user_by_name ops n d"
  unfolding account_laws_def by blast

text \<open>A session that is made for a user without one.\<close>

lemma session_for_new:
  assumes laws: "account_laws ops" and none: "q_session_of ops uid d = Inl ''record not found''"
    and r: "session_for ops now uuid uid d = (r, d')"
  obtains s where "r = Inr s" "ss_Sig s = GenerateUUID uuid" "\<And>n. q_user_by_name ops n d' = q_user_by_name ops n d"
    "\<exists>i. i \<noteq> 0 \<and> q_session_of ops uid d' = Inr (s \<lparr> ss_ID := i \<rparr>)
       \<and> q_session ops (ss_Sig s) uid d' = Inr (s \<lparr> ss_ID := i \<rparr>)"
proof -
  let ?s = "no_Session \<lparr> ss_Sig := GenerateUUID uuid, ss_Expired := i64 (now + 3600 * 24 * 30), ss_Uid := uid \<rparr>"
  have "r = Inr ?s" "d' = c_session ops ?s d"
    using r none by (simp_all add: session_for_def scanned_def no_Session_def Let_def)
  moreover obtain i where "i \<noteq> 0" "q_session_of ops uid (c_session ops ?s d) = Inr (?s \<lparr> ss_ID := i \<rparr>)"
    "q_session ops (ss_Sig ?s) uid (c_session ops ?s d) = Inr (?s \<lparr> ss_ID := i \<rparr>)"
    using account_laws_session [OF laws, of ?s d] none by auto
  ultimately show thesis
    using that [of ?s] account_laws_keep [OF laws] by auto
qed

text \<open>The user a successful creation stores.\<close>

definition new_user :: "api_env \<Rightarrow> APIUserInput \<Rightarrow> uic_User" where
  "new_user env i = no_User \<lparr> uu_Name := ui_Name i, uu_Passwd := HashIt env (ui_Passwd i), uu_Cnname := ui_Cnname i,
     uu_Email := ui_Email i, uu_Phone := ui_Phone i, uu_IM := ui_IM i, uu_QQ := ui_QQ i,
     uu_Role := (if ui_Name i = ''root'' then 2 else 0) \<rparr>"

lemma CreateUser_steps:
  assumes "CreateUser ops env now uuid tok (Inr i) d = ([JSONR 200 p], d')"
  obtains u d1 s where "c_user ops (new_user env i) d = (Inr u, d1)"
    "session_for ops now uuid (uu_ID u) d1 = (Inr s, d')" "JSONR 200 p = JSONR 200 (PSig (ss_Sig s) (uu_Name u))"
  using assms unfolding CreateUser_def new_user_def [symmetric]
  by (auto simp: JSONR_def [of 400] JSONR_def [of 200] split: sum.splits if_splits option.splits prod.splits)


lemma signup_check_passes:
  assumes "h_GetUser ops tok d = Inr a" "User_IsAdmin env a"
  shows "CreateUser ops env now uuid tok i d = CreateUser ops (env \<lparr> en_signup_disable := False \<rparr>) now uuid NoToken i d"
  using assms by (simp add: CreateUser_def signup_refused_def HashIt_def cong: if_cong sum.case_cong)

text \<open>C39: A request to create a user whose token has the name of an administrator and a signature that is stored for nobody is
  refused by the middleware but served by the route, which is not behind it, as if signing up were enabled.\<close>

theorem signup_forged:
  assumes "GetSession tok = Inr w" "q_user_by_name ops (ws_Name w) d = Inr a" "User_IsAdmin env a"
    and "q_session ops (ws_Sig w) (uu_ID a) d = Inl err" "uu_ID a \<noteq> 0"
    and "\<not> en_skip_auth env" "ws_Sig w \<noteq> en_default_token env"
  shows "AuthSessionMidd ops env tok d = Some (Some (401, Error ''session not found''))
     \<and> Routes ops env now uuid tok (R_CreateUser i) d
       = Some (CreateUser ops (env \<lparr> en_signup_disable := False \<rparr>) now uuid NoToken i d)"
proof -
  have "h_GetUser ops tok d = Inr a" using assms(1,2) by (simp add: h_GetUser_def)
  from signup_check_passes [OF this assms(3)] show ?thesis
    using assms by (simp add: Routes_def public_route_def uic_handler_def AuthSessionMidd_def SessionChecking_def scanned_def
        no_Session_def JSONR_def)
qed

section \<open>The members of a team\<close>

text \<open>What is relied on of the table of members, whose rows are \<open>rels\<close>: the condition \<open>NOT IN\<close> on a non-empty list,
  deleting a row, finding a row by non-zero columns, adding a row, and that the row of the team is in another table.\<close>

definition rel_laws :: "'d uic_ops \<Rightarrow> ('d \<Rightarrow> RelTeamUser set) \<Rightarrow> bool" where
  "rel_laws ops rels \<longleftrightarrow>
     (\<forall>tid us d rs. us \<noteq> [] \<and> q_rels_not_in ops tid us d = Inr rs \<longrightarrow>
        distinct rs \<and> set rs = {r \<in> rels d. rt_Tid r = tid \<and> rt_Uid r \<notin> set us})
     \<and> (\<forall>r d d'. r \<in> rels d \<and> d_rel ops r d = (None, d') \<longrightarrow> rels d' = rels d - {r})
     \<and> (\<forall>tid uid d r. tid \<noteq> 0 \<and> uid \<noteq> 0 \<and> q_rel ops \<lparr> rt_ID = 0, rt_Tid = tid, rt_Uid = uid \<rparr> d = Inr r \<longrightarrow>
          r \<in> rels d \<and> rt_Tid r = tid \<and> rt_Uid r = uid)
     \<and> (\<forall>ur d d'. rt_ID ur = 0 \<and> c_rel ops ur d = (None, d') \<longrightarrow> (\<exists>i. rels d' = insert (ur \<lparr> rt_ID := i \<rparr>) (rels d)))
     \<and> (\<forall>tid n r d. rels (snd (u_team ops tid n r d)) = rels d)"

lemma rel_lawsD:
  assumes "rel_laws ops rels"
  shows "us \<noteq> [] \<Longrightarrow> q_rels_not_in ops tid us d = Inr rs \<Longrightarrow>
      distinct rs \<and> set rs = {r \<in> rels d. rt_Tid r = tid \<and> rt_Uid r \<notin> set us}"
    and "r \<in> rels d \<Longrightarrow> d_rel ops r d = (None, d') \<Longrightarrow> rels d' = rels d - {r}"
    and "tid \<noteq> 0 \<Longrightarrow> uid \<noteq> 0 \<Longrightarrow> q_rel ops \<lparr> rt_ID = 0, rt_Tid = tid, rt_Uid = uid \<rparr> d = Inr r \<Longrightarrow>
      r \<in> rels d \<and> rt_Tid r = tid \<and> rt_Uid r = uid"
    and "rt_ID ur = 0 \<Longrightarrow> c_rel ops ur d = (None, d') \<Longrightarrow> \<exists>i. rels d' = insert (ur \<lparr> rt_ID := i \<rparr>) (rels d)"
    and "rels (snd (u_team ops tid n r' d)) = rels d"
  using assms by (simp_all add: rel_laws_def)

definition members :: "RelTeamUser set \<Rightarrow> int \<Rightarrow> int set" where
  "members R tid = rt_Uid ` {r \<in> R. rt_Tid r = tid}"

lemma members_row: "r \<in> R \<Longrightarrow> rt_Uid r \<in> members R (rt_Tid r)"
  by (auto simp: members_def)

lemma members_mono: "R \<subseteq> S \<Longrightarrow> members R tid \<subseteq> members S tid"
  by (auto simp: members_def)

lemma delete_rels_removes:
  assumes laws: "rel_laws ops rels"
  shows "delete_rels ops ms d = (None, d') \<Longrightarrow> distinct ms \<Longrightarrow> set ms \<subseteq> rels d \<Longrightarrow> rels d' = rels d - set ms"
proof (induction ms arbitrary: d)
  case (Cons m ms)
  from Cons.prems(1) obtain d1 where d1: "d_rel ops m d = (None, d1)" "delete_rels ops ms d1 = (None, d')"
    by (auto split: prod.splits option.splits)
  have "rels d1 = rels d - {m}" using rel_lawsD(2) [OF laws _ d1(1)] Cons.prems(3) by simp
  then show ?case using Cons.IH [OF d1(2)] Cons.prems(2,3) by auto
qed simp

text \<open>Adding users keeps all rows and only adds rows of the team for the users.\<close>

lemma add_rels_one:
  assumes laws: "rel_laws ops rels" and nz: "tid \<noteq> 0" "i \<noteq> 0"
    and step: "add_rels ops tid (i # us) d = (None, d')"
  obtains d1 where "add_rels ops tid us d1 = (None, d')" "rels d \<subseteq> rels d1" "i \<in> members (rels d1) tid"
    "\<forall>r \<in> rels d1 - rels d. rt_Tid r = tid \<and> rt_Uid r = i"
proof -
  let ?ur = "\<lparr> rt_ID = 0, rt_Tid = tid, rt_Uid = i \<rparr>"
  let ?q = "scanned ?ur (q_rel ops ?ur d)"
  have q: "rt_Tid ?q = tid \<and> rt_Uid ?q = i \<and> (rt_ID ?q \<noteq> 0 \<longrightarrow> ?q \<in> rels d)"
    using rel_lawsD(3) [OF laws nz] by (auto simp: scanned_def split: sum.splits)
  show thesis
  proof (cases "rt_ID ?q = 0")
    case True
    then obtain d1 where d1: "c_rel ops ?q d = (None, d1)" "add_rels ops tid us d1 = (None, d')"
      using step by (auto simp: Let_def split: prod.splits option.splits)
    then obtain k where k: "rels d1 = insert (?q \<lparr> rt_ID := k \<rparr>) (rels d)"
      using rel_lawsD(4) [OF laws True] by blast
    let ?r = "?q \<lparr> rt_ID := k \<rparr>"
    have r: "rt_Tid ?r = tid" "rt_Uid ?r = i" using q by simp_all
    show thesis
    proof (rule that [OF d1(2)])
      show "i \<in> members (rels d1) tid" using members_row [of ?r "rels d1"] r k by simp
      show "\<forall>r \<in> rels d1 - rels d. rt_Tid r = tid \<and> rt_Uid r = i" unfolding k using r by blast
    qed (use k in blast)
  next
    case False
    show thesis
    proof (rule that)
      show "add_rels ops tid us d = (None, d')" using step False by (simp add: Let_def)
      show "i \<in> members (rels d) tid" using members_row [of ?q "rels d"] q False by simp
    qed simp_all
  qed
qed

lemma add_rels_adds:
  assumes laws: "rel_laws ops rels" and "tid \<noteq> 0"
  shows "add_rels ops tid us d = (None, d') \<Longrightarrow> 0 \<notin> set us \<Longrightarrow>
    rels d \<subseteq> rels d' \<and> set us \<subseteq> members (rels d') tid \<and> (\<forall>r \<in> rels d' - rels d. rt_Tid r = tid \<and> rt_Uid r \<in> set us)"
proof (induction us arbitrary: d)
  case (Cons i us)
  from Cons.prems obtain d1 where d1: "add_rels ops tid us d1 = (None, d')" "rels d \<subseteq> rels d1" "i \<in> members (rels d1) tid"
    "\<forall>r \<in> rels d1 - rels d. rt_Tid r = tid \<and> rt_Uid r = i"
    using add_rels_one [OF laws \<open>tid \<noteq> 0\<close>, of i us d d'] by auto
  have IH: "rels d1 \<subseteq> rels d'" "set us \<subseteq> members (rels d') tid" "\<forall>r \<in> rels d' - rels d1. rt_Tid r = tid \<and> rt_Uid r \<in> set us"
    using Cons.IH [OF d1(1)] Cons.prems(2) by auto
  moreover have "i \<in> members (rels d') tid" using d1(3) members_mono [OF IH(1)] by blast
  ultimately show ?case using d1(2,4) by auto
qed simp

lemma bindUsers_members:
  assumes laws: "rel_laws ops rels" and nz: "tid \<noteq> 0" "0 \<notin> set us" "us \<noteq> []"
    and ok: "bindUsers ops tid us d = (None, d')"
  shows "members (rels d') tid = set us \<and> {r \<in> rels d. rt_Tid r \<noteq> tid \<or> rt_Uid r \<in> set us} \<subseteq> rels d'
    \<and> {r \<in> rels d'. rt_Tid r \<noteq> tid} \<subseteq> rels d"
proof -
  obtain ms d1 where q: "q_rels_not_in ops tid us d = Inr ms" and del: "delete_rels ops ms d = (None, d1)"
    and add: "add_rels ops tid us d1 = (None, d')"
    using ok by (auto simp: bindUsers_def split: sum.splits prod.splits option.splits)
  have ms: "distinct ms" "set ms = {r \<in> rels d. rt_Tid r = tid \<and> rt_Uid r \<notin> set us}"
    using rel_lawsD(1) [OF laws nz(3) q] by auto
  then have d1: "rels d1 = rels d - set ms" using delete_rels_removes [OF laws del] by auto
  note add' = add_rels_adds [OF laws nz(1) add nz(2)]
  have "members (rels d') tid \<subseteq> set us" using add' unfolding d1 ms(2) members_def by blast
  then show ?thesis using add' unfolding d1 ms(2) by blast
qed


section \<open>A database in memory\<close>

text \<open>Lists of rows; a new row gets an identifier above all that occur and goes to the front.  A pattern matches the names that contain
  it.\<close>

record Mem_uic =
  mu_users :: "uic_User list"
  mu_sessions :: "Session list"
  mu_teams :: "Team list"
  mu_rels :: "RelTeamUser list"

definition fresh_id :: "Mem_uic \<Rightarrow> int" where
  "fresh_id d = 1 + foldr max (map uu_ID (mu_users d) @ map ss_Uid (mu_sessions d) @ map ss_ID (mu_sessions d)
     @ map tm_ID (mu_teams d) @ map rt_ID (mu_rels d)) 0"

definition find_row :: "('a \<Rightarrow> bool) \<Rightarrow> 'a list \<Rightarrow> goerror + 'a" where
  "find_row P xs = (case List.find P xs of None \<Rightarrow> Inl ''record not found'' | Some x \<Rightarrow> Inr x)"

definition paged :: "(int \<times> int) option \<Rightarrow> 'a list \<Rightarrow> 'a list" where
  "paged pl xs = (case pl of None \<Rightarrow> xs | Some (off, n) \<Rightarrow> take (nat n) (drop (nat off) xs))"

definition mem_member :: "Mem_uic \<Rightarrow> int \<Rightarrow> Team \<Rightarrow> bool" where
  "mem_member d uid t \<longleftrightarrow> tm_Creator t = uid \<or> (\<exists>r \<in> set (mu_rels d). rt_Tid r = tm_ID t \<and> rt_Uid r = uid)"

definition set_profile :: "APIUserUpdateInput \<Rightarrow> uic_User \<Rightarrow> uic_User" where
  "set_profile i u = u \<lparr> uu_Cnname := ui_Cnname i, uu_Email := ui_Email i, uu_Phone := ui_Phone i, uu_IM := ui_IM i, uu_QQ := ui_QQ i \<rparr>"

definition mem_uic :: "Mem_uic uic_ops" where
  "mem_uic = \<lparr>
     q_user_by_name = (\<lambda>n d. find_row (\<lambda>u. uu_Name u = n) (mu_users d)),
     q_user_by_id = (\<lambda>i d. find_row (\<lambda>u. uu_ID u = i) (mu_users d)),
     q_user_pk = (\<lambda>i d. find_row (\<lambda>u. i = 0 \<or> uu_ID u = i) (mu_users d)),
     q_users_by_names = (\<lambda>ns d. Inr (filter (\<lambda>u. uu_Name u \<in> set ns) (mu_users d))),
     q_users_by_ids = (\<lambda>is d. Inr (filter (\<lambda>u. uu_ID u \<in> set is) (mu_users d))),
     q_users_brief = (\<lambda>is d. Inr (map (\<lambda>u. no_User \<lparr> uu_ID := uu_ID u, uu_Name := uu_Name u, uu_Cnname := uu_Cnname u \<rparr>)
                                   (filter (\<lambda>u. uu_ID u \<in> set is) (mu_users d)))),
     q_users_match = (\<lambda>q pl d. Inr (paged pl (filter (\<lambda>u. str_contains (uu_Name u) q) (mu_users d)))),
     c_user = (\<lambda>u d. let u' = u \<lparr> uu_ID := fresh_id d \<rparr> in (Inr u', d \<lparr> mu_users := u' # mu_users d \<rparr>)),
     s_user = (\<lambda>u d. if uu_ID u = 0 then (Inr 1, d \<lparr> mu_users := u \<lparr> uu_ID := fresh_id d \<rparr> # mu_users d \<rparr>)
                      else (Inr 1, d \<lparr> mu_users := map (\<lambda>x. if uu_ID x = uu_ID u then u else x) (mu_users d) \<rparr>)),
     u_user = (\<lambda>i p d. (None, d \<lparr> mu_users := map (\<lambda>x. if uu_ID x = i then set_profile p x else x) (mu_users d) \<rparr>)),
     d_user = (\<lambda>i role d. let gone = filter (\<lambda>x. uu_ID x = i \<and> uu_Role x \<le> role) (mu_users d) in
                 (Inr (int (length gone)), d \<lparr> mu_users := filter (\<lambda>x. x \<notin> set gone) (mu_users d) \<rparr>)),
     q_session_of = (\<lambda>uid d. find_row (\<lambda>s. ss_Uid s = uid) (mu_sessions d)),
     q_session = (\<lambda>sig uid d. find_row (\<lambda>s. ss_Sig s = sig \<and> ss_Uid s = uid) (mu_sessions d)),
     c_session = (\<lambda>s d. d \<lparr> mu_sessions := s \<lparr> ss_ID := fresh_id d \<rparr> # mu_sessions d \<rparr>),
     d_session = (\<lambda>s d. (None, d \<lparr> mu_sessions := filter (\<lambda>x. ss_ID x \<noteq> ss_ID s) (mu_sessions d) \<rparr>)),
     q_team_by_id = (\<lambda>i d. find_row (\<lambda>t. tm_ID t = i) (mu_teams d)),
     q_team_by_name = (\<lambda>n d. find_row (\<lambda>t. tm_Name t = n) (mu_teams d)),
     q_team_member = (\<lambda>i uid d. find_row (\<lambda>t. tm_ID t = i \<and> mem_member d uid t) (mu_teams d)),
     q_team_creator = (\<lambda>i uid d. find_row (\<lambda>t. tm_ID t = i \<and> tm_Creator t = uid) (mu_teams d)),
     q_teams_match = (\<lambda>q pl d. Inr (paged pl (filter (\<lambda>t. str_contains (tm_Name t) q) (mu_teams d)))),
     q_teams_of = (\<lambda>q uid d. Inr (filter (\<lambda>t. str_contains (tm_Name t) q \<and> mem_member d uid t) (mu_teams d))),
     q_teams_by_names = (\<lambda>ns d. Inr (filter (\<lambda>t. tm_Name t \<in> set ns) (mu_teams d))),
     q_teams_by_ids = (\<lambda>is d. Inr (filter (\<lambda>t. tm_ID t \<in> set is) (mu_teams d))),
     c_team = (\<lambda>t d. let t' = t \<lparr> tm_ID := fresh_id d \<rparr> in (Inr (1, t'), d \<lparr> mu_teams := t' # mu_teams d \<rparr>)),
     u_team = (\<lambda>i n r d. (None, d \<lparr> mu_teams := map (\<lambda>t. if tm_ID t = i then
                 t \<lparr> tm_Name := (if n = [] then tm_Name t else n), tm_Resume := (if r = [] then tm_Resume t else r) \<rparr> else t)
                 (mu_teams d) \<rparr>)),
     d_team = (\<lambda>i d. (Inr 1, d \<lparr> mu_teams := filter (\<lambda>t. tm_ID t \<noteq> i) (mu_teams d) \<rparr>)),
     q_rel = (\<lambda>ur d. find_row (\<lambda>r. (rt_ID ur = 0 \<or> rt_ID r = rt_ID ur) \<and> (rt_Tid ur = 0 \<or> rt_Tid r = rt_Tid ur)
                              \<and> (rt_Uid ur = 0 \<or> rt_Uid r = rt_Uid ur)) (mu_rels d)),
     q_rels_of_team = (\<lambda>tid d. Inr (filter (\<lambda>r. rt_Tid r = tid) (mu_rels d))),
     q_rels_of_user = (\<lambda>uid d. Inr (filter (\<lambda>r. rt_Uid r = uid) (mu_rels d))),
     q_rels_in = (\<lambda>uid tids d. Inr (filter (\<lambda>r. rt_Uid r = uid \<and> rt_Tid r \<in> set tids) (mu_rels d))),
     q_rels_not_in = (\<lambda>tid us d. Inr (remdups (filter (\<lambda>r. rt_Tid r = tid \<and> us \<noteq> [] \<and> rt_Uid r \<notin> set us) (mu_rels d)))),
     c_rel = (\<lambda>ur d. (None, d \<lparr> mu_rels := ur \<lparr> rt_ID := fresh_id d \<rparr> # mu_rels d \<rparr>)),
     d_rel = (\<lambda>r d. (None, d \<lparr> mu_rels := filter (\<lambda>x. x \<noteq> r) (mu_rels d) \<rparr>)),
     d_rels = (\<lambda>tid d. let gone = filter (\<lambda>r. rt_Tid r = tid) (mu_rels d) in
                 (int (length gone), d \<lparr> mu_rels := filter (\<lambda>r. rt_Tid r \<noteq> tid) (mu_rels d) \<rparr>)) \<rparr>"

lemma foldr_max_ge: "x \<in> set xs \<Longrightarrow> x \<le> foldr max xs (0::int)" and foldr_max_nonneg: "0 \<le> foldr max xs (0::int)"
  by (induction xs) auto

lemma fresh_id_pos: "fresh_id d > 0"
  unfolding fresh_id_def by (rule add_pos_nonneg [OF zero_less_one foldr_max_nonneg])

lemma fresh_id_session: "s \<in> set (mu_sessions d) \<Longrightarrow> ss_Uid s < fresh_id d"
  using foldr_max_ge [of "ss_Uid s" "map uu_ID (mu_users d) @ map ss_Uid (mu_sessions d) @ map ss_ID (mu_sessions d)
     @ map tm_ID (mu_teams d) @ map rt_ID (mu_rels d)"]
  by (simp add: fresh_id_def del: foldr_append)

lemma find_row_None: "\<forall>x \<in> set xs. \<not> P x \<Longrightarrow> find_row P xs = Inl ''record not found''"
  by (induction xs) (auto simp: find_row_def)

lemma find_row_Cons: "find_row P (x # xs) = (if P x then Inr x else find_row P xs)"
  by (simp add: find_row_def)

lemma find_row_Inr: "find_row P xs = Inr x \<Longrightarrow> x \<in> set xs \<and> P x"
  by (induction xs) (auto simp: find_row_def split: if_splits)

lemma mem_account_laws: "account_laws mem_uic"
  unfolding account_laws_def
proof (intro conjI allI impI)
  fix u u' :: uic_User and d d' :: Mem_uic
  assume "c_user mem_uic u d = (Inr u', d')"
  then have u': "u' = u \<lparr> uu_ID := fresh_id d \<rparr>" and d': "d' = d \<lparr> mu_users := u' # mu_users d \<rparr>"
    by (auto simp: mem_uic_def Let_def)
  show "uu_ID u' \<noteq> 0" using u' fresh_id_pos [of d] by simp
  show "u' = u \<lparr> uu_ID := uu_ID u' \<rparr>" using u' by simp
  show "q_user_by_name mem_uic (uu_Name u) d' = Inr u'" using u' d' by (simp add: mem_uic_def find_row_Cons)
  have "find_row (\<lambda>s. ss_Uid s = fresh_id d) (mu_sessions d) = Inl ''record not found''"
    by (rule find_row_None) (use fresh_id_session [of _ d] in fastforce)
  then show "q_session_of mem_uic (uu_ID u') d' = Inl ''record not found''" using u' d' by (simp add: mem_uic_def)
next
  fix s :: Session and d :: Mem_uic
  show "\<exists>i. i \<noteq> 0 \<and> q_session_of mem_uic (ss_Uid s) (c_session mem_uic s d) = Inr (s \<lparr> ss_ID := i \<rparr>)
      \<and> q_session mem_uic (ss_Sig s) (ss_Uid s) (c_session mem_uic s d) = Inr (s \<lparr> ss_ID := i \<rparr>)"
    using fresh_id_pos [of d] by (intro exI [of _ "fresh_id d"]) (simp add: mem_uic_def find_row_Cons)
next
  show "q_user_by_name mem_uic n (c_session mem_uic s d) = q_user_by_name mem_uic n d" for s d n
    by (simp add: mem_uic_def)
qed

lemma mem_rel_laws: "rel_laws mem_uic (\<lambda>d. set (mu_rels d))"
  unfolding rel_laws_def by (auto simp: mem_uic_def dest: find_row_Inr)

section \<open>An example\<close>

definition demo_user :: "int \<Rightarrow> string \<Rightarrow> string \<Rightarrow> int \<Rightarrow> uic_User" where
  "demo_user i n pw role = no_User \<lparr> uu_ID := i, uu_Name := n, uu_Passwd := pw, uu_Role := role \<rparr>"

definition demo_uic :: Mem_uic where
  "demo_uic = \<lparr> mu_users = [demo_user 1 ''root'' ''x'' 2, demo_user 2 ''ann'' ''y'' 0, demo_user 3 ''bob'' ''z'' 0],
     mu_sessions = [\<lparr> ss_ID = 1, ss_Uid = 2, ss_Sig = ''s2'', ss_Expired = 0 \<rparr>],
     mu_teams = [\<lparr> tm_ID = 1, tm_Name = ''t'', tm_Resume = [], tm_Creator = 3 \<rparr>],
     mu_rels = [\<lparr> rt_ID = 1, rt_Tid = 1, rt_Uid = 2 \<rparr>] \<rparr>"

definition demo_api_env :: api_env where
  "demo_api_env = \<lparr> en_access_control = True, en_signup_disable = True, en_skip_auth = False, en_default_token = [],
     en_salt = ''salt'', en_Md5Encode = Md5 \<rparr>"

definition demo_token :: "string \<Rightarrow> string \<Rightarrow> token" where
  "demo_token n sig = Token (JObj [(''name'', JStr n), (''sig'', JStr sig)])"

lemma demo_token_session: "n \<noteq> [] \<Longrightarrow> sig \<noteq> [] \<Longrightarrow> GetSession (demo_token n sig) = Inr \<lparr> ws_Name = n, ws_Sig = sig \<rparr>"
  by (simp add: demo_token_def GetSession_def j_fields_def j_str_def ascii_lower_def)

lemmas demo_api_defs = demo_uic_def demo_user_def demo_api_env_def mem_uic_def find_row_def demo_token_session
  Routes_def public_route_def uic_handler_def AuthSessionMidd_def SessionChecking_def h_GetUser_def scanned_def no_User_def no_Session_def
  User_IsAdmin_def

text \<open>A member of the team adds a user to it.\<close>

lemma demo_add: "Routes mem_uic demo_api_env 0 [] (demo_token ''ann'' ''s2'') (R_AddTeamUsers (Inr (1, [''bob'']))) demo_uic
    = Some ([JSONR 200 (PStr ''add successful'')], demo_uic \<lparr> mu_rels := \<lparr> rt_ID = 4, rt_Tid = 1, rt_Uid = 3 \<rparr> # mu_rels demo_uic \<rparr>)"
  by (simp add: demo_api_defs AddTeamUsers_def managed_team_def mem_member_def fresh_id_def)


definition demo_account :: APIUserInput where
  "demo_account = \<lparr> ui_Cnname = ''Carl'', ui_Email = ''c@x'', ui_Phone = [], ui_IM = [], ui_QQ = [], ui_Name = ''carl'',
     ui_Passwd = ''pw'' \<rparr>"

lemma demo_account_clean: "\<not> HasDangerousCharacters (ui_Cnname demo_account)"
  by code_simp

definition demo_open :: api_env where
  "demo_open = demo_api_env \<lparr> en_signup_disable := False \<rparr>"

definition demo_created :: Mem_uic where
  "demo_created = snd (CreateUser mem_uic demo_open 0 ''ab-cd'' NoToken (Inr demo_account) demo_uic)"

lemma demo_session_for:
  fixes us :: "uic_User list"
  defines "s \<equiv> \<lparr> ss_ID = 0, ss_Uid = 4, ss_Sig = ''abcd'', ss_Expired = 2592000 \<rparr>"
  shows "session_for mem_uic 0 ''ab-cd'' 4 (demo_uic \<lparr> mu_users := us \<rparr>) = (Inr s, c_session mem_uic s (demo_uic \<lparr> mu_users := us \<rparr>))"
  by (simp add: s_def session_for_def demo_api_defs GenerateUUID_def str_remove_def Let_def i64_def)

lemma demo_create:
  "CreateUser mem_uic demo_open 0 ''ab-cd'' NoToken (Inr demo_account) demo_uic = ([JSONR 200 (PSig ''abcd'' ''carl'')], demo_created)"
proof (rule prod_eqI)
  have none: "q_user_by_name mem_uic ''carl'' demo_uic = Inl ''record not found''"
    by (simp add: mem_uic_def demo_account_def demo_uic_def demo_user_def no_User_def find_row_def)
  have fresh: "fresh_id demo_uic = 4" by (simp add: fresh_id_def demo_uic_def demo_user_def no_User_def)
  have c: "c_user mem_uic x demo_uic = (Inr (x \<lparr> uu_ID := 4 \<rparr>), demo_uic \<lparr> mu_users := x \<lparr> uu_ID := 4 \<rparr> # mu_users demo_uic \<rparr>)" for x
    by (simp add: mem_uic_def Let_def fresh)
  have "\<not> en_signup_disable demo_open" "ui_Name demo_account = ''carl''" by (simp_all add: demo_open_def demo_account_def)
  then show "fst (CreateUser mem_uic demo_open 0 ''ab-cd'' NoToken (Inr demo_account) demo_uic)
      = fst ([JSONR 200 (PSig ''abcd'' ''carl'')], demo_created)"
    by (simp add: CreateUser_def demo_account_clean none c scanned_def no_User_def demo_session_for)
qed (simp add: demo_created_def)


theorem signup_forged_witness:
  "AuthSessionMidd mem_uic demo_api_env (demo_token ''root'' ''zz'') demo_uic = Some (Some (401, Error ''session not found''))
   \<and> Routes mem_uic demo_api_env 0 ''ab-cd'' (demo_token ''root'' ''zz'') (R_CreateUser (Inr demo_account)) demo_uic
     = Some ([JSONR 200 (PSig ''abcd'' ''carl'')], demo_created)"
  unfolding demo_create [symmetric] demo_open_def
proof (rule signup_forged)
  show "GetSession (demo_token ''root'' ''zz'') = Inr \<lparr> ws_Name = ''root'', ws_Sig = ''zz'' \<rparr>"
    by (simp add: demo_token_session)
  show "q_user_by_name mem_uic (ws_Name \<lparr> ws_Name = ''root'', ws_Sig = ''zz'' \<rparr>) demo_uic = Inr (demo_user 1 ''root'' ''x'' 2)"
    "q_session mem_uic (ws_Sig \<lparr> ws_Name = ''root'', ws_Sig = ''zz'' \<rparr>) (uu_ID (demo_user 1 ''root'' ''x'' 2)) demo_uic
       = Inl ''record not found''"
    by (simp_all add: mem_uic_def find_row_def demo_uic_def demo_user_def no_User_def)
qed (simp_all add: demo_user_def demo_api_env_def User_IsAdmin_def no_User_def)

definition demo_update :: APIUpdateTeamInput where
  "demo_update = \<lparr> ti_Name = ''u'', ti_Resume = [], ti_UserIDs = [3], ti_ID = 1 \<rparr>"

definition demo_updated :: Mem_uic where
  "demo_updated = snd (UpdateTeam mem_uic demo_api_env (demo_token ''ann'' ''s2'') (Inr demo_update) demo_uic)"

lemma demo_update_ok:
  "UpdateTeam mem_uic demo_api_env (demo_token ''ann'' ''s2'') (Inr demo_update) demo_uic = ([JSONR 200 (PStr ''team updated!'')], demo_updated)"
  unfolding demo_updated_def
  by (simp add: UpdateTeam_def demo_update_def demo_api_defs managed_team_def mem_member_def bindUsers_def fresh_id_def)


end
