(* ===== verification/Spec2Isabelle.thy ===== *)
theory Spec2Isabelle
  imports JudgeProps TransferProps CommonProps GraphProps HbsProps AggregatorProps NodataProps Pipeline ApiProps
begin

text \<open>
  A verification development for open-falcon, a monitoring system written in Go.

  \<^bold>\<open>The program.\<close>  Agents send points to the \<^emph>\<open>transfer\<close> (\<open>modules/transfer\<close>), which validates them and forwards them
  over consistent hash rings to the \<^emph>\<open>judge\<close>, the \<^emph>\<open>graph\<close> and other back ends.  The judge (\<open>modules/judge\<close>) keeps
  the recent points of every counter and evaluates the strategies and expressions it fetches from the
  heartbeat server \<^emph>\<open>hbs\<close> (\<open>modules/hbs\<close>); the events it decides on go through redis to the \<^emph>\<open>alarm\<close> module
  (\<open>modules/alarm\<close>), which notifies the teams.  The graph (\<open>modules/graph\<close>) keeps points in memory, flushes them to rrd
  files and answers queries from both.  The \<^emph>\<open>aggregator\<close> and \<^emph>\<open>nodata\<close> modules compute points of their own (a quotient over a
  cluster, a mock for a silent counter) and push them back with \<open>common/sdk\<close>.  The \<^emph>\<open>API\<close> (\<open>modules/api\<close>) serves users, teams and
  the configuration.

  \<^bold>\<open>Conventions.\<close>  Go strings are byte lists, Go maps association lists with distinct keys, a panic is \<^const>\<open>None\<close> (the type
  \<open>'a go\<close>), an error value is the left side of a sum, \<open>int64\<close> is \<^typ>\<open>int\<close> with the wrap-around \<open>i64\<close> written out where the
  arithmetic can leave the range, and \<open>float64\<close> is an exact type with rounding to 53 bits.  A method
  \<open>T.M\<close> is called \<open>T_M\<close>.  The package variables of a module are one record; a handler is a function on it, run
  to its end; \<open>judge_step\<close>, the step relations of the transfer and the graph, and \<open>served\<close> interleave handlers.

  \<^bold>\<open>Theories.\<close>
  \<^item> \<open>Prelude\<close>, \<open>GoStrings\<close>, \<open>Float64\<close>, \<open>Hashes\<close>: slices, loops that may panic, maps, the functions of \<open>strings\<close> and
    \<open>strconv\<close>, floating point, MD5 and CRC32.  \<open>Interfaces\<close>: the locales \<open>kv_store\<close>, \<open>kv_store_del\<close> and
    \<open>fifo_buffer\<close> that the maps and queues of the components are interpretations of.
  \<^item> \<open>CommonUtils\<close>, \<open>CommonModel\<close>, \<open>CommonProps\<close>: \<open>common/utils\<close> (tag strings, keys) and \<open>common/model\<close>; printing and
    parsing of tags are inverse, keys identify series, two parsers agree.
  \<^item> \<open>JudgeFunc\<close>, \<open>Judge\<close>, \<open>JudgeAlarm\<close>, \<open>JudgeProps\<close>: \<open>judge/store\<close> (history lists, the eleven functions through the locale
    \<open>judge_function\<close>, the sharded map, events), \<open>judge/g\<close>, \<open>judge/cron\<close> and \<open>judge/rpc\<close>; the invariant of reachable states,
    absence of panics, and that \<open>sendEventIfNeed\<close> refines an automaton of alarms and recoveries.
  \<^item> \<open>TransferSender\<close>, \<open>TransferFlow\<close>, \<open>TransferInv\<close>, \<open>TransferProps\<close>: \<open>transfer/g\<close>, \<open>sender\<close> and \<open>receiver\<close>; typed queues, absence of
    panics, accounting of received points, FIFO draining.
  \<^item> \<open>GraphStore\<close>, \<open>GraphApi\<close>, \<open>GraphRrd\<close>, \<open>GraphQuery\<close>, \<open>GraphInv\<close>, \<open>GraphMerge\<close>, \<open>GraphProps\<close>: \<open>graph/store\<close>, \<open>index\<close>, \<open>api\<close>, \<open>rrdtool\<close> and
    \<open>cron\<close>; order of the points in memory, conservation when flushing and migrating, what a query returns.
  \<^item> \<open>Hbs\<close>, \<open>HbsProps\<close>: \<open>hbs/db\<close>, \<open>cache\<close> and \<open>rpc\<close>; ancestry of templates and inherited strategies.
  \<^item> \<open>Sdk\<close>, \<open>Aggregator\<close>, \<open>AggregatorProps\<close>, \<open>Nodata\<close>, \<open>NodataProps\<close>: \<open>common/sdk/sender\<close>, \<open>modules/aggregator\<close> and \<open>modules/nodata\<close>.
  \<^item> \<open>Redis\<close>, \<open>Alarm\<close>, \<open>AlarmProps\<close>: \<open>modules/alarm\<close>; no event makes it panic, combined mails lose nothing.
  \<^item> \<open>Api\<close>, \<open>ApiProps\<close>: the users, teams and sessions of \<open>modules/api/app\<close>, with their routes; who may change the database, that an
    account works after its creation, what updating a team does, and that a forged token can create users.
  \<^item> \<open>Pipeline\<close>: hbs, judge and alarm together: the events of a judge that runs on the strategies of the heartbeat server
    are handled by the alarm module.

  \<^bold>\<open>Parameters.\<close>  Code that is not part of the repository is an argument: the bounded lists and concurrent maps of
  \<open>toolkits\<close>, the hash rings, rrd files, redis commands, the statements of the API's
  database, and the answers of other databases and HTTP services.  What is relied on is
  a named predicate (\<open>redis_laws\<close>, \<open>maps_ok\<close>, \<open>account_laws\<close>, \<open>rel_laws\<close> and the like) with an instance that satisfies it.  JSON is
  modelled as trees, its texts are not.

  \<^bold>\<open>Loops.\<close>  Loops are structural recursion, folds, or functions with a termination proof.  Loops of the source that may not end
  are \<open>partial_function (option)\<close> (the batches of nodata, the emptying of a redis list) and the theorems state that
  they return.  The bound ten of \<open>parent_loop\<close> is the bound of \<open>ParentIds\<close> itself.

  \<^bold>\<open>Not modelled.\<close>  Goroutines, locks and channels below the level of whole handlers; the HTTP handlers of the modules,
  which print state as JSON; the start-up code and configuration files; logging and counters; the agent's readers of
  \<open>/proc\<close>, which are calls of a third-party library; the API's handlers of host groups,
  templates, strategies, dashboards and graph queries, which have the shape of those of users and teams on tables of their own; \<open>falcon2p8s\<close>, which feeds a third-party client; connection pools and RPC clients; the command
  line tool.
\<close>

end
